theory Spec2Isabelle
  imports Main "HOL-Library.AList"
begin

section \<open>Go strings\<close>

text \<open>
  A Go string is a sequence of bytes: a \<^typ>\<open>string\<close> here is the list of its bytes, and
  text outside ASCII is its UTF-8 encoding.
\<close>

definition NL :: char where "NL = CHR 0x0A"
definition CR :: char where "CR = CHR 0x0D"

fun strings_HasPrefix :: "string \<Rightarrow> string \<Rightarrow> bool" where
  "strings_HasPrefix s [] = True"
| "strings_HasPrefix [] (p # ps) = False"
| "strings_HasPrefix (c # cs) (p # ps) = (c = p \<and> strings_HasPrefix cs ps)"

fun strings_TrimPrefix :: "string \<Rightarrow> string \<Rightarrow> string option" where
  "strings_TrimPrefix s [] = Some s"
| "strings_TrimPrefix [] (p # ps) = None"
| "strings_TrimPrefix (c # cs) (p # ps) = (if c = p then strings_TrimPrefix cs ps else None)"

fun strings_Contains :: "string \<Rightarrow> string \<Rightarrow> bool" where
  "strings_Contains [] sub = (sub = [])"
| "strings_Contains (c # cs) sub = (strings_HasPrefix (c # cs) sub \<or> strings_Contains cs sub)"

fun strings_Split :: "string \<Rightarrow> char \<Rightarrow> string list" where
  "strings_Split [] sep = [[]]"
| "strings_Split (c # cs) sep =
     (if c = sep then [] # strings_Split cs sep
      else (case strings_Split cs sep of [] \<Rightarrow> [[c]] | l # ls \<Rightarrow> (c # l) # ls))"

fun strings_Join :: "string list \<Rightarrow> string \<Rightarrow> string" where
  "strings_Join [] sep = []"
| "strings_Join [l] sep = l"
| "strings_Join (l # ls) sep = l @ sep @ strings_Join ls sep"

text \<open>White space as \<open>unicode.IsSpace\<close> sees it, on the UTF-8 bytes of a string: the
  length in bytes of the white-space rune that starts (or ends) the string, 0 when there is
  none.  The runes are U+0009 to U+000D, U+0020, U+0085, U+00A0, U+1680, U+2000 to U+200A,
  U+2028, U+2029, U+202F, U+205F and U+3000.\<close>

definition asciiSpace :: "char \<Rightarrow> bool" where
  "asciiSpace a = (a = CHR 0x09 \<or> a = CHR 0x0A \<or> a = CHR 0x0B \<or> a = CHR 0x0C \<or> a = CHR 0x0D
     \<or> a = CHR 0x20)"

definition space2 :: "char \<Rightarrow> char \<Rightarrow> bool" where
  "space2 a b = (a = CHR 0xC2 \<and> (b = CHR 0x85 \<or> b = CHR 0xA0))"

definition space3 :: "char \<Rightarrow> char \<Rightarrow> char \<Rightarrow> bool" where
  "space3 a b c =
     ((a = CHR 0xE1 \<and> b = CHR 0x9A \<and> c = CHR 0x80)
      \<or> (a = CHR 0xE2 \<and> b = CHR 0x80
          \<and> (c = CHR 0x80 \<or> c = CHR 0x81 \<or> c = CHR 0x82 \<or> c = CHR 0x83 \<or> c = CHR 0x84
             \<or> c = CHR 0x85 \<or> c = CHR 0x86 \<or> c = CHR 0x87 \<or> c = CHR 0x88 \<or> c = CHR 0x89
             \<or> c = CHR 0x8A \<or> c = CHR 0xA8 \<or> c = CHR 0xA9 \<or> c = CHR 0xAF))
      \<or> (a = CHR 0xE2 \<and> b = CHR 0x81 \<and> c = CHR 0x9F)
      \<or> (a = CHR 0xE3 \<and> b = CHR 0x80 \<and> c = CHR 0x80))"

fun spaceAtStart :: "string \<Rightarrow> nat" where
  "spaceAtStart (a # b # c # _) =
     (if asciiSpace a then 1 else if space2 a b then 2 else if space3 a b c then 3 else 0)"
| "spaceAtStart [a, b] = (if asciiSpace a then 1 else if space2 a b then 2 else 0)"
| "spaceAtStart [a] = (if asciiSpace a then 1 else 0)"
| "spaceAtStart [] = 0"

text \<open>The same on the reversed string, whose head is the last byte.\<close>

fun spaceAtEnd :: "string \<Rightarrow> nat" where
  "spaceAtEnd (c # b # a # _) =
     (if asciiSpace c then 1 else if space2 b c then 2 else if space3 a b c then 3 else 0)"
| "spaceAtEnd [c, b] = (if asciiSpace c then 1 else if space2 b c then 2 else 0)"
| "spaceAtEnd [c] = (if asciiSpace c then 1 else 0)"
| "spaceAtEnd [] = 0"

fun TrimLeft :: "string \<Rightarrow> string" where
  "TrimLeft [] = []"
| "TrimLeft (c # cs) =
     (let n = spaceAtStart (c # cs) in
      if n = 0 then c # cs else TrimLeft (drop (n - 1) cs))"

fun TrimRightRev :: "string \<Rightarrow> string" where
  "TrimRightRev [] = []"
| "TrimRightRev (c # cs) =
     (let n = spaceAtEnd (c # cs) in
      if n = 0 then c # cs else TrimRightRev (drop (n - 1) cs))"

definition strings_TrimSpace :: "string \<Rightarrow> string" where
  "strings_TrimSpace s = rev (TrimRightRev (rev (TrimLeft s)))"


section \<open>Paths (path/filepath on Unix)\<close>

definition rooted :: "string \<Rightarrow> bool" where
  "rooted p = (case p of [] \<Rightarrow> False | c # _ \<Rightarrow> c = CHR ''/'')"

text \<open>The elements of a path after lexical cleaning: empty elements and \<open>.\<close> are dropped,
  \<open>..\<close> removes the element before it, is dropped at the root, and is kept at the start of
  a relative path.  The second argument is the stack of elements kept so far, last first.\<close>

fun cleanElems :: "bool \<Rightarrow> string list \<Rightarrow> string list \<Rightarrow> string list" where
  "cleanElems r acc [] = rev acc"
| "cleanElems r acc (e # es) =
     (if e = [] \<or> e = ''.'' then cleanElems r acc es
      else if e = ''..'' then
        (case acc of
           [] \<Rightarrow> if r then cleanElems r [] es else cleanElems r [e] es
         | a # as \<Rightarrow> if a = ''..'' then cleanElems r (e # acc) es else cleanElems r as es)
      else cleanElems r (e # acc) es)"

definition elems :: "string \<Rightarrow> string list" where
  "elems p = cleanElems (rooted p) [] (strings_Split p CHR ''/'')"

definition render :: "bool \<Rightarrow> string list \<Rightarrow> string" where
  "render r es =
     (if r then CHR ''/'' # strings_Join es ''/''
      else if es = [] then ''.'' else strings_Join es ''/'')"

definition filepath_Clean :: "string \<Rightarrow> string" where
  "filepath_Clean p = render (rooted p) (elems p)"

definition filepath_Join :: "string list \<Rightarrow> string" where
  "filepath_Join es =
     (case dropWhile (\<lambda>e. e = []) es of
        [] \<Rightarrow> []
      | e # rest \<Rightarrow> filepath_Clean (strings_Join (e # rest) ''/''))"

definition filepath_Base :: "string \<Rightarrow> string" where
  "filepath_Base p =
     (if p = [] then ''.''
      else (let q = dropWhile (\<lambda>c. c = CHR ''/'') (rev p);
                b = rev (takeWhile (\<lambda>c. c \<noteq> CHR ''/'') q)
            in if b = [] then ''/'' else b))"

definition filepath_Dir :: "string \<Rightarrow> string" where
  "filepath_Dir p = filepath_Clean (rev (dropWhile (\<lambda>c. c \<noteq> CHR ''/'') (rev p)))"

section \<open>The file system\<close>

text \<open>
  The file system is the list of its entries, keyed by their cleaned paths; the root and the
  directory that relative paths start from are always there.  Path resolution walks the
  chain of prefixes of a path, as the kernel does: a missing component is \<open>ENOENT\<close>, a
  regular file above the last component is \<open>ENOTDIR\<close>.  There are no symbolic links and no
  permissions.
\<close>

datatype node = File string | Directory

datatype errno = ENOENT | ENOTDIR | EISDIR | EEXIST | ENOTEMPTY

type_synonym fs = "(string \<times> node) list"

definition pathChain :: "string \<Rightarrow> string list" where
  "pathChain p = map (\<lambda>k. render (rooted p) (take k (elems p))) [1..<Suc (length (elems p))]"

fun walk :: "fs \<Rightarrow> string list \<Rightarrow> errno + node" where
  "walk f [] = Inr Directory"
| "walk f [p] = (case map_of f p of None \<Rightarrow> Inl ENOENT | Some n \<Rightarrow> Inr n)"
| "walk f (p # q # ps) =
     (case map_of f p of
        None \<Rightarrow> Inl ENOENT
      | Some (File _) \<Rightarrow> Inl ENOTDIR
      | Some Directory \<Rightarrow> walk f (q # ps))"

definition os_Stat :: "fs \<Rightarrow> string \<Rightarrow> errno + node" where
  "os_Stat f p = walk f (pathChain p)"

definition exists :: "fs \<Rightarrow> string \<Rightarrow> bool" where
  "exists f p = (case os_Stat f p of Inl _ \<Rightarrow> False | Inr _ \<Rightarrow> True)"

text \<open>\<open>os.IsNotExist\<close> of the error of \<open>os.Stat\<close>: true for \<open>ENOENT\<close> only.\<close>

definition IsNotExist :: "fs \<Rightarrow> string \<Rightarrow> bool" where
  "IsNotExist f p = (os_Stat f p = Inl ENOENT)"

fun mkdirs :: "fs \<Rightarrow> string list \<Rightarrow> errno option \<times> fs" where
  "mkdirs f [] = (None, f)"
| "mkdirs f (p # ps) =
     (case map_of f p of
        Some (File _) \<Rightarrow> (Some (if ps = [] then EEXIST else ENOTDIR), f)
      | Some Directory \<Rightarrow> mkdirs f ps
      | None \<Rightarrow> mkdirs (AList.update p Directory f) ps)"

definition os_MkdirAll :: "fs \<Rightarrow> string \<Rightarrow> errno option \<times> fs" where
  "os_MkdirAll f p = mkdirs f (pathChain p)"

definition os_WriteFile :: "fs \<Rightarrow> string \<Rightarrow> string \<Rightarrow> errno option \<times> fs" where
  "os_WriteFile f p content =
     (let ch = pathChain p in
      if ch = [] then (Some EISDIR, f)
      else (case walk f (butlast ch) of
              Inl e \<Rightarrow> (Some e, f)
            | Inr (File _) \<Rightarrow> (Some ENOTDIR, f)
            | Inr Directory \<Rightarrow>
                (case map_of f (last ch) of
                   Some Directory \<Rightarrow> (Some EISDIR, f)
                 | _ \<Rightarrow> (None, AList.update (last ch) (File content) f))))"

section \<open>Regular expressions of pkg/work\<close>

text \<open>\<open>\s\<close> of Go's regexp package is the ASCII class \<open>[\t\n\f\r ]\<close>.\<close>

definition reSpace :: "char \<Rightarrow> bool" where
  "reSpace c = (c = CHR 0x09 \<or> c = CHR 0x0A \<or> c = CHR 0x0C \<or> c = CHR 0x0D \<or> c = CHR 0x20)"

text \<open>\<open>\s*(.+)$\<close> on what is left of a line: the star is greedy, the dot takes no newline,
  so the group is the rest after its leading \<open>\s\<close> bytes, or the last byte when there is
  nothing else.\<close>

definition restPlus :: "string \<Rightarrow> string option" where
  "restPlus r =
     (let d = dropWhile reSpace r in
      if d \<noteq> [] then (if NL \<in> set d then None else Some d)
      else if r = [] \<or> last r = NL then None
      else Some [last r])"

text \<open>\<open>\s*(.*)$\<close>\<close>

definition restStar :: "string \<Rightarrow> string option" where
  "restStar r = (let d = dropWhile reSpace r in if NL \<in> set d then None else Some d)"

text \<open>\<open>\s*$\<close>\<close>

definition restBlank :: "string \<Rightarrow> bool" where
  "restBlank r = (dropWhile reSpace r = [])"

text \<open>Under \<open>(?i)\<close> a literal letter matches both of its cases and every other rune of
  its simple case folding orbit: U+017F for s, U+212A for k.  A header word is kept as the
  list, position by position, of the byte strings that match there.\<close>

definition ci :: "char \<Rightarrow> char \<Rightarrow> string list" where
  "ci u l = [[u], [l]]"

definition ciS :: "string list" where
  "ciS = [''S'', ''s'', [CHR 0xC5, CHR 0xBF]]"

definition ciK :: "string list" where
  "ciK = [''K'', ''k'', [CHR 0xE2, CHR 0x84, CHR 0xAA]]"

definition lit :: "char \<Rightarrow> string list" where
  "lit c = [[c]]"

definition statusWord :: "string list list" where
  "statusWord = [ciS, ci CHR ''T'' CHR ''t'', ci CHR ''A'' CHR ''a'', ci CHR ''T'' CHR ''t'',
     ci CHR ''U'' CHR ''u'', ciS, lit CHR '':'']"

definition assignedWord :: "string list list" where
  "assignedWord = [ci CHR ''A'' CHR ''a'', ciS, ciS, ci CHR ''I'' CHR ''i'', ci CHR ''G'' CHR ''g'',
     ci CHR ''N'' CHR ''n'', ci CHR ''E'' CHR ''e'', ci CHR ''D'' CHR ''d'', lit CHR '' '',
     ci CHR ''T'' CHR ''t'', ci CHR ''O'' CHR ''o'', lit CHR '':'']"

definition checklistWord :: "string list list" where
  "checklistWord = [ci CHR ''C'' CHR ''c'', ci CHR ''H'' CHR ''h'', ci CHR ''E'' CHR ''e'',
     ci CHR ''C'' CHR ''c'', ciK, ci CHR ''L'' CHR ''l'', ci CHR ''I'' CHR ''i'', ciS,
     ci CHR ''T'' CHR ''t'']"

definition notesWord :: "string list list" where
  "notesWord = [ci CHR ''N'' CHR ''n'', ci CHR ''O'' CHR ''o'', ci CHR ''T'' CHR ''t'',
     ci CHR ''E'' CHR ''e'', ciS]"

fun matchFold :: "string list list \<Rightarrow> string \<Rightarrow> string option" where
  "matchFold [] s = Some s"
| "matchFold (alts # ps) s =
     (case filter (strings_HasPrefix s) alts of
        [] \<Rightarrow> None
      | a # _ \<Rightarrow> matchFold ps (drop (length a) s))"

text \<open>\<open>(?i)^##\s*<word>\<close>: what follows the header word, when the line starts so.\<close>

definition header :: "string list list \<Rightarrow> string \<Rightarrow> string option" where
  "header word line =
     (case strings_TrimPrefix line ''##'' of
        None \<Rightarrow> None
      | Some r \<Rightarrow> matchFold word (dropWhile reSpace r))"

definition statusRe :: "string \<Rightarrow> string option" where
  "statusRe line = (case header statusWord line of None \<Rightarrow> None | Some r \<Rightarrow> restPlus r)"

definition assignedRe :: "string \<Rightarrow> string option" where
  "assignedRe line = (case header assignedWord line of None \<Rightarrow> None | Some r \<Rightarrow> restStar r)"

definition checklistRe :: "string \<Rightarrow> bool" where
  "checklistRe line = (case header checklistWord line of None \<Rightarrow> False | Some r \<Rightarrow> restBlank r)"

definition notesRe :: "string \<Rightarrow> bool" where
  "notesRe line = (case header notesWord line of None \<Rightarrow> False | Some r \<Rightarrow> restBlank r)"

text \<open>\<open>^-\s*\[([ xX])\]\s*(.+)$\<close>: the bracket byte and the description group.\<close>

definition taskRe :: "string \<Rightarrow> (char \<times> string) option" where
  "taskRe line =
     (case line of
        [] \<Rightarrow> None
      | dash # r \<Rightarrow>
          if dash \<noteq> CHR ''-'' then None
          else (case dropWhile reSpace r of
                  ob # c # cb # r2 \<Rightarrow>
                    if ob = CHR ''['' \<and> cb = CHR '']''
                       \<and> (c = CHR '' '' \<or> c = CHR ''x'' \<or> c = CHR ''X'')
                    then map_option (Pair c) (restPlus r2)
                    else None
                | _ \<Rightarrow> None))"

section \<open>Progress documents (pkg/work)\<close>

record Task =
  Done :: bool
  Description :: string

record Progress =
  Status :: string
  AssignedTo :: string
  Tasks :: "Task list"
  Notes :: string

datatype work_error =
    OpenFailed
  | ReadFailed
  | MkdirFailed
  | WriteFailed
  | FormulaNotFound

text \<open>The state of the scanning loop of \<open>ParseProgress\<close>.\<close>

record parse_state =
  progress :: Progress
  inChecklist :: bool
  inNotes :: bool
  notesLines :: "string list"

definition parse_init :: parse_state where
  "parse_init =
     \<lparr>progress = \<lparr>Status = [], AssignedTo = [], Tasks = [], Notes = []\<rparr>,
      inChecklist = False, inNotes = False, notesLines = []\<rparr>"

definition parseTask :: "parse_state \<Rightarrow> string \<Rightarrow> parse_state" where
  "parseTask st line =
     (if inChecklist st then
        (case taskRe line of
           None \<Rightarrow> st
         | Some (c, d) \<Rightarrow>
             st\<lparr>progress := (progress st)\<lparr>Tasks := Tasks (progress st)
                @ [\<lparr>Done = (c = CHR ''x'' \<or> c = CHR ''X''), Description = strings_TrimSpace d\<rparr>]\<rparr>\<rparr>)
      else st)"

definition parseNote :: "parse_state \<Rightarrow> string \<Rightarrow> parse_state" where
  "parseNote st line =
     (if inNotes st \<and> strings_TrimSpace line \<noteq> [] then st\<lparr>notesLines := notesLines st @ [line]\<rparr>
      else st)"

definition parseLine :: "parse_state \<Rightarrow> string \<Rightarrow> parse_state" where
  "parseLine st line =
     (case statusRe line of
        Some m \<Rightarrow> st\<lparr>progress := (progress st)\<lparr>Status := strings_TrimSpace m\<rparr>\<rparr>
      | None \<Rightarrow>
     (case assignedRe line of
        Some m \<Rightarrow> st\<lparr>progress := (progress st)\<lparr>AssignedTo := strings_TrimSpace m\<rparr>\<rparr>
      | None \<Rightarrow>
     if checklistRe line then st\<lparr>inChecklist := True, inNotes := False\<rparr>
     else if notesRe line then st\<lparr>inNotes := True, inChecklist := False\<rparr>
     else parseNote (parseTask st line) line))"

text \<open>\<open>bufio.Scanner\<close> with \<open>ScanLines\<close>: the tokens are the stretches between newlines,
  an empty stretch after the last newline is no token, one trailing carriage return is
  dropped from each token, and a stretch of \<open>MaxScanTokenSize\<close> bytes or more stops the
  scan with \<open>ErrTooLong\<close>.\<close>

definition rawTokens :: "string \<Rightarrow> string list" where
  "rawTokens doc = (let ss = strings_Split doc NL in if last ss = [] then butlast ss else ss)"

definition dropCR :: "string \<Rightarrow> string" where
  "dropCR l = (if l \<noteq> [] \<and> last l = CR then butlast l else l)"

definition MaxScanTokenSize :: nat where
  "MaxScanTokenSize = 65536"

fun scanTokens :: "string list \<Rightarrow> string list \<times> bool" where
  "scanTokens [] = ([], True)"
| "scanTokens (t # ts) =
     (if MaxScanTokenSize \<le> length t then ([], False)
      else (case scanTokens ts of (ls, ok) \<Rightarrow> (dropCR t # ls, ok)))"

definition ParseDocument :: "string \<Rightarrow> work_error + Progress" where
  "ParseDocument doc =
     (case scanTokens (rawTokens doc) of
        (ls, ok) \<Rightarrow>
          (let st = foldl parseLine parse_init ls in
           if ok then Inr ((progress st)\<lparr>Notes := strings_Join (notesLines st) [NL]\<rparr>)
           else Inl ReadFailed))"

fun firstOpen :: "Task list \<Rightarrow> string" where
  "firstOpen [] = []"
| "firstOpen (t # ts) = (if \<not> Done t then Description t else firstOpen ts)"

definition GetCurrentTask :: "Progress \<Rightarrow> string" where
  "GetCurrentTask p = firstOpen (Tasks p)"

definition ParseProgress :: "fs \<Rightarrow> string \<Rightarrow> work_error + Progress" where
  "ParseProgress f path =
     (case os_Stat f path of
        Inl _ \<Rightarrow> Inl OpenFailed
      | Inr Directory \<Rightarrow> Inl ReadFailed
      | Inr (File doc) \<Rightarrow> ParseDocument doc)"

section \<open>Work items (pkg/work)\<close>

definition GetWorkPath :: "string \<Rightarrow> string \<Rightarrow> string" where
  "GetWorkPath repoPath workName = filepath_Join [repoPath, ''work'', workName]"

definition GetFormulaPath :: "string \<Rightarrow> string \<Rightarrow> string" where
  "GetFormulaPath repoPath formulaName =
     filepath_Join [repoPath, ''work'', ''formula'', formulaName @ ''.md'']"

text \<open>The bodies of the scaffolded documents (\<open>getSpecTemplate\<close>, \<open>getDesignTemplate\<close>,
  \<open>getBreakdownTemplate\<close>, \<open>getProgressTemplate\<close>, \<open>getDefaultFormulaContent\<close>) are static
  text; they are kept as a parameter, each a function of the work name.\<close>

record templates =
  specTemplate :: "string \<Rightarrow> string"
  designTemplate :: "string \<Rightarrow> string"
  breakdownTemplate :: "string \<Rightarrow> string"
  progressTemplate :: "string \<Rightarrow> string"
  defaultFormulaContent :: string

definition files :: "templates \<Rightarrow> string \<Rightarrow> (string \<times> string) list" where
  "files tm workName =
     [(''spec.md'', specTemplate tm workName),
      (''design.md'', designTemplate tm workName),
      (''breakdown.md'', breakdownTemplate tm workName),
      (''progress.md'', progressTemplate tm workName)]"

definition EnsureDefaultFormula :: "templates \<Rightarrow> fs \<Rightarrow> string \<Rightarrow> work_error option \<times> fs" where
  "EnsureDefaultFormula tm f repoPath =
     (let formulaPath = GetFormulaPath repoPath ''build'' in
      if exists f formulaPath then (None, f)
      else (case os_MkdirAll f (filepath_Dir formulaPath) of
              (Some _, f1) \<Rightarrow> (Some MkdirFailed, f1)
            | (None, f1) \<Rightarrow>
                (case os_WriteFile f1 formulaPath (defaultFormulaContent tm) of
                   (Some _, f2) \<Rightarrow> (Some WriteFailed, f2)
                 | (None, f2) \<Rightarrow> (None, f2))))"

text \<open>The loop of \<open>Create\<close> over the map of file names; the list is the map in the order
  the iteration happens to take.\<close>

fun writeMissing :: "fs \<Rightarrow> string \<Rightarrow> (string \<times> string) list \<Rightarrow> work_error option \<times> fs" where
  "writeMissing f workPath [] = (None, f)"
| "writeMissing f workPath ((filename, content) # rest) =
     (let filePath = filepath_Join [workPath, filename] in
      if exists f filePath then writeMissing f workPath rest
      else (case os_WriteFile f filePath content of
              (Some _, f1) \<Rightarrow> (Some WriteFailed, f1)
            | (None, f1) \<Rightarrow> writeMissing f1 workPath rest))"

text \<open>\<open>order\<close> is the order in which the Go runtime iterates the map of the four files.\<close>

definition Create ::
  "((string \<times> string) list \<Rightarrow> (string \<times> string) list) \<Rightarrow> templates \<Rightarrow> fs \<Rightarrow> string \<Rightarrow> string
     \<Rightarrow> work_error option \<times> fs" where
  "Create order tm f repoPath workName =
     (let workPath = GetWorkPath repoPath workName;
          formulaDir = filepath_Join [repoPath, ''work'', ''formula'']
      in case os_MkdirAll f workPath of
           (Some _, f1) \<Rightarrow> (Some MkdirFailed, f1)
         | (None, f1) \<Rightarrow>
        (case os_MkdirAll f1 formulaDir of
           (Some _, f2) \<Rightarrow> (Some MkdirFailed, f2)
         | (None, f2) \<Rightarrow>
        (case writeMissing f2 workPath (order (files tm workName)) of
           (Some e, f3) \<Rightarrow> (Some e, f3)
         | (None, f3) \<Rightarrow> EnsureDefaultFormula tm f3 repoPath)))"

text \<open>The text of the hook document: the format string of \<open>GenerateHook\<close> with its ten
  \<open>%s\<close> filled in.\<close>

definition hookContent :: "string \<Rightarrow> string \<Rightarrow> string" where
  "hookContent workName formulaName = concat (map (\<lambda>l. l @ [NL])
     [''# Hook: '' @ workName,
      [],
      ''## Your Assignment'',
      [],
      ''You are working on: **'' @ workName @ ''**'',
      [],
      ''## Instructions'',
      [],
      ''1. **Read the workflow formula**: Open and read work/formula/'' @ formulaName @ ''.md'',
      ''   - This defines the phases you'' @ [CHR 0x27] @ ''ll follow'',
      [],
      ''2. **Read the spec**: Open and read work/'' @ workName @ ''/spec.md'',
      ''   - This describes what you'' @ [CHR 0x27] @ ''re building'',
      [],
      ''3. **Follow the formula**: Execute each phase in order'',
      ''   - Update work/'' @ workName @ ''/progress.md as you complete tasks'',
      ''   - Commit your progress after each phase'',
      ''   - Each commit should follow the pattern described in the formula'',
      [],
      ''## Context Files'',
      [],
      ''- Formula: work/formula/'' @ formulaName @ ''.md'',
      ''- Spec: work/'' @ workName @ ''/spec.md'',
      ''- Design: work/'' @ workName @ ''/design.md'',
      ''- Breakdown: work/'' @ workName @ ''/breakdown.md'',
      ''- Progress: work/'' @ workName @ ''/progress.md'',
      [],
      ''## Important Notes'',
      [],
      ''- Commit intermediate progress at each phase (don'' @ [CHR 0x27] @ ''t wait until the end)'',
      ''- Keep progress.md updated with your current status'',
      ''- Follow the quality gates defined in the formula'',
      ''- Ask questions if requirements are unclear'',
      [],
      ''Ready? Start by reading the formula and spec files above.''])"

definition GenerateHook :: "fs \<Rightarrow> string \<Rightarrow> string \<Rightarrow> string \<Rightarrow> work_error option \<times> fs" where
  "GenerateHook f repoPath workName formulaName =
     (let workPath = GetWorkPath repoPath workName;
          hookPath = filepath_Join [workPath, ''hook.md''];
          formulaPath = GetFormulaPath repoPath formulaName
      in if IsNotExist f formulaPath then (Some FormulaNotFound, f)
         else (case os_WriteFile f hookPath (hookContent workName formulaName) of
                 (Some _, f1) \<Rightarrow> (Some WriteFailed, f1)
               | (None, f1) \<Rightarrow> (None, f1)))"

section \<open>Generated progress documents\<close>

text \<open>A progress document as the scaffold writes it (\<open>getProgressTemplate\<close>): title, status
  and assignee headers, the checklist header, one line per task, the notes header.  An item
  is the bracket byte and the description of a task line.\<close>

definition toTask :: "char \<times> string \<Rightarrow> Task" where
  "toTask t = \<lparr>Done = (fst t = CHR ''x'' \<or> fst t = CHR ''X''), Description = snd t\<rparr>"

definition taskLine :: "char \<times> string \<Rightarrow> string" where
  "taskLine t = ''- ['' @ [fst t] @ ''] '' @ snd t"

definition titleLine :: "string \<Rightarrow> string" where
  "titleLine title = ''# Progress: '' @ title"

definition statusLine :: "string \<Rightarrow> string" where
  "statusLine status = ''## Status: '' @ status"

definition assignedLine :: "string \<Rightarrow> string" where
  "assignedLine assignee = ''## Assigned to: '' @ assignee"

definition checklistLine :: string where
  "checklistLine = ''## Checklist''"

definition notesLine :: string where
  "notesLine = ''## Notes''"

definition genLines :: "string \<Rightarrow> string \<Rightarrow> string \<Rightarrow> (char \<times> string) list \<Rightarrow> string list" where
  "genLines title status assignee items =
     [titleLine title, [], statusLine status, assignedLine assignee, [],
      checklistLine] @ map taskLine items @ [[], notesLine]"

definition genProgress :: "string \<Rightarrow> string \<Rightarrow> string \<Rightarrow> (char \<times> string) list \<Rightarrow> string" where
  "genProgress title status assignee items =
     concat (map (\<lambda>l. l @ [NL]) (genLines title status assignee items))"

definition plainField :: "string \<Rightarrow> bool" where
  "plainField s = (NL \<notin> set s \<and> CR \<notin> set s \<and> length s < 65000)"

definition plainItem :: "char \<times> string \<Rightarrow> bool" where
  "plainItem t = ((fst t = CHR '' '' \<or> fst t = CHR ''x'' \<or> fst t = CHR ''X'')
      \<and> strings_TrimSpace (snd t) = snd t \<and> NL \<notin> set (snd t) \<and> length (snd t) < 65000)"


section \<open>Worker-name validation (pkg/crew, ValidateCrewName)\<close>

text \<open>
  The two regular expressions of \<open>ValidateCrewName\<close> only look for single ASCII bytes, so
  matching them is a test on the bytes of the name; \<open>len\<close> counts bytes.
\<close>

datatype crew_error =
    EmptyName
  | SpecialChars
  | LeadingDotDash
  | TooLong
  | CannotInfer
  | RepoNotFound
  | NoBaseBranch
  | AttachFailed
  | RecreateSessionFailed
  | CrewDirectoryFailed
  | Cancelled
  | WorktreeCreationFailed
  | SessionCreationFailed
  | WorkspaceNotFound

definition isSpecial :: "char \<Rightarrow> bool" where
  "isSpecial c = (c = CHR ''/'' \<or> c = CHR 0x5C \<or> c = CHR '':'' \<or> c = CHR ''@'')"

definition startsDotDash :: "string \<Rightarrow> bool" where
  "startsDotDash name = (case name of [] \<Rightarrow> False | c # _ \<Rightarrow> c = CHR ''.'' \<or> c = CHR ''-'')"

definition ValidateCrewName :: "string \<Rightarrow> crew_error option" where
  "ValidateCrewName name =
     (if name = [] then Some EmptyName
      else if list_ex isSpecial name then Some SpecialChars
      else if startsDotDash name then Some LeadingDotDash
      else if length name > 50 then Some TooLong
      else None)"

definition isAlnum :: "char \<Rightarrow> bool" where
  "isAlnum c = (let n = (of_char c :: nat) in
     (48 \<le> n \<and> n \<le> 57) \<or> (65 \<le> n \<and> n \<le> 90) \<or> (97 \<le> n \<and> n \<le> 122))"

definition isNameChar :: "char \<Rightarrow> bool" where
  "isNameChar c = (isAlnum c \<or> c = CHR ''-'' \<or> c = CHR ''_'')"


section \<open>Auxiliary notions\<close>

text \<open>The elements of a cleaned path are non-empty and hold no separator.\<close>

definition okElems :: "string list \<Rightarrow> bool" where
  "okElems es = (\<forall>e\<in>set es. e \<noteq> [] \<and> CHR ''/'' \<notin> set e)"

text \<open>Every entry that path resolution reaches before an operation is the same after it.\<close>

definition preserves :: "fs \<Rightarrow> fs \<Rightarrow> bool" where
  "preserves f g = (\<forall>p n. os_Stat f p = Inr n \<longrightarrow> os_Stat g p = Inr n)"

text \<open>A sample repository, before and after scaffolding the work item \<open>x\<close>, and with
  two formulas installed.\<close>

definition sampleTemplates :: templates where
  "sampleTemplates =
     \<lparr>specTemplate = (\<lambda>w. ''# Spec: '' @ w),
      designTemplate = (\<lambda>w. ''# Design: '' @ w),
      breakdownTemplate = (\<lambda>w. ''# Implementation Breakdown: '' @ w),
      progressTemplate = (\<lambda>w. ''# Progress: '' @ w),
      defaultFormulaContent = ''# Feature Implementation Formula''\<rparr>"

definition sampleRepo :: fs where
  "sampleRepo =
     [(''/r'', Directory), (''/r/work'', Directory), (''/r/work/formula'', Directory),
      (''/r/work/formula/hotfix.md'', File ''# Hotfix''), (''/r/work/x'', Directory),
      (''/r/work/x/spec.md'', File ''my spec'')]"

definition sampleCreated :: fs where
  "sampleCreated =
     sampleRepo @
     [(''/r/work/x/design.md'', File ''# Design: x''),
      (''/r/work/x/breakdown.md'', File ''# Implementation Breakdown: x''),
      (''/r/work/x/progress.md'', File ''# Progress: x''),
      (''/r/work/formula/build.md'', File ''# Feature Implementation Formula'')]"

definition sampleAssigned :: fs where
  "sampleAssigned =
     [(''/r'', Directory), (''/r/work'', Directory), (''/r/work/formula'', Directory),
      (''/r/work/formula/build.md'', File ''# Build''),
      (''/r/work/formula/hotfix.md'', File ''# Hotfix''), (''/r/work/x'', Directory)]"

text \<open>The same with the hook document generated for the formula \<open>build\<close>.\<close>

definition sampleHooked :: fs where
  "sampleHooked = sampleAssigned @ [(''/r/work/x/hook.md'', File (hookContent ''x'' ''build''))]"


section \<open>More of path/filepath\<close>

definition filepath_Abs :: "string \<Rightarrow> string \<Rightarrow> string" where
  "filepath_Abs wd p = (if rooted p then filepath_Clean p else filepath_Join [wd, p])"

fun dropCommon :: "string list \<Rightarrow> string list \<Rightarrow> string list \<times> string list" where
  "dropCommon (b # bs) (t # ts) = (if b = t then dropCommon bs ts else (b # bs, t # ts))"
| "dropCommon bs ts = (bs, ts)"

text \<open>\<open>filepath.Rel\<close>: the target relative to the base, both cleaned; an error when one is
  rooted and the other is not, or when the base would have to be left through \<open>..\<close>.\<close>

definition filepath_Rel :: "string \<Rightarrow> string \<Rightarrow> string option" where
  "filepath_Rel basepath targpath =
     (if filepath_Clean targpath = filepath_Clean basepath then Some ''.''
      else if rooted basepath \<noteq> rooted targpath then None
      else (case dropCommon (elems basepath) (elems targpath) of
              (bs, ts) \<Rightarrow>
                if bs \<noteq> [] \<and> hd bs = ''..'' then None
                else Some (strings_Join (replicate (length bs) ''..'' @ ts) ''/'')))"

section \<open>More of the file system\<close>

text \<open>The entries directly inside a directory, the removal of an empty directory, and the
  removal of a whole tree.\<close>

definition entries :: "fs \<Rightarrow> string \<Rightarrow> (string \<times> node) list" where
  "entries f d =
     filter (\<lambda>(k, n). filepath_Dir k = filepath_Clean d \<and> k \<noteq> filepath_Clean d) f"

definition os_ReadDir :: "fs \<Rightarrow> string \<Rightarrow> errno + (string \<times> node) list" where
  "os_ReadDir f d =
     (case os_Stat f d of
        Inl e \<Rightarrow> Inl e
      | Inr (File _) \<Rightarrow> Inl ENOTDIR
      | Inr Directory \<Rightarrow> Inr (entries f d))"

definition os_Remove :: "fs \<Rightarrow> string \<Rightarrow> errno option \<times> fs" where
  "os_Remove f p =
     (case os_Stat f p of
        Inl e \<Rightarrow> (Some e, f)
      | Inr _ \<Rightarrow> if entries f p \<noteq> [] then (Some ENOTEMPTY, f)
                else (None, AList.delete (filepath_Clean p) f))"

definition removeTree :: "fs \<Rightarrow> string \<Rightarrow> fs" where
  "removeTree f p =
     filter (\<lambda>(k, n). k \<noteq> filepath_Clean p
               \<and> \<not> strings_HasPrefix k (filepath_Clean p @ ''/'')) f"

section \<open>Configuration (pkg/config)\<close>

record Config =
  RigsBase :: string
  CrewBase :: string
  UseCC :: bool
  DefaultBranch :: string

definition GetRepoPath :: "Config \<Rightarrow> string \<Rightarrow> string" where
  "GetRepoPath c name = filepath_Join [RigsBase c, name]"

definition GetCrewPath :: "Config \<Rightarrow> string \<Rightarrow> string \<Rightarrow> string" where
  "GetCrewPath c rig name = filepath_Join [CrewBase c, rig, name]"

definition GetCrewSessionName :: "Config \<Rightarrow> string \<Rightarrow> string \<Rightarrow> string" where
  "GetCrewSessionName c rig name = rig @ ''@'' @ name"

definition GetCrewBranchName :: "Config \<Rightarrow> string \<Rightarrow> string" where
  "GetCrewBranchName c name = name @ ''/work''"

section \<open>The world outside the program\<close>

text \<open>
  What the commands of \<open>git\<close> and \<open>tmux\<close> do is not code of the repository; it is modelled
  as the state the two tools keep and the effect each command has on it, after the interface
  the specification assumes.  A repository has the branch checked out in its main working
  tree, its local branches, its linked worktrees (path and branch), the target of
  \<open>refs/remotes/origin/HEAD\<close> if there is one, and the abbreviated commit of each branch as
  \<open>git worktree list\<close> prints it.
\<close>

record git_repo =
  mainBranch :: string
  branches :: "string list"
  worktrees :: "(string \<times> string) list"
  originHead :: "string option"
  tip :: "string \<Rightarrow> string"

text \<open>A command that is made to fail, for the sake of the failure paths of the program.\<close>

datatype fault =
    FaultWorktreeAdd
  | FaultWorktreeAddPartial
  | FaultNewSession
  | FaultNewWindow
  | FaultSelectWindow
  | FaultSplitWindow
  | FaultAttach

text \<open>What the program says, asks and does, in order: the messages it prints, the
  questions it reads an answer to, and the commands it runs that change something.\<close>

datatype message =
    AlreadyRunning
  | ExistsNotRunning
  | SessionRecreated
  | CreatingWorkspace
  | BranchAlreadyExists
  | WorkspaceCreated
  | SessionFailedCleaningUp
  | SessionCreated
  | DetachedState
  | OnlySessionExists
  | SessionKilled
  | InsideSessionWarning
  | KillingSession
  | RemovingWorktree
  | BranchDeleted
  | RemovedEmptyDirectory
  | WorkspaceRemoved

datatype question = UseExistingBranch | DeleteBranchQuestion

datatype action =
    WorktreeAdd string string string
  | WorktreeAddExisting string string
  | WorktreeRemove string
  | WorktreePrune
  | BranchDelete string
  | NewSession string
  | KillSessionOf string
  | AttachTo string
  | MkdirAllOf string
  | RemoveOf string

datatype event = Said message | Asked question | Did action

text \<open>
  The world: the file system, the repositories by path, the live sessions of the terminal
  multiplexer, the session the program runs in (\<open>None\<close> when \<open>TMUX\<close> is not set), the session
  the terminal shows after an attach, the working directory (\<open>None\<close> when \<open>os.Getwd\<close>
  fails), the answer of \<open>git rev-parse --show-toplevel\<close> for a directory, the answers still to
  be read from standard input, what happened so far, and the commands that fail.
\<close>

record world =
  fs :: fs
  repos :: "string \<Rightarrow> git_repo option"
  sessions :: "string list"
  inside :: "string option"
  attached :: "string option"
  cwd :: "string option"
  toplevel :: "string \<Rightarrow> string option"
  stdin :: "string list"
  trace :: "event list"
  faults :: "fault list"

definition say :: "message \<Rightarrow> world \<Rightarrow> world" where
  "say n w = w\<lparr>trace := trace w @ [Said n]\<rparr>"

definition did :: "action \<Rightarrow> world \<Rightarrow> world" where
  "did a w = w\<lparr>trace := trace w @ [Did a]\<rparr>"

text \<open>\<open>fmt.Scanln(&response)\<close> after a question: the next answer, empty when there is none.\<close>

definition ask :: "question \<Rightarrow> world \<Rightarrow> string \<times> world" where
  "ask q w =
     (case stdin w of
        [] \<Rightarrow> ([], w\<lparr>trace := trace w @ [Asked q]\<rparr>)
      | a # rest \<Rightarrow> (a, w\<lparr>stdin := rest, trace := trace w @ [Asked q]\<rparr>))"

text \<open>\<open>strings.ToLower(response) == "n"\<close>: only the one-byte strings n and N lower to n.\<close>

definition saysNo :: "string \<Rightarrow> bool" where
  "saysNo response = (response = ''n'' \<or> response = ''N'')"

section \<open>Version control (pkg/git)\<close>

definition IsGitRepo :: "world \<Rightarrow> string \<Rightarrow> bool" where
  "IsGitRepo w path = exists (fs w) (filepath_Join [path, ''.git''])"

definition BranchExists :: "world \<Rightarrow> string \<Rightarrow> string \<Rightarrow> bool" where
  "BranchExists w repoPath branchName =
     (case repos w repoPath of None \<Rightarrow> False | Some r \<Rightarrow> branchName \<in> set (branches r))"

definition TrimPrefixOr :: "string \<Rightarrow> string \<Rightarrow> string" where
  "TrimPrefixOr s p = (case strings_TrimPrefix s p of None \<Rightarrow> s | Some r \<Rightarrow> r)"

definition GetBaseBranch :: "world \<Rightarrow> string \<Rightarrow> string \<Rightarrow> string option" where
  "GetBaseBranch w repoPath defaultBranch =
     (let fromOrigin =
            (case repos w repoPath of
               None \<Rightarrow> None
             | Some r \<Rightarrow>
                 (case originHead r of
                    None \<Rightarrow> None
                  | Some out \<Rightarrow>
                      (let branch = TrimPrefixOr (strings_TrimSpace out) ''refs/remotes/origin/''
                       in if branch \<noteq> [] \<and> BranchExists w repoPath branch then Some branch
                          else None)))
      in case fromOrigin of
           Some b \<Rightarrow> Some b
         | None \<Rightarrow>
             if BranchExists w repoPath defaultBranch then Some defaultBranch
             else (case filter (BranchExists w repoPath) [''main'', ''master'', ''develop''] of
                     [] \<Rightarrow> None
                   | b # _ \<Rightarrow> Some b))"

text \<open>The output of \<open>git worktree list\<close>: one line for the main working tree and one for each
  linked worktree, the path padded to the longest one, the abbreviated commit and the branch
  in brackets.\<close>

definition worktreeList :: "string \<Rightarrow> git_repo \<Rightarrow> string" where
  "worktreeList repoPath r =
     (let rows = (repoPath, mainBranch r) # worktrees r;
          width = foldr (\<lambda>(p, b) m. max (length p) m) rows 0
      in concat (map (\<lambda>(p, b). p @ replicate (width - length p) CHR '' '' @ '' '' @ tip r b
                                 @ '' ['' @ b @ '']'' @ [NL]) rows))"

definition WorktreeExists :: "world \<Rightarrow> string \<Rightarrow> string \<Rightarrow> bool" where
  "WorktreeExists w repoPath worktreePath =
     (case repos w repoPath of
        None \<Rightarrow> False
      | Some r \<Rightarrow> strings_Contains (worktreeList repoPath r) worktreePath)"

definition registered :: "git_repo \<Rightarrow> string \<Rightarrow> bool" where
  "registered r path = (filepath_Clean path \<in> fst ` set (worktrees r))"

definition checkedOut :: "git_repo \<Rightarrow> string \<Rightarrow> bool" where
  "checkedOut r branchName = (mainBranch r = branchName \<or> branchName \<in> snd ` set (worktrees r))"

text \<open>\<open>git worktree add <path> -b <branch> <base>\<close>: refused when the branch exists, the base
  does not, or the path is registered or exists; otherwise the branch, the registration
  and the directory are made.  With \<open>FaultWorktreeAddPartial\<close> the command fails after it
  has made them.\<close>

definition CreateWorktree :: "world \<Rightarrow> string \<Rightarrow> string \<Rightarrow> string \<Rightarrow> string \<Rightarrow> bool \<times> world" where
  "CreateWorktree w0 repoPath worktreePath branchName baseBranch =
     (let w = did (WorktreeAdd worktreePath branchName baseBranch) w0 in
      case repos w repoPath of
        None \<Rightarrow> (False, w)
      | Some r \<Rightarrow>
          if FaultWorktreeAdd \<in> set (faults w) \<or> branchName \<in> set (branches r)
             \<or> baseBranch \<notin> set (branches r) \<or> registered r worktreePath
             \<or> exists (fs w) worktreePath
          then (False, w)
          else (case os_MkdirAll (fs w) worktreePath of
                  (Some _, f1) \<Rightarrow> (False, w\<lparr>fs := f1\<rparr>)
                | (None, f1) \<Rightarrow>
                    (FaultWorktreeAddPartial \<notin> set (faults w),
                     w\<lparr>fs := f1,
                       repos := (repos w)(repoPath \<mapsto>
                         r\<lparr>branches := branches r @ [branchName],
                           worktrees := worktrees r
                             @ [(filepath_Clean worktreePath, branchName)]\<rparr>)\<rparr>)))"

text \<open>\<open>git worktree add <path> <branch>\<close>: refused when the branch does not exist or is
  checked out in some working tree, or the path is registered or exists.\<close>

definition CreateWorktreeFromExisting :: "world \<Rightarrow> string \<Rightarrow> string \<Rightarrow> string \<Rightarrow> bool \<times> world" where
  "CreateWorktreeFromExisting w0 repoPath worktreePath branchName =
     (let w = did (WorktreeAddExisting worktreePath branchName) w0 in
      case repos w repoPath of
        None \<Rightarrow> (False, w)
      | Some r \<Rightarrow>
          if FaultWorktreeAdd \<in> set (faults w) \<or> branchName \<notin> set (branches r)
             \<or> checkedOut r branchName \<or> registered r worktreePath
             \<or> exists (fs w) worktreePath
          then (False, w)
          else (case os_MkdirAll (fs w) worktreePath of
                  (Some _, f1) \<Rightarrow> (False, w\<lparr>fs := f1\<rparr>)
                | (None, f1) \<Rightarrow>
                    (FaultWorktreeAddPartial \<notin> set (faults w),
                     w\<lparr>fs := f1,
                       repos := (repos w)(repoPath \<mapsto>
                         r\<lparr>worktrees := worktrees r
                             @ [(filepath_Clean worktreePath, branchName)]\<rparr>)\<rparr>)))"

text \<open>\<open>git worktree remove <path> --force\<close>: for a registered worktree the directory, if it
  is there, goes with all it holds, and so does the registration; anything else is refused.\<close>

definition RemoveWorktree :: "world \<Rightarrow> string \<Rightarrow> string \<Rightarrow> bool \<times> world" where
  "RemoveWorktree w0 repoPath worktreePath =
     (let w = did (WorktreeRemove worktreePath) w0 in
      case repos w repoPath of
        None \<Rightarrow> (False, w)
      | Some r \<Rightarrow>
          if registered r worktreePath
          then (True,
                w\<lparr>fs := (if exists (fs w) worktreePath then removeTree (fs w) worktreePath
                         else fs w),
                  repos := (repos w)(repoPath \<mapsto>
                    r\<lparr>worktrees := filter (\<lambda>(p, b). p \<noteq> filepath_Clean worktreePath)
                                      (worktrees r)\<rparr>)\<rparr>)
          else (False, w))"

text \<open>\<open>git worktree prune\<close>: the registrations whose directory is gone are dropped.\<close>

definition PruneWorktrees :: "world \<Rightarrow> string \<Rightarrow> bool \<times> world" where
  "PruneWorktrees w0 repoPath =
     (let w = did WorktreePrune w0 in
      case repos w repoPath of
        None \<Rightarrow> (False, w)
      | Some r \<Rightarrow>
          (True,
           w\<lparr>repos := (repos w)(repoPath \<mapsto>
               r\<lparr>worktrees := filter (\<lambda>(p, b). exists (fs w) p) (worktrees r)\<rparr>)\<rparr>))"

text \<open>\<open>git branch -D <branch>\<close>: refused for a branch that does not exist or is checked out
  in some working tree.\<close>

definition DeleteBranch :: "world \<Rightarrow> string \<Rightarrow> string \<Rightarrow> bool \<times> world" where
  "DeleteBranch w0 repoPath branchName =
     (let w = did (BranchDelete branchName) w0 in
      case repos w repoPath of
        None \<Rightarrow> (False, w)
      | Some r \<Rightarrow>
          if branchName \<in> set (branches r) \<and> \<not> checkedOut r branchName
          then (True,
                w\<lparr>repos := (repos w)(repoPath \<mapsto>
                    r\<lparr>branches := removeAll branchName (branches r)\<rparr>)\<rparr>)
          else (False, w))"

definition GetRepoRoot :: "world \<Rightarrow> string \<Rightarrow> string option" where
  "GetRepoRoot w path = toplevel w path"

section \<open>Terminal sessions (pkg/tmux)\<close>

definition NormalizeSessionName :: "string \<Rightarrow> string" where
  "NormalizeSessionName name = map (\<lambda>c. if c = CHR ''.'' then CHR ''_'' else c) name"

text \<open>\<open>tmux has-session -t <name>\<close> is taken to succeed exactly when a session of that name
  is live.\<close>

definition SessionExists :: "world \<Rightarrow> string \<Rightarrow> bool" where
  "SessionExists w name = (NormalizeSessionName name \<in> set (sessions w))"

definition KillSession :: "world \<Rightarrow> string \<Rightarrow> bool \<times> world" where
  "KillSession w0 name =
     (let n = NormalizeSessionName name; w = did (KillSessionOf n) w0 in
      if n \<in> set (sessions w) then (True, w\<lparr>sessions := removeAll n (sessions w)\<rparr>)
      else (False, w))"

text \<open>\<open>switch-client\<close> inside a session, \<open>attach-session\<close> outside: either shows the named
  session when it is live.\<close>

definition AttachSession :: "world \<Rightarrow> string \<Rightarrow> bool \<Rightarrow> bool \<times> world" where
  "AttachSession w0 name useCC =
     (let n = NormalizeSessionName name; w = did (AttachTo n) w0 in
      if n \<in> set (sessions w) \<and> FaultAttach \<notin> set (faults w)
      then (True, w\<lparr>attached := Some n\<rparr>)
      else (False, w))"

text \<open>\<open>tmux new-session -d -s <name>\<close>: refused for a name that is taken.\<close>

definition newSession :: "world \<Rightarrow> string \<Rightarrow> bool \<times> world" where
  "newSession w0 n =
     (let w = did (NewSession n) w0 in
      if FaultNewSession \<in> set (faults w) \<or> n \<in> set (sessions w) then (False, w)
      else (True, w\<lparr>sessions := sessions w @ [n]\<rparr>))"

text \<open>The two layouts.  The windows, panes and keystrokes are not modelled; what is kept
  is which of their commands can make the creation fail once the session is there.\<close>

definition createCrewSessionNative :: "world \<Rightarrow> string \<Rightarrow> bool \<times> world" where
  "createCrewSessionNative w sessionName =
     (case newSession w sessionName of
        (False, w1) \<Rightarrow> (False, w1)
      | (True, w1) \<Rightarrow>
          if FaultNewWindow \<in> set (faults w1) then (False, w1)
          else (FaultSelectWindow \<notin> set (faults w1), w1))"

definition createCrewSessionCC :: "world \<Rightarrow> string \<Rightarrow> bool \<times> world" where
  "createCrewSessionCC w sessionName =
     (case newSession w sessionName of
        (False, w1) \<Rightarrow> (False, w1)
      | (True, w1) \<Rightarrow> (FaultSplitWindow \<notin> set (faults w1), w1))"

definition CreateCrewSession :: "world \<Rightarrow> string \<Rightarrow> bool \<Rightarrow> bool \<times> world" where
  "CreateCrewSession w sessionName useCC =
     (let n = NormalizeSessionName sessionName in
      if useCC then createCrewSessionCC w n else createCrewSessionNative w n)"

definition GetCurrentSession :: "world \<Rightarrow> string" where
  "GetCurrentSession w = (case inside w of None \<Rightarrow> [] | Some s \<Rightarrow> strings_TrimSpace s)"

text \<open>The commands whose failure makes the creation of a session fail, by layout.\<close>

definition sessionFaults :: "bool \<Rightarrow> fault list" where
  "sessionFaults useCC =
     (if useCC then [FaultNewSession, FaultSplitWindow]
      else [FaultNewSession, FaultNewWindow, FaultSelectWindow])"


section \<open>Workers (pkg/crew)\<close>

text \<open>\<open>InferRig\<close>, first from the working directory, then from the session.\<close>

definition inferFromRoot :: "Config \<Rightarrow> world \<Rightarrow> string \<Rightarrow> string option" where
  "inferFromRoot cfg w pwdAbs =
     (if strings_HasPrefix pwdAbs (RigsBase cfg @ ''/'') then
        (case GetRepoRoot w pwdAbs of None \<Rightarrow> None | Some root \<Rightarrow> Some (filepath_Base root))
      else None)"

definition inferFromCrew :: "Config \<Rightarrow> world \<Rightarrow> string \<Rightarrow> string option" where
  "inferFromCrew cfg w pwdAbs =
     (if strings_HasPrefix pwdAbs (CrewBase cfg @ ''/'') then
        (case GetRepoRoot w pwdAbs of
           None \<Rightarrow> None
         | Some root \<Rightarrow>
             (case filepath_Rel (CrewBase cfg) root of
                None \<Rightarrow> None
              | Some relPath \<Rightarrow>
                  (case strings_Split relPath CHR ''/'' of [] \<Rightarrow> None | p # _ \<Rightarrow> Some p)))
      else None)"

definition inferFromSession :: "Config \<Rightarrow> world \<Rightarrow> crew_error + string" where
  "inferFromSession cfg w =
     (let sessionName = GetCurrentSession w in
      if sessionName \<noteq> [] \<and> strings_Contains sessionName ''@''
      then (case strings_Split sessionName CHR ''@'' of [] \<Rightarrow> Inl CannotInfer | p # _ \<Rightarrow> Inr p)
      else if sessionName \<noteq> [] \<and> IsGitRepo w (GetRepoPath cfg sessionName)
      then Inr sessionName
      else Inl CannotInfer)"

definition InferRig :: "Config \<Rightarrow> world \<Rightarrow> string \<Rightarrow> crew_error + string" where
  "InferRig cfg w explicitRig =
     (if explicitRig \<noteq> [] then Inr explicitRig
      else (case cwd w of
              None \<Rightarrow> inferFromSession cfg w
            | Some pwd \<Rightarrow>
                (let pwdAbs = filepath_Abs pwd pwd in
                 case inferFromRoot cfg w pwdAbs of
                   Some r \<Rightarrow> Inr r
                 | None \<Rightarrow>
                     (case inferFromCrew cfg w pwdAbs of
                        Some r \<Rightarrow> Inr r
                      | None \<Rightarrow> inferFromSession cfg w))))"

definition cleanupWorktree :: "world \<Rightarrow> string \<Rightarrow> string \<Rightarrow> string \<Rightarrow> world" where
  "cleanupWorktree w repoPath crewPath branchName =
     (let w1 = snd (RemoveWorktree w repoPath crewPath);
          w2 = snd (PruneWorktrees w1 repoPath)
      in snd (DeleteBranch w2 repoPath branchName))"

text \<open>The end of \<open>Add\<close>, from the creation of the session on.\<close>

definition addSession ::
  "Config \<Rightarrow> world \<Rightarrow> string \<Rightarrow> string \<Rightarrow> string \<Rightarrow> string \<Rightarrow> crew_error option \<times> world" where
  "addSession cfg w repoPath crewPath sessionName branchName =
     (case CreateCrewSession w sessionName (UseCC cfg) of
        (False, w1) \<Rightarrow>
          (Some SessionCreationFailed,
           cleanupWorktree (say SessionFailedCleaningUp w1) repoPath crewPath branchName)
      | (True, w1) \<Rightarrow>
          (case AttachSession (say SessionCreated w1) sessionName (UseCC cfg) of
             (False, w2) \<Rightarrow> (Some AttachFailed, w2)
           | (True, w2) \<Rightarrow> (None, w2)))"

text \<open>The creation of the worktree in \<open>Add\<close>, from the check of the branch on.\<close>

definition addWorktree ::
  "Config \<Rightarrow> world \<Rightarrow> string \<Rightarrow> string \<Rightarrow> string \<Rightarrow> string \<Rightarrow> string
     \<Rightarrow> crew_error option \<times> world" where
  "addWorktree cfg w repoPath crewPath sessionName branchName baseBranch =
     (if BranchExists w repoPath branchName then
        (case ask UseExistingBranch (say BranchAlreadyExists w) of
           (response, w1) \<Rightarrow>
             if saysNo response then (Some Cancelled, w1)
             else (case CreateWorktreeFromExisting w1 repoPath crewPath branchName of
                     (False, w2) \<Rightarrow> (Some WorktreeCreationFailed, w2)
                   | (True, w2) \<Rightarrow>
                       addSession cfg (say WorkspaceCreated w2) repoPath crewPath sessionName
                         branchName))
      else
        (case CreateWorktree w repoPath crewPath branchName baseBranch of
           (False, w1) \<Rightarrow>
             (Some WorktreeCreationFailed, cleanupWorktree w1 repoPath crewPath branchName)
         | (True, w1) \<Rightarrow>
             addSession cfg (say WorkspaceCreated w1) repoPath crewPath sessionName branchName))"

text \<open>The branch of \<open>Add\<close> for a worktree directory that is already there.\<close>

definition addExisting ::
  "Config \<Rightarrow> world \<Rightarrow> string \<Rightarrow> crew_error option \<times> world" where
  "addExisting cfg w sessionName =
     (if SessionExists w sessionName then
        (case AttachSession (say AlreadyRunning w) sessionName (UseCC cfg) of
           (False, w1) \<Rightarrow> (Some AttachFailed, w1)
         | (True, w1) \<Rightarrow> (None, w1))
      else
        (case CreateCrewSession (say ExistsNotRunning w) sessionName (UseCC cfg) of
           (False, w1) \<Rightarrow> (Some RecreateSessionFailed, w1)
         | (True, w1) \<Rightarrow>
             (case AttachSession (say SessionRecreated w1) sessionName (UseCC cfg) of
                (False, w2) \<Rightarrow> (Some AttachFailed, w2)
              | (True, w2) \<Rightarrow> (None, w2))))"

definition Add :: "Config \<Rightarrow> world \<Rightarrow> string \<Rightarrow> string \<Rightarrow> crew_error option \<times> world" where
  "Add cfg w name rigName =
     (case ValidateCrewName name of
        Some e \<Rightarrow> (Some e, w)
      | None \<Rightarrow>
     (let repoPath = GetRepoPath cfg rigName in
      if \<not> IsGitRepo w repoPath then (Some RepoNotFound, w)
      else
     (let crewPath = GetCrewPath cfg rigName name;
          sessionName = GetCrewSessionName cfg rigName name;
          branchName = GetCrewBranchName cfg name
      in case GetBaseBranch w repoPath (DefaultBranch cfg) of
           None \<Rightarrow> (Some NoBaseBranch, w)
         | Some baseBranch \<Rightarrow>
             if exists (fs w) crewPath then addExisting cfg w sessionName
             else (case os_MkdirAll (fs w) (filepath_Dir crewPath) of
                     (Some _, f1) \<Rightarrow>
                       (Some CrewDirectoryFailed,
                        (did (MkdirAllOf (filepath_Dir crewPath)) w)\<lparr>fs := f1\<rparr>)
                   | (None, f1) \<Rightarrow>
                       addWorktree cfg
                         (say CreatingWorkspace
                            ((did (MkdirAllOf (filepath_Dir crewPath)) w)\<lparr>fs := f1\<rparr>))
                         repoPath crewPath sessionName branchName baseBranch))))"

text \<open>\<open>Remove\<close>, from the warning on: the part for a worktree that is there, on disk or in
  the backend.\<close>

definition removePresent ::
  "world \<Rightarrow> string \<Rightarrow> string \<Rightarrow> string \<Rightarrow> string \<Rightarrow> bool \<Rightarrow> crew_error option \<times> world" where
  "removePresent w repoPath crewPath sessionName branchName worktreeDirExists =
     (let w1 = (if SessionExists w sessionName \<and> GetCurrentSession w = sessionName
                then say InsideSessionWarning w else w);
          (deleteBranch, w2) =
             (if BranchExists w1 repoPath branchName then
                (case ask DeleteBranchQuestion w1 of
                   (response, wa) \<Rightarrow> (\<not> saysNo response, wa))
              else (False, w1));
          w3 = (if SessionExists w2 sessionName
                then snd (KillSession (say KillingSession w2) sessionName) else w2);
          w4 = (if worktreeDirExists
                then snd (RemoveWorktree (say RemovingWorktree w3) repoPath crewPath) else w3);
          w5 = snd (PruneWorktrees w4 repoPath);
          w6 = (if deleteBranch
                then say BranchDeleted (snd (DeleteBranch w5 repoPath branchName)) else w5);
          repoDir = filepath_Dir crewPath;
          w7 = (case os_ReadDir (fs w6) repoDir of
                  Inr [] \<Rightarrow>
                    say RemovedEmptyDirectory
                      ((did (RemoveOf repoDir) w6)\<lparr>fs := snd (os_Remove (fs w6) repoDir)\<rparr>)
                | _ \<Rightarrow> w6)
      in (None, say WorkspaceRemoved w7))"

definition Remove :: "Config \<Rightarrow> world \<Rightarrow> string \<Rightarrow> string \<Rightarrow> crew_error option \<times> world" where
  "Remove cfg w name rigName =
     (case ValidateCrewName name of
        Some e \<Rightarrow> (Some e, w)
      | None \<Rightarrow>
     (let repoPath = GetRepoPath cfg rigName in
      if \<not> IsGitRepo w repoPath then (Some RepoNotFound, w)
      else
     (let crewPath = GetCrewPath cfg rigName name;
          sessionName = GetCrewSessionName cfg rigName name;
          branchName = GetCrewBranchName cfg name;
          worktreeDirExists = exists (fs w) crewPath;
          worktreeInGit0 = WorktreeExists w repoPath crewPath;
          detached = (worktreeInGit0 \<and> \<not> worktreeDirExists);
          w1 = (if detached
                then snd (PruneWorktrees (snd (RemoveWorktree (say DetachedState w) repoPath crewPath))
                            repoPath)
                else w);
          worktreeInGit = (if detached then False else worktreeInGit0)
      in if \<not> worktreeDirExists \<and> \<not> worktreeInGit then
           (if SessionExists w1 sessionName
            then (None,
                  say SessionKilled (snd (KillSession (say OnlySessionExists w1) sessionName)))
            else (Some WorkspaceNotFound, w1))
         else removePresent w1 repoPath crewPath sessionName branchName worktreeDirExists)))"



section \<open>Sample worlds\<close>

definition sampleConfig :: Config where
  "sampleConfig =
     \<lparr>RigsBase = ''/home/u/git'', CrewBase = ''/home/u/crew'', UseCC = False,
      DefaultBranch = ''main''\<rparr>"

definition sampleDisk :: fs where
  "sampleDisk =
     [(''/home'', Directory), (''/home/u'', Directory), (''/home/u/git'', Directory),
      (''/home/u/git/notes'', Directory), (''/home/u/git/notes/.git'', Directory),
      (''/home/u/crew'', Directory)]"

text \<open>A repository \<open>notes\<close> without workers, with the branch \<open>main\<close> only.\<close>

definition sampleWorld :: world where
  "sampleWorld =
     \<lparr>fs = sampleDisk,
      repos = [''/home/u/git/notes'' \<mapsto>
                 \<lparr>mainBranch = ''main'', branches = [''main''], worktrees = [],
                  originHead = None, tip = (\<lambda>b. ''1a2b3c4'')\<rparr>],
      sessions = [], inside = None, attached = None, cwd = None, toplevel = (\<lambda>p. None),
      stdin = [], trace = [], faults = []\<rparr>"

text \<open>The same with a branch \<open>tracy/work\<close> left from earlier work and the answer \<open>y\<close>
  waiting on standard input.\<close>

definition sampleReuse :: world where
  "sampleReuse =
     sampleWorld
     \<lparr>repos := [''/home/u/git/notes'' \<mapsto>
                 \<lparr>mainBranch = ''main'', branches = [''main'', ''tracy/work''], worktrees = [],
                  originHead = None, tip = (\<lambda>b. ''1a2b3c4'')\<rparr>],
      stdin := [''y'']\<rparr>"

text \<open>A worker \<open>tracy.dev\<close> with its worktree and its live session, the program running
  inside that session.\<close>

definition sampleInside :: world where
  "sampleInside =
     sampleWorld
     \<lparr>fs := sampleDisk @ [(''/home/u/crew/notes'', Directory),
                           (''/home/u/crew/notes/tracy.dev'', Directory)],
      repos := [''/home/u/git/notes'' \<mapsto>
                 \<lparr>mainBranch = ''main'', branches = [''main'', ''tracy.dev/work''],
                  worktrees = [(''/home/u/crew/notes/tracy.dev'', ''tracy.dev/work'')],
                  originHead = None, tip = (\<lambda>b. ''1a2b3c4'')\<rparr>],
      sessions := [''notes@tracy_dev''],
      inside := Some ''notes@tracy_dev'',
      stdin := [''n'']\<rparr>"

text \<open>The same worker with its session gone, seen from outside any session.\<close>

definition sampleStopped :: world where
  "sampleStopped = sampleInside\<lparr>sessions := [], inside := None\<rparr>"

text \<open>The world with the branch left from earlier work, once with a terminal multiplexer
  that cannot start a session, once with a \<open>git worktree add\<close> that fails after it has
  made the directory and the registration.\<close>

definition sampleNoTmux :: world where
  "sampleNoTmux = sampleReuse\<lparr>faults := [FaultNewSession]\<rparr>"

definition samplePartial :: world where
  "samplePartial = sampleReuse\<lparr>faults := [FaultWorktreeAddPartial]\<rparr>"



text \<open>Worlds for the inference of the repository: the program run in a directory of the
  repository, in a directory of the worktree of \<open>tracy.dev\<close>, inside the session of the
  repository, and in the directory of the repository under the workers root, which is no
  working tree.\<close>

definition sampleInRepo :: world where
  "sampleInRepo =
     sampleWorld\<lparr>cwd := Some ''/home/u/git/notes/docs'',
                  toplevel := (\<lambda>p. if p = ''/home/u/git/notes/docs''
                                     then Some ''/home/u/git/notes'' else None)\<rparr>"

definition sampleInWorktree :: world where
  "sampleInWorktree =
     sampleStopped\<lparr>cwd := Some ''/home/u/crew/notes/tracy.dev/src'',
                    toplevel := (\<lambda>p. if p = ''/home/u/crew/notes/tracy.dev/src''
                                       then Some ''/home/u/crew/notes/tracy.dev'' else None)\<rparr>"

definition sampleBare :: world where
  "sampleBare = sampleWorld\<lparr>inside := Some ''notes''\<rparr>"

definition sampleLost :: world where
  "sampleLost = sampleWorld\<lparr>cwd := Some ''/home/u/crew/notes''\<rparr>"


section \<open>Properties of worker-name validation\<close>

lemma isNameChar_not_special: "isNameChar c \<Longrightarrow> \<not> isSpecial c"
  by (auto simp: isNameChar_def isAlnum_def isSpecial_def Let_def)

text \<open>
  C10.  Every non-empty name made of ASCII letters, digits, hyphens and underscores, of at
  most 50 bytes and not starting with a period or a hyphen, is accepted; every name that is
  empty, holds one of the bytes slash, backslash, colon, at-sign, starts with a period or a
  hyphen, or is longer than 50 bytes is rejected.  The function returns only an error or
  nothing: it has no way to hand back a changed name.
\<close>

theorem ValidateCrewName_accepts_rejects:
  "(name \<noteq> [] \<and> list_all isNameChar name \<and> length name \<le> 50 \<and> \<not> startsDotDash name
      \<longrightarrow> ValidateCrewName name = None)
   \<and> (name = [] \<or> list_ex isSpecial name \<or> startsDotDash name \<or> length name > 50
      \<longrightarrow> ValidateCrewName name \<noteq> None)"
proof -
  have "list_all isNameChar name \<Longrightarrow> \<not> list_ex isSpecial name"
    by (auto simp: list_all_iff list_ex_iff dest: isNameChar_not_special)
  then show ?thesis
    by (auto simp: ValidateCrewName_def)
qed

theorem ValidateCrewName_accepts_rejects_witness:
  "ValidateCrewName ''tracy_dev-1'' = None \<and> ValidateCrewName ''tracy@dev'' \<noteq> None"
  using ValidateCrewName_accepts_rejects [of "''tracy_dev-1''"]
    ValidateCrewName_accepts_rejects [of "''tracy@dev''"]
  by (simp add: isNameChar_def isAlnum_def isSpecial_def startsDotDash_def)


section \<open>Properties of trimming\<close>

lemma spaceAtStart_ascii: "asciiSpace c \<Longrightarrow> spaceAtStart (c # cs) = 1"
  by (cases cs rule: spaceAtStart.cases) auto

lemma spaceAtEnd_ascii: "asciiSpace c \<Longrightarrow> spaceAtEnd (c # cs) = 1"
  by (cases cs rule: spaceAtEnd.cases) auto

lemma reSpace_ascii: "reSpace c \<Longrightarrow> asciiSpace c"
  by (auto simp: reSpace_def asciiSpace_def)

lemma TrimLeft_ascii: "asciiSpace c \<Longrightarrow> TrimLeft (c # cs) = TrimLeft cs"
  by (simp add: spaceAtStart_ascii)

lemma TrimLeft_dropWhile: "TrimLeft (dropWhile reSpace r) = TrimLeft r"
  by (induction r) (auto simp: TrimLeft_ascii reSpace_ascii simp del: TrimLeft.simps)

lemma TrimSpace_ascii: "asciiSpace c \<Longrightarrow> strings_TrimSpace (c # cs) = strings_TrimSpace cs"
  by (simp add: strings_TrimSpace_def TrimLeft_ascii del: TrimLeft.simps)

lemma TrimSpace_dropWhile: "strings_TrimSpace (dropWhile reSpace r) = strings_TrimSpace r"
  by (simp add: strings_TrimSpace_def TrimLeft_dropWhile)

lemma TrimSpace_Nil: "strings_TrimSpace [] = []"
  by (simp add: strings_TrimSpace_def)

lemma TrimLeft_length: "length (TrimLeft s) \<le> length s"
proof (induction s rule: TrimLeft.induct)
  case 1
  show ?case by simp
next
  case (2 c cs)
  show ?case
  proof (cases "spaceAtStart (c # cs) = 0")
    case True
    then show ?thesis by simp
  next
    case False
    with 2 have "length (TrimLeft (drop (spaceAtStart (c # cs) - 1) cs))
        \<le> length (drop (spaceAtStart (c # cs) - 1) cs)"
      by simp
    with False show ?thesis by (simp add: Let_def)
  qed
qed

lemma TrimRightRev_length: "length (TrimRightRev s) \<le> length s"
proof (induction s rule: TrimRightRev.induct)
  case 1
  show ?case by simp
next
  case (2 c cs)
  show ?case
  proof (cases "spaceAtEnd (c # cs) = 0")
    case True
    then show ?thesis by simp
  next
    case False
    with 2 have "length (TrimRightRev (drop (spaceAtEnd (c # cs) - 1) cs))
        \<le> length (drop (spaceAtEnd (c # cs) - 1) cs)"
      by simp
    with False show ?thesis by (simp add: Let_def)
  qed
qed

lemma TrimRightRev_fixed:
  assumes "length (TrimRightRev (c # cs)) = length (c # cs)"
  shows "spaceAtEnd (c # cs) = 0"
proof (rule ccontr)
  assume n: "spaceAtEnd (c # cs) \<noteq> 0"
  then have "TrimRightRev (c # cs) = TrimRightRev (drop (spaceAtEnd (c # cs) - 1) cs)"
    by (simp add: Let_def)
  moreover have "length (TrimRightRev (drop (spaceAtEnd (c # cs) - 1) cs)) \<le> length cs"
    using TrimRightRev_length [of "drop (spaceAtEnd (c # cs) - 1) cs"] by simp
  ultimately show False using assms by simp
qed

lemma trimmed_last:
  assumes "strings_TrimSpace d = d" and "d \<noteq> []"
  shows "\<not> asciiSpace (last d)"
proof
  assume sp: "asciiSpace (last d)"
  have l1: "length (TrimRightRev (rev (TrimLeft d))) = length d"
    using assms(1) by (metis length_rev strings_TrimSpace_def)
  have l2: "length (TrimRightRev (rev (TrimLeft d))) \<le> length (TrimLeft d)"
    using TrimRightRev_length [of "rev (TrimLeft d)"] by simp
  have l3: "length (TrimLeft d) = length d"
    using l1 l2 TrimLeft_length [of d] by simp
  have e: "TrimRightRev (rev (TrimLeft d)) = rev d"
    using assms(1) by (metis rev_rev_ident strings_TrimSpace_def)
  obtain c cs where r: "rev (TrimLeft d) = c # cs"
    using l3 assms(2) by (cases "rev (TrimLeft d)") auto
  have "length (TrimRightRev (c # cs)) = length (c # cs)"
    using l1 l3 r by (metis length_rev)
  then have z: "spaceAtEnd (c # cs) = 0" by (rule TrimRightRev_fixed)
  then have "TrimRightRev (c # cs) = c # cs" by simp
  with e r have "rev d = c # cs" by simp
  then have "last d = c" by (metis last_rev list.sel(1) rev_rev_ident hd_rev)
  with sp z spaceAtEnd_ascii [of c cs] show False by simp
qed

section \<open>Properties of the task expression and of the scanning loop\<close>

lemma restPlus_trim: "restPlus r = Some d \<Longrightarrow> strings_TrimSpace d = strings_TrimSpace r"
proof -
  assume a: "restPlus r = Some d"
  show ?thesis
  proof (cases "dropWhile reSpace r = []")
    case False
    with a have "d = dropWhile reSpace r"
      by (auto simp: restPlus_def Let_def split: if_splits)
    then show ?thesis by (simp add: TrimSpace_dropWhile)
  next
    case True
    with a have d: "d = [last r]" and ne: "r \<noteq> []"
      by (auto simp: restPlus_def Let_def split: if_splits)
    from True have all: "\<forall>c\<in>set r. reSpace c" by simp
    then have "reSpace (last r)" using ne by simp
    then have "strings_TrimSpace d = []"
      using d by (simp add: TrimSpace_ascii reSpace_ascii TrimSpace_Nil)
    moreover have "strings_TrimSpace r = strings_TrimSpace (dropWhile reSpace r)"
      by (simp add: TrimSpace_dropWhile)
    ultimately show ?thesis using True by (simp add: TrimSpace_Nil)
  qed
qed

lemma restPlus_Some: "r \<noteq> [] \<Longrightarrow> NL \<notin> set r \<Longrightarrow> \<exists>d. restPlus r = Some d"
proof -
  assume ne: "r \<noteq> []" and nl: "NL \<notin> set r"
  have "last r \<noteq> NL" using ne nl last_in_set by metis
  moreover have "NL \<notin> set (dropWhile reSpace r)" using nl set_dropWhileD by metis
  ultimately show ?thesis using ne by (simp add: restPlus_def Let_def)
qed

lemma header_dash: "header w (CHR ''-'' # r) = None"
  by (simp add: header_def)

lemma headers_dash:
  "statusRe (CHR ''-'' # r) = None" "assignedRe (CHR ''-'' # r) = None"
  "\<not> checklistRe (CHR ''-'' # r)" "\<not> notesRe (CHR ''-'' # r)"
  by (simp_all add: statusRe_def assignedRe_def checklistRe_def notesRe_def header_dash)

lemma taskRe_form:
  assumes "\<forall>c\<in>set w. reSpace c" and "c = CHR '' '' \<or> c = CHR ''x'' \<or> c = CHR ''X''"
    and "r \<noteq> []" and "NL \<notin> set r"
  shows "\<exists>d. taskRe (CHR ''-'' # w @ CHR ''['' # c # CHR '']'' # r) = Some (c, d)
           \<and> strings_TrimSpace d = strings_TrimSpace r"
proof -
  have dw: "dropWhile reSpace (w @ CHR ''['' # c # CHR '']'' # r) = CHR ''['' # c # CHR '']'' # r"
    using assms(1) by (simp add: reSpace_def)
  obtain d where d: "restPlus r = Some d" using restPlus_Some assms(3,4) by blast
  have "taskRe (CHR ''-'' # w @ CHR ''['' # c # CHR '']'' # r) = Some (c, d)"
    using dw d assms(2) by (auto simp: taskRe_def)
  with restPlus_trim [OF d] show ?thesis by blast
qed

lemma taskRe_other:
  assumes "\<forall>c\<in>set w. reSpace c" and "c \<noteq> CHR '' ''" "c \<noteq> CHR ''x''" "c \<noteq> CHR ''X''"
  shows "taskRe (CHR ''-'' # w @ CHR ''['' # c # CHR '']'' # r) = None"
proof -
  have dw: "dropWhile reSpace (w @ CHR ''['' # c # CHR '']'' # r) = CHR ''['' # c # CHR '']'' # r"
    using assms(1) by (simp add: reSpace_def)
  show ?thesis using dw assms(2-) by (simp add: taskRe_def)
qed

lemma parseLine_dash:
  "parseLine st (CHR ''-'' # r) = parseNote (parseTask st (CHR ''-'' # r)) (CHR ''-'' # r)"
  by (simp add: parseLine_def headers_dash)

lemma parseNote_progress: "progress (parseNote st l) = progress st"
  by (simp add: parseNote_def)

lemma parseNote_flags: "inChecklist (parseNote st l) = inChecklist st" "inNotes (parseNote st l) = inNotes st"
  by (simp_all add: parseNote_def)

lemma parseLine_task:
  assumes "inChecklist st" and "\<forall>c\<in>set w. reSpace c"
    and "c = CHR '' '' \<or> c = CHR ''x'' \<or> c = CHR ''X''"
    and "r \<noteq> []" and "NL \<notin> set r"
  shows "Tasks (progress (parseLine st (CHR ''-'' # w @ CHR ''['' # c # CHR '']'' # r)))
       = Tasks (progress st) @ [\<lparr>Done = (c = CHR ''x'' \<or> c = CHR ''X''),
                                  Description = strings_TrimSpace r\<rparr>]"
proof -
  obtain d where "taskRe (CHR ''-'' # w @ CHR ''['' # c # CHR '']'' # r) = Some (c, d)"
    and "strings_TrimSpace d = strings_TrimSpace r"
    using taskRe_form [OF assms(2-)] by blast
  then show ?thesis
    using assms(1) by (simp add: parseLine_dash parseNote_progress parseTask_def)
qed

lemma parseLine_other:
  assumes "\<forall>c\<in>set w. reSpace c" and "c \<noteq> CHR '' ''" "c \<noteq> CHR ''x''" "c \<noteq> CHR ''X''"
  shows "progress (parseLine st (CHR ''-'' # w @ CHR ''['' # c # CHR '']'' # r)) = progress st"
  using taskRe_other [OF assms]
  by (simp add: parseLine_dash parseNote_progress parseTask_def)

lemma parseLine_tolerant:
  "Tasks (progress (parseLine st l)) = Tasks (progress st)
   \<or> (\<exists>t. Tasks (progress (parseLine st l)) = Tasks (progress st) @ [t])"
  by (auto simp: parseLine_def parseNote_progress parseTask_def split: option.splits)

lemma scanTokens_ok:
  "snd (scanTokens ts) = (\<forall>t\<in>set ts. length t < MaxScanTokenSize)"
  by (induction ts) (auto split: prod.splits)

lemma scanTokens_all:
  "\<forall>t\<in>set ts. length t < MaxScanTokenSize \<Longrightarrow> scanTokens ts = (map dropCR ts, True)"
  by (induction ts) (auto split: prod.splits)

lemma ParseDocument_ok:
  "(\<exists>p. ParseDocument doc = Inr p) = (\<forall>t\<in>set (rawTokens doc). length t < MaxScanTokenSize)"
  using scanTokens_ok [of "rawTokens doc"]
  by (auto simp: ParseDocument_def Let_def split: prod.splits)

section \<open>Properties of the scanner\<close>

lemma Split_ne: "strings_Split s sep \<noteq> []"
  by (induction s) (auto split: list.splits)

lemma Split_nosep: "sep \<notin> set y \<Longrightarrow> strings_Split y sep = [y]"
  by (induction y) auto

lemma Split_append: "sep \<notin> set l \<Longrightarrow> strings_Split (l @ sep # rest) sep = l # strings_Split rest sep"
  by (induction l) (auto split: list.splits)

lemma Split_lines:
  "\<forall>l\<in>set ls. NL \<notin> set l \<Longrightarrow> strings_Split (concat (map (\<lambda>l. l @ [NL]) ls)) NL = ls @ [[]]"
  by (induction ls) (auto simp: Split_append)

lemma rawTokens_lines:
  "\<forall>l\<in>set ls. NL \<notin> set l \<Longrightarrow> rawTokens (concat (map (\<lambda>l. l @ [NL]) ls)) = ls"
  by (simp add: rawTokens_def Split_lines)

lemma dropCR_id: "l = [] \<or> last l \<noteq> CR \<Longrightarrow> dropCR l = l"
  by (auto simp: dropCR_def)

lemma dropCR_noCR: "CR \<notin> set l \<Longrightarrow> dropCR l = l"
  by (rule dropCR_id) (metis last_in_set)

section \<open>Parsing a generated document\<close>

lemmas word_defs = ci_def ciS_def ciK_def lit_def statusWord_def assignedWord_def
  checklistWord_def notesWord_def

lemma line_title:
  "\<not> inChecklist st \<Longrightarrow> \<not> inNotes st \<Longrightarrow> parseLine st (titleLine title) = st"
  by (simp add: titleLine_def parseLine_def statusRe_def assignedRe_def checklistRe_def notesRe_def header_def
      parseTask_def parseNote_def)

lemma line_empty: "\<not> inNotes st \<Longrightarrow> parseLine st [] = st"
  by (simp add: parseLine_def statusRe_def assignedRe_def checklistRe_def notesRe_def header_def
      parseTask_def parseNote_def taskRe_def)

lemma header_status: "header statusWord (statusLine s) = Some (CHR '' '' # s)"
  by (simp add: statusLine_def header_def reSpace_def word_defs)

lemma header_status_assigned: "header statusWord (assignedLine s) = None"
  by (simp add: assignedLine_def header_def reSpace_def word_defs)

lemma header_assigned: "header assignedWord (assignedLine s) = Some (CHR '' '' # s)"
  by (simp add: assignedLine_def header_def reSpace_def word_defs)

lemma line_status:
  assumes "NL \<notin> set s"
  shows "\<exists>m. parseLine st (statusLine s) = st\<lparr>progress := (progress st)\<lparr>Status := m\<rparr>\<rparr>"
proof -
  obtain d where "restPlus (CHR '' '' # s) = Some d"
    using restPlus_Some [of "CHR '' '' # s"] assms by (auto simp: NL_def)
  then have "statusRe (statusLine s) = Some d"
    by (simp add: statusRe_def header_status)
  then show ?thesis by (auto simp: parseLine_def)
qed

lemma line_assigned:
  assumes "NL \<notin> set s"
  shows "\<exists>m. parseLine st (assignedLine s) = st\<lparr>progress := (progress st)\<lparr>AssignedTo := m\<rparr>\<rparr>"
proof -
  have "NL \<notin> set (dropWhile reSpace (CHR '' '' # s))"
    using assms set_dropWhileD [of NL reSpace "CHR '' '' # s"] by (auto simp: NL_def)
  then obtain d where "restStar (CHR '' '' # s) = Some d"
    by (simp add: restStar_def Let_def)
  then have "statusRe (assignedLine s) = None"
    and "assignedRe (assignedLine s) = Some d"
    by (simp_all add: statusRe_def assignedRe_def header_status_assigned header_assigned)
  then show ?thesis by (auto simp: parseLine_def)
qed

lemma line_checklist: "parseLine st checklistLine = st\<lparr>inChecklist := True, inNotes := False\<rparr>"
  by (simp add: checklistLine_def parseLine_def statusRe_def assignedRe_def checklistRe_def
      header_def reSpace_def restBlank_def word_defs)

lemma line_notes: "parseLine st notesLine = st\<lparr>inNotes := True, inChecklist := False\<rparr>"
  by (simp add: notesLine_def parseLine_def statusRe_def assignedRe_def checklistRe_def
      notesRe_def header_def reSpace_def restBlank_def word_defs)

lemma line_task:
  assumes "inChecklist st" "\<not> inNotes st" "plainItem t"
  shows "parseLine st (taskLine t)
       = st\<lparr>progress := (progress st)\<lparr>Tasks := Tasks (progress st) @ [toTask t]\<rparr>\<rparr>"
proof -
  let ?c = "fst t" and ?r = "CHR '' '' # snd t"
  have form: "taskLine t = CHR ''-'' # '' '' @ CHR ''['' # ?c # CHR '']'' # ?r"
    by (simp add: taskLine_def)
  have c: "?c = CHR '' '' \<or> ?c = CHR ''x'' \<or> ?c = CHR ''X''" and nl: "NL \<notin> set ?r"
    and tr: "strings_TrimSpace (snd t) = snd t"
    using assms(3) by (auto simp: plainItem_def NL_def)
  obtain d where d: "taskRe (taskLine t) = Some (?c, d)"
    and dt: "strings_TrimSpace d = strings_TrimSpace ?r"
    using taskRe_form [of "'' ''" ?c ?r] c nl unfolding form by (auto simp: reSpace_def)
  have "strings_TrimSpace ?r = snd t"
    using tr by (simp add: TrimSpace_ascii asciiSpace_def)
  with d dt show ?thesis
    using assms(1,2) unfolding form
    by (simp add: parseLine_dash parseTask_def parseNote_def toTask_def)
qed

lemma lines_tasks:
  "inChecklist st \<Longrightarrow> \<not> inNotes st \<Longrightarrow> \<forall>t\<in>set items. plainItem t \<Longrightarrow>
   foldl parseLine st (map taskLine items)
     = st\<lparr>progress := (progress st)\<lparr>Tasks := Tasks (progress st) @ map toTask items\<rparr>\<rparr>"
proof (induction items arbitrary: st)
  case Nil
  show ?case by simp
next
  case (Cons t items)
  let ?st = "st\<lparr>progress := (progress st)\<lparr>Tasks := Tasks (progress st) @ [toTask t]\<rparr>\<rparr>"
  have "parseLine st (taskLine t) = ?st"
    using Cons.prems by (simp add: line_task)
  moreover have "foldl parseLine ?st (map taskLine items)
      = ?st\<lparr>progress := (progress ?st)\<lparr>Tasks := Tasks (progress ?st) @ map toTask items\<rparr>\<rparr>"
    using Cons.prems by (intro Cons.IH) simp_all
  ultimately show ?case by simp
qed

lemma taskLine_plain:
  assumes "plainItem t"
  shows "NL \<notin> set (taskLine t)" "dropCR (taskLine t) = taskLine t"
    "length (taskLine t) < MaxScanTokenSize"
proof -
  show "NL \<notin> set (taskLine t)"
    using assms by (auto simp: plainItem_def taskLine_def NL_def)
  show "length (taskLine t) < MaxScanTokenSize"
    using assms by (simp add: plainItem_def taskLine_def MaxScanTokenSize_def)
  have "last (taskLine t) \<noteq> CR"
  proof (cases "snd t = []")
    case True
    then show ?thesis by (simp add: taskLine_def CR_def)
  next
    case False
    then have "last (taskLine t) = last (snd t)" by (simp add: taskLine_def)
    moreover have "\<not> asciiSpace (last (snd t))"
      using assms False by (intro trimmed_last) (simp_all add: plainItem_def)
    ultimately show ?thesis by (auto simp: asciiSpace_def CR_def)
  qed
  then show "dropCR (taskLine t) = taskLine t" by (simp add: dropCR_id)
qed

lemma fieldLines_plain:
  assumes "plainField s"
  shows "NL \<notin> set (titleLine s)" "NL \<notin> set (statusLine s)" "NL \<notin> set (assignedLine s)"
    "dropCR (titleLine s) = titleLine s" "dropCR (statusLine s) = statusLine s"
    "dropCR (assignedLine s) = assignedLine s"
    "length (titleLine s) < MaxScanTokenSize" "length (statusLine s) < MaxScanTokenSize"
    "length (assignedLine s) < MaxScanTokenSize"
  using assms
  by (auto simp: plainField_def titleLine_def statusLine_def assignedLine_def NL_def CR_def
      MaxScanTokenSize_def intro!: dropCR_noCR)

lemma fixedLines_plain:
  "NL \<notin> set checklistLine" "NL \<notin> set notesLine"
  "dropCR checklistLine = checklistLine" "dropCR notesLine = notesLine"
  "dropCR [] = []" "length checklistLine < MaxScanTokenSize" "length notesLine < MaxScanTokenSize"
  by (simp_all add: checklistLine_def notesLine_def NL_def CR_def dropCR_def MaxScanTokenSize_def)

lemma genLines_tokens:
  assumes "plainField title" "plainField status" "plainField assignee"
    and "\<forall>t\<in>set items. plainItem t"
  shows "scanTokens (rawTokens (genProgress title status assignee items))
       = (genLines title status assignee items, True)"
proof -
  let ?ls = "genLines title status assignee items"
  have nl: "\<forall>l\<in>set ?ls. NL \<notin> set l"
    using assms by (auto simp: genLines_def fieldLines_plain fixedLines_plain taskLine_plain)
  have len: "\<forall>l\<in>set ?ls. length l < MaxScanTokenSize"
    using assms by (auto simp: genLines_def fieldLines_plain fixedLines_plain taskLine_plain)
      (simp_all add: MaxScanTokenSize_def)
  have cr: "\<forall>l\<in>set ?ls. dropCR l = l"
    using assms by (auto simp: genLines_def fieldLines_plain fixedLines_plain taskLine_plain)
  have "rawTokens (genProgress title status assignee items) = ?ls"
    using nl by (simp add: genProgress_def rawTokens_lines)
  moreover have "map dropCR ?ls = ?ls" using cr by (simp add: map_idI)
  ultimately show ?thesis using len by (simp add: scanTokens_all)
qed

lemma genLines_parse:
  assumes "plainField title" "plainField status" "plainField assignee"
    and "\<forall>t\<in>set items. plainItem t"
  shows "Tasks (progress (foldl parseLine parse_init (genLines title status assignee items)))
       = map toTask items"
proof -
  let ?s0 = parse_init
  have f0: "\<not> inChecklist ?s0" "\<not> inNotes ?s0" "Tasks (progress ?s0) = []"
    by (simp_all add: parse_init_def)
  have s1: "parseLine ?s0 (titleLine title) = ?s0" using f0 by (simp add: line_title)
  have s2: "parseLine ?s0 [] = ?s0" using f0 by (simp add: line_empty)
  obtain m where s3: "parseLine ?s0 (statusLine status) = ?s0\<lparr>progress := (progress ?s0)\<lparr>Status := m\<rparr>\<rparr>"
    using line_status [of status ?s0] assms(2) by (auto simp: plainField_def)
  define t3 where "t3 = ?s0\<lparr>progress := (progress ?s0)\<lparr>Status := m\<rparr>\<rparr>"
  obtain a where s4: "parseLine t3 (assignedLine assignee) = t3\<lparr>progress := (progress t3)\<lparr>AssignedTo := a\<rparr>\<rparr>"
    using line_assigned [of assignee t3] assms(3) by (auto simp: plainField_def)
  define t4 where "t4 = t3\<lparr>progress := (progress t3)\<lparr>AssignedTo := a\<rparr>\<rparr>"
  have f4: "\<not> inNotes t4" "Tasks (progress t4) = []"
    using f0 by (simp_all add: t4_def t3_def)
  have s5: "parseLine t4 [] = t4" using f4 by (simp add: line_empty)
  define t6 where "t6 = t4\<lparr>inChecklist := True, inNotes := False\<rparr>"
  have s6: "parseLine t4 checklistLine = t6" unfolding t6_def by (rule line_checklist)
  define t7 where "t7 = t6\<lparr>progress := (progress t6)\<lparr>Tasks := Tasks (progress t6) @ map toTask items\<rparr>\<rparr>"
  have s7: "foldl parseLine t6 (map taskLine items) = t7"
    unfolding t7_def using assms(4) by (intro lines_tasks) (simp_all add: t6_def)
  have f7: "\<not> inNotes t7" "Tasks (progress t7) = map toTask items"
    using f4 by (simp_all add: t7_def t6_def)
  have s8: "parseLine t7 [] = t7" using f7 by (simp add: line_empty)
  have s9: "parseLine t7 notesLine = t7\<lparr>inNotes := True, inChecklist := False\<rparr>"
    by (rule line_notes)
  have "foldl parseLine ?s0 (genLines title status assignee items)
      = parseLine (parseLine (foldl parseLine (parseLine (parseLine (parseLine (parseLine
          (parseLine (parseLine ?s0 (titleLine title)) []) (statusLine status))
          (assignedLine assignee)) []) checklistLine) (map taskLine items)) []) notesLine"
    unfolding genLines_def by simp
  also have "\<dots> = t7\<lparr>inNotes := True, inChecklist := False\<rparr>"
    using s1 s2 s3 s4 s5 s6 s7 s8 s9 by (simp only: t3_def [symmetric] t4_def [symmetric])
  finally show ?thesis using f7 by simp
qed

lemma firstOpen_filter:
  "firstOpen ts = (case filter (\<lambda>t. \<not> Done t) ts of [] \<Rightarrow> [] | t # _ \<Rightarrow> Description t)"
  by (induction ts) auto

lemma firstOpen_items:
  "\<forall>t\<in>set items. plainItem t \<Longrightarrow>
   firstOpen (map toTask items)
     = (case filter (\<lambda>t. fst t = CHR '' '') items of [] \<Rightarrow> [] | t # _ \<Rightarrow> snd t)"
  by (induction items) (auto simp: toTask_def plainItem_def)

text \<open>
  C7.  Round trip.  For a progress document generated from a title, a status, an assignee and
  N items (mark and description, in any order and any mix of marks), \<open>ParseProgress\<close>
  returns exactly the N tasks in document order, done exactly where the mark is x or X, and
  \<open>GetCurrentTask\<close> is the description of the first item whose mark is blank, or the empty
  string when there is none.  Generated means: no field holds a line break, every
  description is already trimmed, and every line is short enough for the scanner.
\<close>

theorem ParseProgress_roundtrip:
  assumes "os_Stat f path = Inr (File (genProgress title status assignee items))"
    and "plainField title" "plainField status" "plainField assignee"
    and "\<forall>t\<in>set items. plainItem t"
  shows "\<exists>p. ParseProgress f path = Inr p
           \<and> Tasks p = map toTask items
           \<and> GetCurrentTask p
               = (case filter (\<lambda>t. fst t = CHR '' '') items of [] \<Rightarrow> [] | t # _ \<Rightarrow> snd t)"
proof -
  let ?doc = "genProgress title status assignee items"
  let ?st = "foldl parseLine parse_init (genLines title status assignee items)"
  have "ParseDocument ?doc = Inr ((progress ?st)\<lparr>Notes := strings_Join (notesLines ?st) [NL]\<rparr>)"
    using genLines_tokens [OF assms(2-)] by (simp add: ParseDocument_def Let_def)
  moreover have "Tasks (progress ?st) = map toTask items"
    using genLines_parse [OF assms(2-)] .
  ultimately show ?thesis
    using assms(1,5) by (simp add: ParseProgress_def GetCurrentTask_def firstOpen_items)
qed

section \<open>Evaluation on concrete documents\<close>

lemmas path_eval = os_Stat_def pathChain_def elems_def rooted_def render_def filepath_Clean_def
  filepath_Join_def filepath_Dir_def

lemmas parse_eval = ParseDocument_def rawTokens_def dropCR_def MaxScanTokenSize_def NL_def CR_def
  parse_init_def parseLine_def parseTask_def parseNote_def strings_TrimSpace_def
  asciiSpace_def space2_def space3_def statusRe_def assignedRe_def checklistRe_def notesRe_def
  taskRe_def header_def restPlus_def restStar_def restBlank_def reSpace_def word_defs

theorem ParseProgress_roundtrip_witness:
  "\<exists>p. ParseProgress
         [(''/r'', Directory), (''/r/progress.md'',
           File (genProgress ''X'' ''In Progress'' ''tracy''
                   [(CHR ''x'', ''A''), (CHR '' '', ''B''), (CHR ''X'', ''C'')]))]
         ''/r/progress.md'' = Inr p
       \<and> Tasks p = [\<lparr>Done = True, Description = ''A''\<rparr>, \<lparr>Done = False, Description = ''B''\<rparr>,
                    \<lparr>Done = True, Description = ''C''\<rparr>]
       \<and> GetCurrentTask p = ''B''"
proof -
  let ?items = "[(CHR ''x'', ''A''), (CHR '' '', ''B''), (CHR ''X'', ''C'')]"
  let ?f = "[(''/r'', Directory), (''/r/progress.md'', File (genProgress ''X'' ''In Progress'' ''tracy'' ?items))]"
  have h1: "os_Stat ?f ''/r/progress.md''
      = Inr (File (genProgress ''X'' ''In Progress'' ''tracy'' ?items))"
    by (simp add: path_eval)
  have h2: "plainField ''X''" "plainField ''In Progress''" "plainField ''tracy''"
    by (simp_all add: plainField_def NL_def CR_def)
  have h3: "\<forall>t\<in>set ?items. plainItem t"
    by (simp add: plainItem_def NL_def strings_TrimSpace_def asciiSpace_def space2_def space3_def)
  show ?thesis
    using ParseProgress_roundtrip [OF h1 h2 h3] by (simp add: toTask_def)
qed

text \<open>
  C6, as the code has it.  In the checklist section a line made of a dash, optional white
  space, a bracketed byte and a non-empty rest is recorded as a task when the bracket byte is
  a blank, x or X: done exactly for x and X, the description being the trimmed rest.  With any
  other bracket byte the line is skipped and the progress is unchanged.  Every line either
  leaves the task list as it is or adds one task at its end, so no line is fatal; and a
  readable document whose lines are all shorter than \<open>MaxScanTokenSize\<close> bytes is parsed
  to a result.
\<close>

theorem parseLine_checklist_tolerant:
  "(inChecklist st \<and> (\<forall>a\<in>set w. reSpace a)
      \<and> (c = CHR '' '' \<or> c = CHR ''x'' \<or> c = CHR ''X'') \<and> r \<noteq> [] \<and> NL \<notin> set r
      \<longrightarrow> Tasks (progress (parseLine st (CHR ''-'' # w @ CHR ''['' # c # CHR '']'' # r)))
            = Tasks (progress st)
              @ [\<lparr>Done = (c = CHR ''x'' \<or> c = CHR ''X''), Description = strings_TrimSpace r\<rparr>])
   \<and> ((\<forall>a\<in>set w. reSpace a) \<and> c \<noteq> CHR '' '' \<and> c \<noteq> CHR ''x'' \<and> c \<noteq> CHR ''X''
      \<longrightarrow> progress (parseLine st (CHR ''-'' # w @ CHR ''['' # c # CHR '']'' # r)) = progress st)
   \<and> (Tasks (progress (parseLine st l)) = Tasks (progress st)
      \<or> (\<exists>t. Tasks (progress (parseLine st l)) = Tasks (progress st) @ [t]))
   \<and> (os_Stat f path = Inr (File doc) \<and> (\<forall>t\<in>set (rawTokens doc). length t < MaxScanTokenSize)
      \<longrightarrow> (\<exists>p. ParseProgress f path = Inr p))"
proof (intro conjI impI)
  assume "inChecklist st \<and> (\<forall>a\<in>set w. reSpace a)
      \<and> (c = CHR '' '' \<or> c = CHR ''x'' \<or> c = CHR ''X'') \<and> r \<noteq> [] \<and> NL \<notin> set r"
  then show "Tasks (progress (parseLine st (CHR ''-'' # w @ CHR ''['' # c # CHR '']'' # r)))
            = Tasks (progress st)
              @ [\<lparr>Done = (c = CHR ''x'' \<or> c = CHR ''X''), Description = strings_TrimSpace r\<rparr>]"
    by (intro parseLine_task) simp_all
next
  assume "(\<forall>a\<in>set w. reSpace a) \<and> c \<noteq> CHR '' '' \<and> c \<noteq> CHR ''x'' \<and> c \<noteq> CHR ''X''"
  then show "progress (parseLine st (CHR ''-'' # w @ CHR ''['' # c # CHR '']'' # r)) = progress st"
    by (intro parseLine_other) simp_all
next
  show "Tasks (progress (parseLine st l)) = Tasks (progress st)
      \<or> (\<exists>t. Tasks (progress (parseLine st l)) = Tasks (progress st) @ [t])"
    by (rule parseLine_tolerant)
next
  assume "os_Stat f path = Inr (File doc) \<and> (\<forall>t\<in>set (rawTokens doc). length t < MaxScanTokenSize)"
  then show "\<exists>p. ParseProgress f path = Inr p"
    using ParseDocument_ok [of doc] by (simp add: ParseProgress_def)
qed

theorem parseLine_checklist_tolerant_witness:
  "Tasks (progress (parseLine (parse_init\<lparr>inChecklist := True\<rparr>) ''- [X] Ship it ''))
     = [\<lparr>Done = True, Description = ''Ship it''\<rparr>]
   \<and> progress (parseLine (parse_init\<lparr>inChecklist := True\<rparr>) ''- [y] Ship it'') = progress parse_init
   \<and> (\<exists>p. ParseProgress [(''/p.md'', File ''- [ ] a'')] ''/p.md'' = Inr p)"
  using parseLine_checklist_tolerant [of "parse_init\<lparr>inChecklist := True\<rparr>" "'' ''" "CHR ''X''"
      "'' Ship it ''" "[]" "[(''/p.md'', File ''- [ ] a'')]" "''/p.md''" "''- [ ] a''"]
    parseLine_checklist_tolerant [of "parse_init\<lparr>inChecklist := True\<rparr>" "'' ''" "CHR ''y''"
      "'' Ship it''" "[]" "[]" "[]" "[]"]
  by (simp add: path_eval parse_init_def reSpace_def NL_def rawTokens_def MaxScanTokenSize_def
      strings_TrimSpace_def asciiSpace_def space2_def space3_def)

lemma Split_replicate: "a \<noteq> sep \<Longrightarrow> strings_Split (replicate n a) sep = [replicate n a]"
  by (rule Split_nosep) simp

text \<open>
  The claim as the specification words it fails twice: a checklist line with the bracket
  byte y is not recorded as a task that is not done, and a readable document with a line of
  65536 bytes is not parsed at all.
\<close>

theorem ParseProgress_bracket_counterexample:
  "ParseProgress [(''/p.md'', File (''## Checklist'' @ [NL] @ ''- [y] foo'' @ [NL]))] ''/p.md''
     = Inr \<lparr>Status = [], AssignedTo = [], Tasks = [], Notes = []\<rparr>
   \<and> ParseProgress [(''/p.md'', File (replicate 65536 CHR ''a''))] ''/p.md'' = Inl ReadFailed"
proof
  show "ParseProgress [(''/p.md'', File (''## Checklist'' @ [NL] @ ''- [y] foo'' @ [NL]))] ''/p.md''
     = Inr \<lparr>Status = [], AssignedTo = [], Tasks = [], Notes = []\<rparr>"
    by (simp add: ParseProgress_def path_eval parse_eval)
next
  have "rawTokens (replicate 65536 CHR ''a'') = [replicate 65536 CHR ''a'']"
    by (simp add: rawTokens_def Split_replicate NL_def)
  then have "ParseDocument (replicate 65536 CHR ''a'') = Inl ReadFailed"
    by (simp add: ParseDocument_def MaxScanTokenSize_def)
  then show "ParseProgress [(''/p.md'', File (replicate 65536 CHR ''a''))] ''/p.md'' = Inl ReadFailed"
    by (simp add: ParseProgress_def path_eval)
qed

section \<open>Properties of paths\<close>

lemma Split_parts: "e \<in> set (strings_Split s sep) \<Longrightarrow> sep \<notin> set e"
proof (induction s arbitrary: e)
  case Nil
  then show ?case by simp
next
  case (Cons c s)
  show ?case
  proof (cases "c = sep")
    case True
    with Cons show ?thesis by auto
  next
    case False
    obtain l ls where sp: "strings_Split s sep = l # ls"
      using Split_ne [of s sep] by (cases "strings_Split s sep") auto
    with Cons.IH have "sep \<notin> set l" "\<forall>x\<in>set ls. sep \<notin> set x" by auto
    with Cons.prems False sp show ?thesis by auto
  qed
qed

lemma cleanElems_set: "set (cleanElems r acc es) \<subseteq> set acc \<union> set es"
proof (induction r acc es rule: cleanElems.induct)
  case (1 r acc)
  show ?case by simp
next
  case (2 r acc e es)
  show ?case
  proof (cases "e = [] \<or> e = ''.''")
    case True
    with 2 show ?thesis by auto
  next
    case False
    note ne = this
    show ?thesis
    proof (cases "e = ''..''")
      case False
      with 2 ne show ?thesis by auto
    next
      case True
      note dd = this
      show ?thesis
      proof (cases acc)
        case Nil
        with 2 ne dd show ?thesis by (cases r) auto
      next
        case (Cons a as)
        with 2 ne dd show ?thesis by (cases "a = ''..''") auto
      qed
    qed
  qed
qed

lemma cleanElems_nonempty: "[] \<notin> set acc \<Longrightarrow> [] \<notin> set (cleanElems r acc es)"
proof (induction r acc es rule: cleanElems.induct)
  case (1 r acc)
  then show ?case by simp
next
  case (2 r acc e es)
  show ?case
  proof (cases "e = [] \<or> e = ''.''")
    case True
    with 2 show ?thesis by auto
  next
    case False
    note ne = this
    show ?thesis
    proof (cases "e = ''..''")
      case False
      with 2 ne show ?thesis by auto
    next
      case True
      note dd = this
      show ?thesis
      proof (cases acc)
        case Nil
        with 2 ne dd show ?thesis by (cases r) auto
      next
        case (Cons a as)
        with 2 ne dd show ?thesis by (cases "a = ''..''") auto
      qed
    qed
  qed
qed

lemma elems_ok: "e \<in> set (elems p) \<Longrightarrow> e \<noteq> [] \<and> CHR ''/'' \<notin> set e"
proof
  assume a: "e \<in> set (elems p)"
  show "e \<noteq> []"
    using a cleanElems_nonempty [of "[]" "rooted p" "strings_Split p CHR ''/''"]
    by (auto simp: elems_def)
  have "e \<in> set (strings_Split p CHR ''/'')"
    using a cleanElems_set [of "rooted p" "[]" "strings_Split p CHR ''/''"]
    by (auto simp: elems_def)
  then show "CHR ''/'' \<notin> set e" by (rule Split_parts)
qed

lemma okElems_elems: "okElems (elems p)"
  using elems_ok by (auto simp: okElems_def)

lemma okElems_take: "okElems es \<Longrightarrow> okElems (take k es)"
  by (auto simp: okElems_def dest: in_set_takeD)

lemma Join_Cons: "es \<noteq> [] \<Longrightarrow> strings_Join (e # es) sep = e @ sep @ strings_Join es sep"
  by (cases es) auto

lemma Split_Join:
  "es \<noteq> [] \<Longrightarrow> \<forall>e\<in>set es. sep \<notin> set e \<Longrightarrow> strings_Split (strings_Join es [sep]) sep = es"
proof (induction es)
  case Nil
  then show ?case by simp
next
  case (Cons e es)
  show ?case
  proof (cases "es = []")
    case True
    with Cons.prems show ?thesis by (simp add: Split_nosep)
  next
    case False
    with Cons have "strings_Split (strings_Join es [sep]) sep = es" by simp
    moreover have "sep \<notin> set e" using Cons.prems by simp
    ultimately show ?thesis using False by (simp add: Join_Cons Split_append)
  qed
qed

lemma Join_inj:
  assumes "okElems es" "okElems es'" "es \<noteq> []" "es' \<noteq> []"
    and "strings_Join es ''/'' = strings_Join es' ''/''"
  shows "es = es'"
proof -
  have n: "\<forall>e\<in>set es. CHR ''/'' \<notin> set e" "\<forall>e\<in>set es'. CHR ''/'' \<notin> set e"
    using assms(1,2) by (simp_all add: okElems_def)
  have "es = strings_Split (strings_Join es ''/'') CHR ''/''"
    by (rule Split_Join [OF assms(3) n(1), symmetric])
  also have "\<dots> = strings_Split (strings_Join es' ''/'') CHR ''/''"
    by (simp only: assms(5))
  also have "\<dots> = es'"
    by (rule Split_Join [OF assms(4) n(2)])
  finally show ?thesis .
qed

lemma Join_hd: "okElems es \<Longrightarrow> es \<noteq> [] \<Longrightarrow> \<exists>c cs. strings_Join es ''/'' = c # cs \<and> c \<noteq> CHR ''/''"
proof -
  assume ok: "okElems es" and ne: "es \<noteq> []"
  then obtain e rest where es: "es = e # rest" by (cases es) auto
  with ok obtain c cs where e: "e = c # cs" and c: "c \<noteq> CHR ''/''"
    by (cases e) (auto simp: okElems_def)
  show ?thesis
  proof (cases "rest = []")
    case True
    with es e c show ?thesis by simp
  next
    case False
    with es e c show ?thesis by (simp add: Join_Cons)
  qed
qed

lemma render_inj:
  assumes "okElems es" "okElems es'" "es \<noteq> []" "es' \<noteq> []"
    and "render r es = render r' es'"
  shows "r = r' \<and> es = es'"
proof -
  obtain c cs where j: "strings_Join es ''/'' = c # cs" "c \<noteq> CHR ''/''"
    using Join_hd [OF assms(1,3)] by blast
  obtain c' cs' where j': "strings_Join es' ''/'' = c' # cs'" "c' \<noteq> CHR ''/''"
    using Join_hd [OF assms(2,4)] by blast
  have rr: "r = r'"
    using assms(3-5) j j' by (cases r; cases r') (auto simp: render_def)
  then have "strings_Join es ''/'' = strings_Join es' ''/''"
    using assms(3-5) by (cases r) (auto simp: render_def)
  with Join_inj [OF assms(1-4)] rr show ?thesis by simp
qed

lemma pathChain_Nil: "(pathChain p = []) = (elems p = [])"
  by (cases "elems p") (simp_all add: pathChain_def)

lemma pathChain_last: "elems p \<noteq> [] \<Longrightarrow> last (pathChain p) = render (rooted p) (elems p)"
proof -
  assume ne: "elems p \<noteq> []"
  then have "[1..<Suc (length (elems p))] \<noteq> []" by (cases "elems p") simp_all
  moreover have "last [1..<Suc (length (elems p))] = length (elems p)"
    using ne by (cases "elems p") simp_all
  ultimately show ?thesis by (simp add: pathChain_def last_map)
qed

lemma pathChain_same:
  assumes "pathChain p \<noteq> []" "pathChain q \<noteq> []" "last (pathChain p) = last (pathChain q)"
  shows "pathChain p = pathChain q"
proof -
  have ne: "elems p \<noteq> []" "elems q \<noteq> []" using assms(1,2) by (simp_all add: pathChain_Nil)
  then have "render (rooted p) (elems p) = render (rooted q) (elems q)"
    using assms(3) by (simp add: pathChain_last)
  then have "rooted p = rooted q \<and> elems p = elems q"
    using ne by (intro render_inj okElems_elems)
  then show ?thesis by (simp add: pathChain_def)
qed

lemma pathChain_distinct: "distinct (pathChain p)"
proof -
  have "inj_on (\<lambda>k. render (rooted p) (take k (elems p))) (set [1..<Suc (length (elems p))])"
  proof (rule inj_onI)
    fix j k
    assume j: "j \<in> set [1..<Suc (length (elems p))]" and k: "k \<in> set [1..<Suc (length (elems p))]"
      and eq: "render (rooted p) (take j (elems p)) = render (rooted p) (take k (elems p))"
    have "take j (elems p) \<noteq> []" "take k (elems p) \<noteq> []" using j k by auto
    then have "take j (elems p) = take k (elems p)"
      using render_inj [OF okElems_take [OF okElems_elems] okElems_take [OF okElems_elems] _ _ eq]
      by blast
    then have "length (take j (elems p)) = length (take k (elems p))" by simp
    then show "j = k" using j k by (auto simp: min_def split: if_splits)
  qed
  then show ?thesis by (simp add: pathChain_def distinct_map)
qed


section \<open>Properties of the file system\<close>

lemma walk_mono: "map_of f \<subseteq>\<^sub>m map_of g \<Longrightarrow> walk f ps = Inr n \<Longrightarrow> walk g ps = Inr n"
proof (induction f ps rule: walk.induct)
  case (1 f)
  then show ?case by simp
next
  case (2 f p)
  then obtain m where "map_of f p = Some m" by (auto split: option.splits)
  moreover from this 2 have "map_of g p = Some m" by (auto simp: map_le_def dom_def)
  ultimately show ?case using 2 by simp
next
  case (3 f p q ps)
  then have d: "map_of f p = Some Directory"
    by (auto split: option.splits node.splits)
  then have "map_of g p = Some Directory" using 3(2) by (auto simp: map_le_def dom_def)
  with d 3 show ?case by simp
qed

lemma walk_snoc:
  "walk f (ps @ [p]) =
     (case walk f ps of
        Inl e \<Rightarrow> Inl e
      | Inr (File _) \<Rightarrow> Inl ENOTDIR
      | Inr Directory \<Rightarrow> (case map_of f p of None \<Rightarrow> Inl ENOENT | Some n \<Rightarrow> Inr n))"
  by (induction f ps rule: walk.induct) (auto split: option.splits node.splits)

lemma walk_update_other: "k \<notin> set ps \<Longrightarrow> walk (AList.update k v f) ps = walk f ps"
  by (induction f ps rule: walk.induct) (auto simp: update_conv' split: option.splits node.splits)

lemma walk_inner_dir:
  "walk f ps = Inr n \<Longrightarrow> k \<in> set (butlast ps) \<Longrightarrow> map_of f k = Some Directory"
proof (induction f ps rule: walk.induct)
  case (1 f)
  then show ?case by simp
next
  case (2 f p)
  then show ?case by simp
next
  case (3 f p q ps)
  then have d: "map_of f p = Some Directory" and w: "walk f (q # ps) = Inr n"
    by (auto split: option.splits node.splits)
  show ?case
  proof (cases "k = p")
    case True
    with d show ?thesis by simp
  next
    case False
    with 3(3) have "k \<in> set (butlast (q # ps))" by simp
    with 3(1) d w show ?thesis by simp
  qed
qed

lemma update_absent_le: "map_of f k = None \<Longrightarrow> map_of f \<subseteq>\<^sub>m map_of (AList.update k v f)"
  by (auto simp: map_le_def update_conv')

lemma mkdirs_le: "map_of f \<subseteq>\<^sub>m map_of (snd (mkdirs f ps))"
proof (induction ps arbitrary: f)
  case Nil
  show ?case by simp
next
  case (Cons p ps)
  show ?case
  proof (cases "map_of f p")
    case None
    have "map_of f \<subseteq>\<^sub>m map_of (AList.update p Directory f)"
      using None by (rule update_absent_le)
    also have "\<dots> \<subseteq>\<^sub>m map_of (snd (mkdirs (AList.update p Directory f) ps))"
      by (rule Cons.IH)
    finally show ?thesis using None by simp
  next
    case (Some n)
    then show ?thesis using Cons.IH [of f] by (cases n) simp_all
  qed
qed

lemma mkdirs_walk: "mkdirs f ps = (None, g) \<Longrightarrow> walk g ps = Inr Directory"
proof (induction ps arbitrary: f)
  case Nil
  show ?case by simp
next
  case (Cons p ps)
  define f1 where "f1 = (case map_of f p of None \<Rightarrow> AList.update p Directory f | Some _ \<Rightarrow> f)"
  have d1: "map_of f1 p = Some Directory" and m: "mkdirs f1 ps = (None, g)"
    using Cons.prems
    by (auto simp: f1_def update_conv' split: option.splits node.splits if_splits)
  have "map_of f1 \<subseteq>\<^sub>m map_of g" using mkdirs_le [of f1 ps] m by simp
  with d1 have dg: "map_of g p = Some Directory" by (auto simp: map_le_def dom_def)
  have w: "walk g ps = Inr Directory" using Cons.IH [OF m] .
  show ?case
  proof (cases ps)
    case Nil
    with dg show ?thesis by simp
  next
    case (Cons q qs)
    with dg w show ?thesis by simp
  qed
qed

lemma preserves_refl: "preserves f f"
  by (simp add: preserves_def)

lemma preserves_trans: "preserves f g \<Longrightarrow> preserves g h \<Longrightarrow> preserves f h"
  by (simp add: preserves_def)

lemma le_preserves: "map_of f \<subseteq>\<^sub>m map_of g \<Longrightarrow> preserves f g"
  by (auto simp: preserves_def os_Stat_def dest: walk_mono)

lemma MkdirAll_preserves: "preserves f (snd (os_MkdirAll f p))"
  by (simp add: os_MkdirAll_def le_preserves mkdirs_le)

lemma MkdirAll_le: "map_of f \<subseteq>\<^sub>m map_of (snd (os_MkdirAll f p))"
  by (simp add: os_MkdirAll_def mkdirs_le)

lemma MkdirAll_dir: "os_MkdirAll f p = (None, g) \<Longrightarrow> os_Stat g p = Inr Directory"
  by (simp add: os_MkdirAll_def os_Stat_def mkdirs_walk)

lemma butlast_snoc_chain: "ch \<noteq> [] \<Longrightarrow> butlast ch @ [last ch] = ch"
  by simp

lemma WriteFile_written:
  assumes "os_WriteFile f p c = (None, g)"
  shows "os_Stat g p = Inr (File c)"
proof -
  let ?ch = "pathChain p"
  have ne: "?ch \<noteq> []" and w: "walk f (butlast ?ch) = Inr Directory"
    and g: "g = AList.update (last ?ch) (File c) f"
    using assms
    by (auto simp: os_WriteFile_def Let_def split: if_splits sum.splits node.splits option.splits)
  have "last ?ch \<notin> set (butlast ?ch)"
    using pathChain_distinct [of p] ne
    by (metis butlast_snoc_chain distinct_append disjoint_iff list.set_intros(1))
  then have "walk g (butlast ?ch) = Inr Directory"
    using w g by (simp add: walk_update_other)
  then have "walk g (butlast ?ch @ [last ?ch]) = Inr (File c)"
    using g by (simp add: walk_snoc update_conv')
  then show ?thesis using ne by (simp add: os_Stat_def)
qed

text \<open>Writing a file after other entries were added: what was reachable at first stays as
  it was, provided the path of the file was not reachable then.\<close>

lemma WriteFile_preserves_from:
  assumes le: "map_of f \<subseteq>\<^sub>m map_of g" and absent: "\<not> exists f p"
  shows "preserves f (snd (os_WriteFile g p c))"
proof (cases "fst (os_WriteFile g p c)")
  case (Some e)
  then have "snd (os_WriteFile g p c) = g"
    by (auto simp: os_WriteFile_def Let_def split: if_splits sum.splits node.splits option.splits)
  then show ?thesis using le by (simp add: le_preserves)
next
  case None
  let ?ch = "pathChain p" and ?k = "last (pathChain p)"
  have ne: "?ch \<noteq> []" and nd: "map_of g ?k \<noteq> Some Directory"
    and h: "snd (os_WriteFile g p c) = AList.update ?k (File c) g"
    using None
    by (auto simp: os_WriteFile_def Let_def split: if_splits sum.splits node.splits option.splits)
  show ?thesis
    unfolding preserves_def h
  proof (intro allI impI)
    fix q n
    assume v: "os_Stat f q = Inr n"
    then have wf: "walk f (pathChain q) = Inr n" by (simp add: os_Stat_def)
    then have wg: "walk g (pathChain q) = Inr n" using le by (rule walk_mono [rotated])
    have "?k \<notin> set (pathChain q)"
    proof
      assume mem: "?k \<in> set (pathChain q)"
      then have qne: "pathChain q \<noteq> []" by auto
      have "?k \<notin> set (butlast (pathChain q))"
        using walk_inner_dir [OF wg] nd by blast
      then have "?k = last (pathChain q)"
        using mem qne by (metis butlast_snoc_chain Un_iff set_append empty_iff empty_set set_ConsD)
      then have "pathChain p = pathChain q"
        using ne qne by (intro pathChain_same) simp_all
      then have "exists f p" using wf by (simp add: exists_def os_Stat_def)
      with absent show False by simp
    qed
    then show "os_Stat (AList.update ?k (File c) g) q = Inr n"
      using wg by (simp add: os_Stat_def walk_update_other)
  qed
qed

lemma WriteFile_preserves: "\<not> exists f p \<Longrightarrow> preserves f (snd (os_WriteFile f p c))"
  by (rule WriteFile_preserves_from) (simp_all add: map_le_def)

section \<open>Properties of work-item scaffolding\<close>

lemma EnsureDefaultFormula_preserves: "preserves f (snd (EnsureDefaultFormula tm f repoPath))"
proof (cases "exists f (GetFormulaPath repoPath ''build'')")
  case True
  then show ?thesis by (simp add: EnsureDefaultFormula_def preserves_refl)
next
  case False
  let ?fp = "GetFormulaPath repoPath ''build''"
  obtain e f1 where m: "os_MkdirAll f (filepath_Dir ?fp) = (e, f1)" by fastforce
  have le: "map_of f \<subseteq>\<^sub>m map_of f1" using MkdirAll_le [of f "filepath_Dir ?fp"] m by simp
  show ?thesis
  proof (cases e)
    case (Some x)
    with m False le show ?thesis by (simp add: EnsureDefaultFormula_def le_preserves)
  next
    case None
    have "preserves f (snd (os_WriteFile f1 ?fp (defaultFormulaContent tm)))"
      using le False by (rule WriteFile_preserves_from)
    with m None False show ?thesis
      by (auto simp: EnsureDefaultFormula_def split: prod.splits option.splits)
  qed
qed

lemma EnsureDefaultFormula_installed:
  assumes "\<not> exists f (GetFormulaPath repoPath ''build'')"
    and "EnsureDefaultFormula tm f repoPath = (None, g)"
  shows "os_Stat g (GetFormulaPath repoPath ''build'') = Inr (File (defaultFormulaContent tm))"
  using assms
  by (auto simp: EnsureDefaultFormula_def Let_def WriteFile_written
      split: prod.splits option.splits)

lemma EnsureDefaultFormula_exists:
  assumes "EnsureDefaultFormula tm f repoPath = (None, g)"
  shows "exists g (GetFormulaPath repoPath ''build'')"
proof (cases "exists f (GetFormulaPath repoPath ''build'')")
  case True
  with assms show ?thesis by (simp add: EnsureDefaultFormula_def)
next
  case False
  then show ?thesis
    using EnsureDefaultFormula_installed [OF False assms] by (simp add: exists_def)
qed

lemma writeMissing_preserves: "preserves f (snd (writeMissing f workPath fl))"
proof (induction f workPath fl rule: writeMissing.induct)
  case (1 f workPath)
  show ?case by (simp add: preserves_refl)
next
  case (2 f workPath filename content rest)
  let ?p = "filepath_Join [workPath, filename]"
  show ?case
  proof (cases "exists f ?p")
    case True
    with 2 show ?thesis by simp
  next
    case False
    obtain e f1 where w: "os_WriteFile f ?p content = (e, f1)" by fastforce
    have p1: "preserves f f1" using WriteFile_preserves [OF False, of content] w by simp
    show ?thesis
    proof (cases e)
      case (Some x)
      with w False p1 show ?thesis by simp
    next
      case None
      have "preserves f1 (snd (writeMissing f1 workPath rest))"
        using "2.IH"(2) [OF refl False w [symmetric]] None by simp
      with p1 w None False show ?thesis by (simp add: preserves_trans)
    qed
  qed
qed

lemma writeMissing_exists:
  "writeMissing f workPath fl = (None, g) \<Longrightarrow> (name, content) \<in> set fl \<Longrightarrow>
   exists g (filepath_Join [workPath, name])"
proof (induction f workPath fl rule: writeMissing.induct)
  case (1 f workPath)
  then show ?case by simp
next
  case (2 f workPath filename c rest)
  let ?p = "filepath_Join [workPath, filename]"
  show ?case
  proof (cases "exists f ?p")
    case True
    note ex = this
    with 2 have r: "writeMissing f workPath rest = (None, g)" by simp
    show ?thesis
    proof (cases "(name, content) \<in> set rest")
      case True
      with 2 ex r show ?thesis by simp
    next
      case False
      with "2.prems" have "name = filename" by simp
      moreover have "preserves f g" using writeMissing_preserves [of f workPath rest] r by simp
      ultimately show ?thesis using ex by (auto simp: preserves_def exists_def split: sum.splits)
    qed
  next
    case False
    note nex = this
    obtain e f1 where w: "os_WriteFile f ?p c = (e, f1)" by fastforce
    with "2.prems" nex have e: "e = None" and r: "writeMissing f1 workPath rest = (None, g)"
      by (auto split: option.splits)
    show ?thesis
    proof (cases "(name, content) \<in> set rest")
      case True
      with "2.IH"(2) [OF refl nex w [symmetric]] e r show ?thesis by simp
    next
      case False
      with "2.prems" have "name = filename" by simp
      moreover have "os_Stat f1 ?p = Inr (File c)" using w e by (simp add: WriteFile_written)
      moreover have "preserves f1 g" using writeMissing_preserves [of f1 workPath rest] r by simp
      ultimately show ?thesis by (auto simp: preserves_def exists_def)
    qed
  qed
qed

lemma writeMissing_first:
  assumes "\<not> exists f (filepath_Join [workPath, name])"
    and "writeMissing f workPath ((name, content) # rest) = (None, g)"
  shows "os_Stat g (filepath_Join [workPath, name]) = Inr (File content)"
proof -
  let ?p = "filepath_Join [workPath, name]"
  obtain e f1 where w: "os_WriteFile f ?p content = (e, f1)" by fastforce
  with assms have e: "e = None" and r: "writeMissing f1 workPath rest = (None, g)"
    by (auto split: option.splits)
  have "os_Stat f1 ?p = Inr (File content)" using w e by (simp add: WriteFile_written)
  moreover have "preserves f1 g" using writeMissing_preserves [of f1 workPath rest] r by simp
  ultimately show ?thesis by (simp add: preserves_def)
qed

lemma Create_preserves: "preserves f (snd (Create order tm f repoPath workName))"
proof -
  let ?wp = "GetWorkPath repoPath workName"
  let ?fd = "filepath_Join [repoPath, ''work'', ''formula'']"
  obtain e1 f1 where m1: "os_MkdirAll f ?wp = (e1, f1)" by fastforce
  obtain e2 f2 where m2: "os_MkdirAll f1 ?fd = (e2, f2)" by fastforce
  obtain e3 f3 where m3: "writeMissing f2 ?wp (order (files tm workName)) = (e3, f3)" by fastforce
  have p1: "preserves f f1" using MkdirAll_preserves [of f ?wp] m1 by simp
  have p2: "preserves f f2" using MkdirAll_preserves [of f1 ?fd] m2 p1 by (auto intro: preserves_trans)
  have p3: "preserves f f3"
    using writeMissing_preserves [of f2 ?wp "order (files tm workName)"] m3 p2
    by (auto intro: preserves_trans)
  have p4: "preserves f (snd (EnsureDefaultFormula tm f3 repoPath))"
    using EnsureDefaultFormula_preserves [of f3 tm repoPath] p3 by (auto intro: preserves_trans)
  show ?thesis
    using m1 m2 m3 p1 p2 p3 p4
    by (auto simp: Create_def Let_def split: option.splits)
qed

lemma Create_success:
  assumes "Create order tm f repoPath workName = (None, g)"
    and "set (order (files tm workName)) = set (files tm workName)"
  shows "os_Stat g (GetWorkPath repoPath workName) = Inr Directory"
    and "os_Stat g (filepath_Join [repoPath, ''work'', ''formula'']) = Inr Directory"
    and "\<forall>(name, content)\<in>set (files tm workName).
           exists g (filepath_Join [GetWorkPath repoPath workName, name])"
    and "exists g (GetFormulaPath repoPath ''build'')"
proof -
  let ?wp = "GetWorkPath repoPath workName"
  let ?fd = "filepath_Join [repoPath, ''work'', ''formula'']"
  obtain e1 f1 where m1: "os_MkdirAll f ?wp = (e1, f1)" by fastforce
  obtain e2 f2 where m2: "os_MkdirAll f1 ?fd = (e2, f2)" by fastforce
  obtain e3 f3 where m3: "writeMissing f2 ?wp (order (files tm workName)) = (e3, f3)" by fastforce
  have e: "e1 = None" "e2 = None" "e3 = None" and m4: "EnsureDefaultFormula tm f3 repoPath = (None, g)"
    using assms(1) m1 m2 m3 by (auto simp: Create_def Let_def split: option.splits)
  have p2: "preserves f1 f2" using MkdirAll_preserves [of f1 ?fd] m2 by simp
  have p3: "preserves f2 f3"
    using writeMissing_preserves [of f2 ?wp "order (files tm workName)"] m3 by simp
  have p4: "preserves f3 g" using EnsureDefaultFormula_preserves [of f3 tm repoPath] m4 by simp
  have "os_Stat f1 ?wp = Inr Directory" using m1 e by (simp add: MkdirAll_dir)
  then show "os_Stat g ?wp = Inr Directory" using p2 p3 p4 by (simp add: preserves_def)
  have "os_Stat f2 ?fd = Inr Directory" using m2 e by (simp add: MkdirAll_dir)
  then show "os_Stat g ?fd = Inr Directory" using p3 p4 by (simp add: preserves_def)
  show "\<forall>(name, content)\<in>set (files tm workName). exists g (filepath_Join [?wp, name])"
  proof (clarify)
    fix name content
    assume "(name, content) \<in> set (files tm workName)"
    then have "(name, content) \<in> set (order (files tm workName))" using assms(2) by simp
    then have "exists f3 (filepath_Join [?wp, name])"
      using writeMissing_exists m3 e by blast
    then show "exists g (filepath_Join [?wp, name])"
      using p4 by (auto simp: preserves_def exists_def split: sum.splits)
  qed
  show "exists g (GetFormulaPath repoPath ''build'')"
    using m4 by (rule EnsureDefaultFormula_exists)
qed


section \<open>Evaluation on the sample repository\<close>

lemmas fs_eval = path_eval exists_def IsNotExist_def os_MkdirAll_def os_WriteFile_def
  GetWorkPath_def GetFormulaPath_def

lemma sample_Create: "Create id sampleTemplates sampleRepo ''/r'' ''x'' = (None, sampleCreated)"
  by (simp add: Create_def EnsureDefaultFormula_def files_def sampleTemplates_def sampleRepo_def
      sampleCreated_def fs_eval)

text \<open>
  C9, as the code has it.  Whatever path resolution reaches before \<open>Create\<close> is the same
  after it, be it the content of a file or a directory: nothing that exists is overwritten.
  When \<open>Create\<close> succeeds the work directory and the formula directory are directories, the
  four documents and the default formula exist; a document that is missing when its turn
  comes is written with its template; and the default formula is installed exactly when
  nothing exists at \<open>work/formula/build.md\<close>, whatever else the formula directory holds: an
  existing one is left as it is.
\<close>

theorem Create_never_overwrites:
  "(os_Stat f p = Inr n \<longrightarrow> os_Stat (snd (Create order tm f repoPath workName)) p = Inr n)
   \<and> (Create order tm f repoPath workName = (None, g)
        \<and> set (order (files tm workName)) = set (files tm workName)
      \<longrightarrow> os_Stat g (GetWorkPath repoPath workName) = Inr Directory
          \<and> os_Stat g (filepath_Join [repoPath, ''work'', ''formula'']) = Inr Directory
          \<and> (\<forall>(name, content)\<in>set (files tm workName).
                exists g (filepath_Join [GetWorkPath repoPath workName, name]))
          \<and> exists g (GetFormulaPath repoPath ''build''))
   \<and> (\<not> exists f1 (filepath_Join [workPath, name])
        \<and> writeMissing f1 workPath ((name, content) # rest) = (None, g1)
      \<longrightarrow> os_Stat g1 (filepath_Join [workPath, name]) = Inr (File content))
   \<and> (exists f2 (GetFormulaPath repoPath ''build'')
      \<longrightarrow> EnsureDefaultFormula tm f2 repoPath = (None, f2))
   \<and> (\<not> exists f3 (GetFormulaPath repoPath ''build'')
        \<and> EnsureDefaultFormula tm f3 repoPath = (None, g3)
      \<longrightarrow> os_Stat g3 (GetFormulaPath repoPath ''build'')
            = Inr (File (defaultFormulaContent tm)))"
proof (intro conjI impI)
  assume "os_Stat f p = Inr n"
  then show "os_Stat (snd (Create order tm f repoPath workName)) p = Inr n"
    using Create_preserves [of f order tm repoPath workName] by (simp add: preserves_def)
next
  assume a: "Create order tm f repoPath workName = (None, g)
        \<and> set (order (files tm workName)) = set (files tm workName)"
  then have c: "Create order tm f repoPath workName = (None, g)"
    and o: "set (order (files tm workName)) = set (files tm workName)" by simp_all
  show "os_Stat g (GetWorkPath repoPath workName) = Inr Directory"
    using Create_success(1) [OF c o] .
  show "os_Stat g (filepath_Join [repoPath, ''work'', ''formula'']) = Inr Directory"
    using Create_success(2) [OF c o] .
  show "\<forall>(name, content)\<in>set (files tm workName).
          exists g (filepath_Join [GetWorkPath repoPath workName, name])"
    using Create_success(3) [OF c o] .
  show "exists g (GetFormulaPath repoPath ''build'')"
    using Create_success(4) [OF c o] .
next
  assume "\<not> exists f1 (filepath_Join [workPath, name])
        \<and> writeMissing f1 workPath ((name, content) # rest) = (None, g1)"
  then show "os_Stat g1 (filepath_Join [workPath, name]) = Inr (File content)"
    using writeMissing_first by blast
next
  assume "exists f2 (GetFormulaPath repoPath ''build'')"
  then show "EnsureDefaultFormula tm f2 repoPath = (None, f2)"
    by (simp add: EnsureDefaultFormula_def)
next
  assume "\<not> exists f3 (GetFormulaPath repoPath ''build'')
        \<and> EnsureDefaultFormula tm f3 repoPath = (None, g3)"
  then show "os_Stat g3 (GetFormulaPath repoPath ''build'') = Inr (File (defaultFormulaContent tm))"
    using EnsureDefaultFormula_installed by blast
qed

theorem Create_never_overwrites_witness:
  "os_Stat (snd (Create id sampleTemplates sampleRepo ''/r'' ''x'')) ''/r/work/x/spec.md''
     = Inr (File ''my spec'')
   \<and> os_Stat sampleCreated ''/r/work/x'' = Inr Directory
   \<and> os_Stat sampleCreated ''/r/work/formula'' = Inr Directory
   \<and> exists sampleCreated ''/r/work/x/design.md''
   \<and> exists sampleCreated ''/r/work/formula/build.md''
   \<and> os_Stat (snd (writeMissing sampleRepo ''/r/work/x'' [(''design.md'', ''D'')]))
         ''/r/work/x/design.md'' = Inr (File ''D'')
   \<and> EnsureDefaultFormula sampleTemplates sampleCreated ''/r'' = (None, sampleCreated)
   \<and> os_Stat (snd (EnsureDefaultFormula sampleTemplates sampleRepo ''/r''))
         ''/r/work/formula/build.md'' = Inr (File ''# Feature Implementation Formula'')"
proof -
  have h1: "os_Stat sampleRepo ''/r/work/x/spec.md'' = Inr (File ''my spec'')"
    by (simp add: sampleRepo_def fs_eval)
  have h2: "Create id sampleTemplates sampleRepo ''/r'' ''x'' = (None, sampleCreated)
      \<and> set (id (files sampleTemplates ''x'')) = set (files sampleTemplates ''x'')"
    by (simp add: sample_Create)
  have h3: "\<not> exists sampleRepo (filepath_Join [''/r/work/x'', ''design.md''])
      \<and> writeMissing sampleRepo ''/r/work/x'' [(''design.md'', ''D'')]
          = (None, sampleRepo @ [(''/r/work/x/design.md'', File ''D'')])"
    by (simp add: sampleRepo_def fs_eval)
  have h4: "exists sampleCreated (GetFormulaPath ''/r'' ''build'')"
    by (simp add: sampleCreated_def sampleRepo_def fs_eval)
  have h5: "\<not> exists sampleRepo (GetFormulaPath ''/r'' ''build'')
      \<and> EnsureDefaultFormula sampleTemplates sampleRepo ''/r''
          = (None, sampleRepo @ [(''/r/work/formula/build.md'',
               File ''# Feature Implementation Formula'')])"
    by (simp add: EnsureDefaultFormula_def sampleTemplates_def sampleRepo_def fs_eval)
  have p: "filepath_Join [''/r/work/x'', ''design.md''] = ''/r/work/x/design.md''"
    "GetFormulaPath ''/r'' ''build'' = ''/r/work/formula/build.md''"
    "GetWorkPath ''/r'' ''x'' = ''/r/work/x''"
    "filepath_Join [''/r'', ''work'', ''formula''] = ''/r/work/formula''"
    by (simp_all add: fs_eval)
  note t = Create_never_overwrites [of sampleRepo "''/r/work/x/spec.md''" "File ''my spec''" id
      sampleTemplates "''/r''" "''x''" sampleCreated sampleRepo "''/r/work/x''" "''design.md''"
      "''D''" "[]" "sampleRepo @ [(''/r/work/x/design.md'', File ''D'')]" sampleCreated
      sampleRepo "sampleRepo @ [(''/r/work/formula/build.md'', File ''# Feature Implementation Formula'')]"]
  from t h1 have c1: "os_Stat (snd (Create id sampleTemplates sampleRepo ''/r'' ''x''))
      ''/r/work/x/spec.md'' = Inr (File ''my spec'')"
    by blast
  from t h2 have c2: "os_Stat sampleCreated (GetWorkPath ''/r'' ''x'') = Inr Directory"
    "os_Stat sampleCreated (filepath_Join [''/r'', ''work'', ''formula'']) = Inr Directory"
    "\<forall>(name, content)\<in>set (files sampleTemplates ''x'').
        exists sampleCreated (filepath_Join [GetWorkPath ''/r'' ''x'', name])"
    "exists sampleCreated (GetFormulaPath ''/r'' ''build'')"
    by blast+
  have "(''design.md'', designTemplate sampleTemplates ''x'') \<in> set (files sampleTemplates ''x'')"
    by (simp add: files_def)
  with c2(3) have c2': "exists sampleCreated (filepath_Join [GetWorkPath ''/r'' ''x'', ''design.md''])"
    by blast
  from t h3 have c3: "os_Stat (sampleRepo @ [(''/r/work/x/design.md'', File ''D'')])
      (filepath_Join [''/r/work/x'', ''design.md'']) = Inr (File ''D'')"
    by blast
  from t h4 have c4: "EnsureDefaultFormula sampleTemplates sampleCreated ''/r'' = (None, sampleCreated)"
    by blast
  from t h5 have c5: "os_Stat (sampleRepo @ [(''/r/work/formula/build.md'',
        File ''# Feature Implementation Formula'')]) (GetFormulaPath ''/r'' ''build'')
      = Inr (File (defaultFormulaContent sampleTemplates))"
    by blast
  have d: "defaultFormulaContent sampleTemplates = ''# Feature Implementation Formula''"
    by (simp add: sampleTemplates_def)
  show ?thesis
    using c1 c2(1,2,4) c2' c3 c4 c5 h3 h5 unfolding p d by simp
qed

text \<open>
  The claim as the specification words it fails: the formula directory of the sample
  repository already holds a formula document, \<open>hotfix.md\<close>, and \<open>Create\<close> installs the
  default formula all the same.
\<close>

theorem Create_formula_counterexample:
  "os_Stat sampleRepo ''/r/work/formula/hotfix.md'' = Inr (File ''# Hotfix'')
   \<and> os_Stat sampleRepo ''/r/work/formula/build.md'' = Inl ENOENT
   \<and> os_Stat (snd (Create id sampleTemplates sampleRepo ''/r'' ''x'')) ''/r/work/formula/build.md''
       = Inr (File ''# Feature Implementation Formula'')"
  by (simp add: sample_Create) (simp add: sampleCreated_def sampleRepo_def fs_eval)

section \<open>Properties of hook generation\<close>

lemma GenerateHook_written:
  "GenerateHook f repoPath workName formulaName = (None, g) \<Longrightarrow>
   os_Stat g (filepath_Join [GetWorkPath repoPath workName, ''hook.md''])
     = Inr (File (hookContent workName formulaName))"
  by (auto simp: GenerateHook_def Let_def WriteFile_written split: if_splits prod.splits option.splits)

lemma WriteFile_over:
  assumes "os_Stat f p = Inr (File old)"
  shows "os_WriteFile f p c = (None, AList.update (last (pathChain p)) (File c) f)"
proof -
  let ?ch = "pathChain p"
  have w: "walk f ?ch = Inr (File old)" using assms by (simp add: os_Stat_def)
  then have ne: "?ch \<noteq> []" by auto
  then have "walk f (butlast ?ch @ [last ?ch]) = Inr (File old)" using w by simp
  then have "walk f (butlast ?ch) = Inr Directory \<and> map_of f (last ?ch) = Some (File old)"
    unfolding walk_snoc by (auto split: sum.splits node.splits option.splits)
  then show ?thesis using ne by (simp add: os_WriteFile_def Let_def)
qed

text \<open>
  C5, amended.  \<open>GenerateHook\<close> fails with \<open>FormulaNotFound\<close> and leaves the file system
  as it is when \<open>os.Stat\<close> reports that the formula document does not exist.  Otherwise
  it writes the hook document, whether or not one is there: a call that returns without
  error leaves the text generated for this work item and this formula in the hook
  document, and where a hook document is already there the call returns without error
  and replaces its text.  So running the operation again with another formula that
  exists regenerates the document.
\<close>

theorem GenerateHook_writes:
  "(IsNotExist f (GetFormulaPath repoPath formulaName)
      \<longrightarrow> GenerateHook f repoPath workName formulaName = (Some FormulaNotFound, f))
   \<and> (GenerateHook f repoPath workName formulaName = (None, g)
      \<longrightarrow> os_Stat g (filepath_Join [GetWorkPath repoPath workName, ''hook.md''])
            = Inr (File (hookContent workName formulaName)))
   \<and> (\<not> IsNotExist f (GetFormulaPath repoPath formulaName)
        \<and> os_Stat f (filepath_Join [GetWorkPath repoPath workName, ''hook.md'']) = Inr (File old)
      \<longrightarrow> fst (GenerateHook f repoPath workName formulaName) = None
          \<and> os_Stat (snd (GenerateHook f repoPath workName formulaName))
               (filepath_Join [GetWorkPath repoPath workName, ''hook.md''])
            = Inr (File (hookContent workName formulaName)))
   \<and> (GenerateHook f repoPath workName formulaName = (None, g)
        \<and> \<not> IsNotExist g (GetFormulaPath repoPath otherFormula)
      \<longrightarrow> fst (GenerateHook g repoPath workName otherFormula) = None
          \<and> os_Stat (snd (GenerateHook g repoPath workName otherFormula))
               (filepath_Join [GetWorkPath repoPath workName, ''hook.md''])
            = Inr (File (hookContent workName otherFormula)))"
proof -
  let ?hook = "filepath_Join [GetWorkPath repoPath workName, ''hook.md'']"
  have over: "fst (GenerateHook h repoPath workName a) = None
      \<and> os_Stat (snd (GenerateHook h repoPath workName a)) ?hook
          = Inr (File (hookContent workName a))"
    if "\<not> IsNotExist h (GetFormulaPath repoPath a)" and "os_Stat h ?hook = Inr (File c)"
    for h a c
  proof -
    have "GenerateHook h repoPath workName a
        = (None, AList.update (last (pathChain ?hook)) (File (hookContent workName a)) h)"
      using that(1) WriteFile_over [OF that(2)] by (simp add: GenerateHook_def Let_def)
    then show ?thesis
      using GenerateHook_written [of h repoPath workName a] by simp
  qed
  have 1: "GenerateHook f repoPath workName formulaName = (Some FormulaNotFound, f)"
    if "IsNotExist f (GetFormulaPath repoPath formulaName)"
    using that by (simp add: GenerateHook_def Let_def)
  have 2: "os_Stat g ?hook = Inr (File (hookContent workName formulaName))"
    if "GenerateHook f repoPath workName formulaName = (None, g)"
    using that by (rule GenerateHook_written)
  have 3: "fst (GenerateHook f repoPath workName formulaName) = None
          \<and> os_Stat (snd (GenerateHook f repoPath workName formulaName)) ?hook
            = Inr (File (hookContent workName formulaName))"
    if "\<not> IsNotExist f (GetFormulaPath repoPath formulaName)
        \<and> os_Stat f ?hook = Inr (File old)"
    using that over by blast
  have 4: "fst (GenerateHook g repoPath workName otherFormula) = None
          \<and> os_Stat (snd (GenerateHook g repoPath workName otherFormula)) ?hook
            = Inr (File (hookContent workName otherFormula))"
    if "GenerateHook f repoPath workName formulaName = (None, g)
        \<and> \<not> IsNotExist g (GetFormulaPath repoPath otherFormula)"
    using that over [of g otherFormula] 2 by blast
  show ?thesis
    apply (rule conjI, rule impI, erule 1)
    apply (rule conjI, rule impI, erule 2)
    apply (rule conjI, rule impI, erule 3)
    apply (rule impI, erule 4)
    done
qed

lemma sample_hooked:
  "GenerateHook sampleAssigned ''/r'' ''x'' ''build'' = (None, sampleHooked)"
  "GenerateHook sampleHooked ''/r'' ''x'' ''hotfix''
     = (None, sampleAssigned @ [(''/r/work/x/hook.md'', File (hookContent ''x'' ''hotfix''))])"
  "os_Stat sampleHooked ''/r/work/x/hook.md'' = Inr (File (hookContent ''x'' ''build''))"
  "os_Stat (sampleAssigned @ [(''/r/work/x/hook.md'', File (hookContent ''x'' ''hotfix''))])
     ''/r/work/x/hook.md'' = Inr (File (hookContent ''x'' ''hotfix''))"
  "IsNotExist sampleAssigned (GetFormulaPath ''/r'' ''nonexistent'')"
  "\<not> IsNotExist sampleHooked (GetFormulaPath ''/r'' ''hotfix'')"
  "filepath_Join [GetWorkPath ''/r'' ''x'', ''hook.md''] = ''/r/work/x/hook.md''"
  by (simp_all add: GenerateHook_def sampleHooked_def sampleAssigned_def fs_eval)

theorem GenerateHook_writes_witness:
  "GenerateHook sampleAssigned ''/r'' ''x'' ''nonexistent'' = (Some FormulaNotFound, sampleAssigned)
   \<and> GenerateHook sampleAssigned ''/r'' ''x'' ''build'' = (None, sampleHooked)
   \<and> os_Stat sampleHooked ''/r/work/x/hook.md'' = Inr (File (hookContent ''x'' ''build''))
   \<and> fst (GenerateHook sampleHooked ''/r'' ''x'' ''hotfix'') = None
   \<and> os_Stat (snd (GenerateHook sampleHooked ''/r'' ''x'' ''hotfix'')) ''/r/work/x/hook.md''
       = Inr (File (hookContent ''x'' ''hotfix''))"
proof -
  note t = GenerateHook_writes [where f = sampleAssigned and repoPath = "''/r''"
      and workName = "''x''" and formulaName = "''nonexistent''"]
  note u = GenerateHook_writes [where f = sampleAssigned and repoPath = "''/r''"
      and workName = "''x''" and formulaName = "''build''" and g = sampleHooked
      and otherFormula = "''hotfix''"]
  note v = GenerateHook_writes [where f = sampleHooked and repoPath = "''/r''"
      and workName = "''x''" and formulaName = "''hotfix''"
      and old = "hookContent ''x'' ''build''"]
  have h1: "IsNotExist sampleAssigned (GetFormulaPath ''/r'' ''nonexistent'')"
    by (rule sample_hooked)
  have h2: "GenerateHook sampleAssigned ''/r'' ''x'' ''build'' = (None, sampleHooked)"
    by (rule sample_hooked)
  have h3: "\<not> IsNotExist sampleHooked (GetFormulaPath ''/r'' ''hotfix'')
      \<and> os_Stat sampleHooked (filepath_Join [GetWorkPath ''/r'' ''x'', ''hook.md''])
          = Inr (File (hookContent ''x'' ''build''))"
    by (simp add: sample_hooked)
  have h4: "GenerateHook sampleAssigned ''/r'' ''x'' ''build'' = (None, sampleHooked)
      \<and> \<not> IsNotExist sampleHooked (GetFormulaPath ''/r'' ''hotfix'')"
    by (simp add: sample_hooked)
  note c1 = t [THEN conjunct1, THEN mp, OF h1]
  note c2 = u [THEN conjunct2, THEN conjunct1, THEN mp, OF h2]
  note c3 = v [THEN conjunct2, THEN conjunct2, THEN conjunct1, THEN mp, OF h3]
  note c4 = u [THEN conjunct2, THEN conjunct2, THEN conjunct2, THEN mp, OF h4]
  show ?thesis
    using c1 h2 c2 c3 c4 by (simp add: sample_hooked(7))
qed

text \<open>
  C5 as it is written fails on the code.  In the sample repository with the hook document
  generated for the formula \<open>build\<close>, generating it again for the formula \<open>hotfix\<close>
  returns without error and the hook document is not what it was.
\<close>

theorem GenerateHook_unchanged_counterexample:
  "os_Stat sampleHooked ''/r/work/x/hook.md'' = Inr (File (hookContent ''x'' ''build''))
   \<and> GenerateHook sampleHooked ''/r'' ''x'' ''hotfix''
       = (None, sampleAssigned @ [(''/r/work/x/hook.md'', File (hookContent ''x'' ''hotfix''))])
   \<and> os_Stat (snd (GenerateHook sampleHooked ''/r'' ''x'' ''hotfix'')) ''/r/work/x/hook.md''
       \<noteq> os_Stat sampleHooked ''/r/work/x/hook.md''"
proof -
  have "hookContent ''x'' ''build'' \<noteq> hookContent ''x'' ''hotfix''"
    by (simp add: hookContent_def)
  then show ?thesis by (simp add: sample_hooked)
qed



section \<open>Properties of the backends\<close>



lemma exists_preserved: "preserves f g \<Longrightarrow> exists f p \<Longrightarrow> exists g p"
  by (auto simp: preserves_def exists_def split: sum.splits)

lemma AttachSession_ok:
  "NormalizeSessionName s \<in> set (sessions w) \<Longrightarrow> FaultAttach \<notin> set (faults w) \<Longrightarrow>
   AttachSession w s cc
     = (True, w\<lparr>trace := trace w @ [Did (AttachTo (NormalizeSessionName s))],
                 attached := Some (NormalizeSessionName s)\<rparr>)"
  by (simp add: AttachSession_def did_def Let_def)

lemma AttachSession_frame:
  "AttachSession w s cc = (ok, w1) \<Longrightarrow>
   fs w1 = fs w \<and> repos w1 = repos w \<and> sessions w1 = sessions w \<and> faults w1 = faults w
   \<and> stdin w1 = stdin w"
  by (auto simp: AttachSession_def did_def Let_def split: if_splits)

lemma newSession_ok:
  "n \<notin> set (sessions w) \<Longrightarrow> FaultNewSession \<notin> set (faults w) \<Longrightarrow>
   newSession w n = (True, w\<lparr>trace := trace w @ [Did (NewSession n)], sessions := sessions w @ [n]\<rparr>)"
  by (simp add: newSession_def did_def Let_def)

lemma newSession_frame:
  "newSession w n = (ok, w1) \<Longrightarrow>
   fs w1 = fs w \<and> repos w1 = repos w \<and> faults w1 = faults w \<and> stdin w1 = stdin w
   \<and> (ok \<longrightarrow> sessions w1 = sessions w @ [n])"
  by (auto simp: newSession_def did_def Let_def split: if_splits)

lemma CreateCrewSession_ok:
  assumes "NormalizeSessionName s \<notin> set (sessions w)"
    and "set (sessionFaults cc) \<inter> set (faults w) = {}"
  shows "CreateCrewSession w s cc
     = (True, w\<lparr>trace := trace w @ [Did (NewSession (NormalizeSessionName s))],
                 sessions := sessions w @ [NormalizeSessionName s]\<rparr>)"
  using assms
  by (cases cc)
    (simp_all add: CreateCrewSession_def createCrewSessionCC_def createCrewSessionNative_def
      newSession_ok sessionFaults_def)

lemma CreateCrewSession_frame:
  assumes "CreateCrewSession w s cc = (ok, w1)"
  shows "fs w1 = fs w \<and> repos w1 = repos w \<and> faults w1 = faults w \<and> stdin w1 = stdin w
     \<and> (ok \<longrightarrow> sessions w1 = sessions w @ [NormalizeSessionName s])"
proof -
  obtain ok0 w0 where n: "newSession w (NormalizeSessionName s) = (ok0, w0)" by fastforce
  have f: "fs w0 = fs w \<and> repos w0 = repos w \<and> faults w0 = faults w \<and> stdin w0 = stdin w
     \<and> (ok0 \<longrightarrow> sessions w0 = sessions w @ [NormalizeSessionName s])"
    using newSession_frame [OF n] .
  have "w1 = w0 \<and> (ok \<longrightarrow> ok0)"
    using assms n
    by (cases cc; cases ok0)
      (auto simp: CreateCrewSession_def createCrewSessionCC_def createCrewSessionNative_def
        split: if_splits)
  with f show ?thesis by simp
qed

lemma ask_frame:
  "ask q w = (a, w1) \<Longrightarrow>
   fs w1 = fs w \<and> repos w1 = repos w \<and> sessions w1 = sessions w \<and> faults w1 = faults w"
  by (auto simp: ask_def split: list.splits)

lemma say_frame [simp]:
  "fs (say n w) = fs w" "repos (say n w) = repos w" "sessions (say n w) = sessions w"
  "faults (say n w) = faults w" "stdin (say n w) = stdin w" "inside (say n w) = inside w"
  "trace (say n w) = trace w @ [Said n]"
  by (simp_all add: say_def)

lemma did_frame [simp]:
  "fs (did a w) = fs w" "repos (did a w) = repos w" "sessions (did a w) = sessions w"
  "faults (did a w) = faults w" "stdin (did a w) = stdin w" "inside (did a w) = inside w"
  "trace (did a w) = trace w @ [Did a]"
  by (simp_all add: did_def)

lemma CreateWorktree_success:
  assumes "CreateWorktree w p path b base = (True, w1)"
  shows "\<exists>r r1 f1. repos w p = Some r \<and> os_MkdirAll (fs w) path = (None, f1) \<and> fs w1 = f1
      \<and> repos w1 = (repos w)(p \<mapsto> r1) \<and> set (branches r) \<subseteq> set (branches r1)
      \<and> originHead r1 = originHead r \<and> faults w1 = faults w \<and> sessions w1 = sessions w"
  using assms
  by (auto simp: CreateWorktree_def Let_def split: option.splits if_splits prod.splits)

lemma CreateWorktreeFromExisting_success:
  assumes "CreateWorktreeFromExisting w p path b = (True, w1)"
  shows "\<exists>r r1 f1. repos w p = Some r \<and> os_MkdirAll (fs w) path = (None, f1) \<and> fs w1 = f1
      \<and> repos w1 = (repos w)(p \<mapsto> r1) \<and> set (branches r) \<subseteq> set (branches r1)
      \<and> originHead r1 = originHead r \<and> faults w1 = faults w \<and> sessions w1 = sessions w"
  using assms
  by (auto simp: CreateWorktreeFromExisting_def Let_def split: option.splits if_splits prod.splits)

section \<open>Properties of Add\<close>

lemma addSession_success:
  assumes "addSession cfg w p cp s b = (None, w1)"
  shows "fs w1 = fs w \<and> repos w1 = repos w \<and> faults w1 = faults w \<and> SessionExists w1 s"
proof -
  obtain ok wa where c: "CreateCrewSession w s (UseCC cfg) = (ok, wa)" by fastforce
  with assms have ok: "ok" by (cases ok) (simp_all add: addSession_def)
  obtain ok2 wb where a: "AttachSession (say SessionCreated wa) s (UseCC cfg) = (ok2, wb)"
    by fastforce
  with assms c ok have w1: "w1 = wb" by (cases ok2) (simp_all add: addSession_def)
  have fa: "fs wa = fs w \<and> repos wa = repos w \<and> faults wa = faults w
      \<and> sessions wa = sessions w @ [NormalizeSessionName s]"
    using CreateCrewSession_frame [OF c] ok by simp
  have fb: "fs wb = fs (say SessionCreated wa) \<and> repos wb = repos (say SessionCreated wa)
      \<and> sessions wb = sessions (say SessionCreated wa) \<and> faults wb = faults (say SessionCreated wa)"
    using AttachSession_frame [OF a] by simp
  show ?thesis using fa fb w1 by (simp add: SessionExists_def)
qed

lemma addExisting_success:
  assumes "addExisting cfg w s = (None, w1)"
  shows "fs w1 = fs w \<and> repos w1 = repos w \<and> faults w1 = faults w \<and> SessionExists w1 s"
proof (cases "SessionExists w s")
  case True
  obtain ok wb where a: "AttachSession (say AlreadyRunning w) s (UseCC cfg) = (ok, wb)"
    by fastforce
  with assms True have "w1 = wb" by (cases ok) (simp_all add: addExisting_def)
  with AttachSession_frame [OF a] True show ?thesis by (simp add: SessionExists_def)
next
  case False
  obtain ok wa where c: "CreateCrewSession (say ExistsNotRunning w) s (UseCC cfg) = (ok, wa)"
    by fastforce
  with assms False have ok: "ok" by (cases ok) (simp_all add: addExisting_def)
  obtain ok2 wb where a: "AttachSession (say SessionRecreated wa) s (UseCC cfg) = (ok2, wb)"
    by fastforce
  with assms False c ok have w1: "w1 = wb" by (cases ok2) (simp_all add: addExisting_def)
  have fa: "fs wa = fs w \<and> repos wa = repos w \<and> faults wa = faults w
      \<and> sessions wa = sessions w @ [NormalizeSessionName s]"
    using CreateCrewSession_frame [OF c] ok by simp
  have fb: "fs wb = fs wa \<and> repos wb = repos wa \<and> sessions wb = sessions wa \<and> faults wb = faults wa"
    using AttachSession_frame [OF a] by simp
  show ?thesis using fa fb w1 by (simp add: SessionExists_def)
qed

lemma addWorktree_success:
  assumes "addWorktree cfg w p cp s b base = (None, w1)"
  shows "\<exists>r r1 f1. repos w p = Some r \<and> os_MkdirAll (fs w) cp = (None, f1) \<and> fs w1 = f1
      \<and> repos w1 = (repos w)(p \<mapsto> r1) \<and> set (branches r) \<subseteq> set (branches r1)
      \<and> originHead r1 = originHead r \<and> faults w1 = faults w \<and> SessionExists w1 s"
proof (cases "BranchExists w p b")
  case True
  obtain a wa where q: "ask UseExistingBranch (say BranchAlreadyExists w) = (a, wa)" by fastforce
  have fa: "fs wa = fs w \<and> repos wa = repos w \<and> faults wa = faults w"
    using ask_frame [OF q] by simp
  have no: "\<not> saysNo a" using assms True q by (auto simp: addWorktree_def split: if_splits)
  obtain ok wb where c: "CreateWorktreeFromExisting wa p cp b = (ok, wb)" by fastforce
  with assms True q no have ok: "ok" by (cases ok) (simp_all add: addWorktree_def)
  with assms True q no c have s: "addSession cfg (say WorkspaceCreated wb) p cp s b = (None, w1)"
    by (simp add: addWorktree_def)
  from CreateWorktreeFromExisting_success [of wa p cp b wb] c ok fa
  obtain r r1 f1 where h: "repos w p = Some r" "os_MkdirAll (fs w) cp = (None, f1)" "fs wb = f1"
    "repos wb = (repos w)(p \<mapsto> r1)" "set (branches r) \<subseteq> set (branches r1)"
    "originHead r1 = originHead r" "faults wb = faults w"
    by auto
  have "repos w p = Some r \<and> os_MkdirAll (fs w) cp = (None, f1) \<and> fs w1 = f1
      \<and> repos w1 = (repos w)(p \<mapsto> r1) \<and> set (branches r) \<subseteq> set (branches r1)
      \<and> originHead r1 = originHead r \<and> faults w1 = faults w \<and> SessionExists w1 s"
    using h addSession_success [OF s] by simp
  then show ?thesis by blast
next
  case False
  obtain ok wb where c: "CreateWorktree w p cp b base = (ok, wb)" by fastforce
  with assms False have ok: "ok" by (cases ok) (simp_all add: addWorktree_def)
  with assms False c have s: "addSession cfg (say WorkspaceCreated wb) p cp s b = (None, w1)"
    by (simp add: addWorktree_def)
  from CreateWorktree_success [of w p cp b base wb] c ok
  obtain r r1 f1 where h: "repos w p = Some r" "os_MkdirAll (fs w) cp = (None, f1)" "fs wb = f1"
    "repos wb = (repos w)(p \<mapsto> r1)" "set (branches r) \<subseteq> set (branches r1)"
    "originHead r1 = originHead r" "faults wb = faults w"
    by auto
  have "repos w p = Some r \<and> os_MkdirAll (fs w) cp = (None, f1) \<and> fs w1 = f1
      \<and> repos w1 = (repos w)(p \<mapsto> r1) \<and> set (branches r) \<subseteq> set (branches r1)
      \<and> originHead r1 = originHead r \<and> faults w1 = faults w \<and> SessionExists w1 s"
    using h addSession_success [OF s] by simp
  then show ?thesis by blast
qed

lemma BranchExists_grow:
  "repos w p = Some r \<Longrightarrow> repos w1 p = Some r1 \<Longrightarrow> set (branches r) \<subseteq> set (branches r1) \<Longrightarrow>
   BranchExists w p b \<Longrightarrow> BranchExists w1 p b"
  by (auto simp: BranchExists_def)

lemma GetBaseBranch_resolves:
  "(GetBaseBranch w p d \<noteq> None) =
     ((\<exists>r out. repos w p = Some r \<and> originHead r = Some out
          \<and> TrimPrefixOr (strings_TrimSpace out) ''refs/remotes/origin/'' \<noteq> []
          \<and> BranchExists w p (TrimPrefixOr (strings_TrimSpace out) ''refs/remotes/origin/''))
      \<or> BranchExists w p d \<or> BranchExists w p ''main'' \<or> BranchExists w p ''master''
      \<or> BranchExists w p ''develop'')"
  by (auto simp: GetBaseBranch_def Let_def split: option.splits)

lemma BranchExists_frame:
  "repos w1 = repos w \<Longrightarrow> BranchExists w1 = BranchExists w"
  by (intro ext) (simp add: BranchExists_def)

lemma GetBaseBranch_frame:
  assumes "repos w1 = repos w"
  shows "GetBaseBranch w1 p d = GetBaseBranch w p d"
  unfolding GetBaseBranch_def BranchExists_frame [OF assms] assms by (rule refl)

lemma GetBaseBranch_grow:
  assumes "repos w p = Some r" "repos w1 p = Some r1" "set (branches r) \<subseteq> set (branches r1)"
    and "originHead r1 = originHead r" and "GetBaseBranch w p d \<noteq> None"
  shows "GetBaseBranch w1 p d \<noteq> None"
  using assms(5) BranchExists_grow [OF assms(1-3)] assms(1,2,4)
  unfolding GetBaseBranch_resolves by auto

text \<open>What holds after a call of \<open>Add\<close> that returned without error.\<close>

lemma Add_success:
  assumes "Add cfg w name rigName = (None, w1)"
  shows "ValidateCrewName name = None"
    and "IsGitRepo w1 (GetRepoPath cfg rigName)"
    and "GetBaseBranch w1 (GetRepoPath cfg rigName) (DefaultBranch cfg) \<noteq> None"
    and "exists (fs w1) (GetCrewPath cfg rigName name)"
    and "SessionExists w1 (GetCrewSessionName cfg rigName name)"
    and "faults w1 = faults w"
proof -
  let ?p = "GetRepoPath cfg rigName" and ?cp = "GetCrewPath cfg rigName name"
  let ?s = "GetCrewSessionName cfg rigName name" and ?b = "GetCrewBranchName cfg name"
  show v: "ValidateCrewName name = None"
    using assms by (auto simp: Add_def split: option.splits)
  have g: "IsGitRepo w ?p"
    using assms v by (auto simp: Add_def Let_def split: if_splits)
  obtain base where b: "GetBaseBranch w ?p (DefaultBranch cfg) = Some base"
    using assms v g by (auto simp: Add_def Let_def split: option.splits)
  have post: "IsGitRepo w1 ?p \<and> GetBaseBranch w1 ?p (DefaultBranch cfg) \<noteq> None
      \<and> exists (fs w1) ?cp \<and> SessionExists w1 ?s \<and> faults w1 = faults w"
  proof (cases "exists (fs w) ?cp")
    case True
    then have "addExisting cfg w ?s = (None, w1)"
      using assms v g b by (simp add: Add_def Let_def)
    from addExisting_success [OF this] True g b show ?thesis
      by (simp add: IsGitRepo_def GetBaseBranch_frame [of w1 w])
  next
    case False
    obtain e f1 where m: "os_MkdirAll (fs w) (filepath_Dir ?cp) = (e, f1)" by fastforce
    with assms v g b False have e: "e = None" by (cases e) (simp_all add: Add_def Let_def)
    let ?wa = "say CreatingWorkspace ((did (MkdirAllOf (filepath_Dir ?cp)) w)\<lparr>fs := f1\<rparr>)"
    have aw: "addWorktree cfg ?wa ?p ?cp ?s ?b base = (None, w1)"
      using assms v g b False m e by (simp add: Add_def Let_def)
    from addWorktree_success [OF aw]
    obtain r r1 f2 where r: "repos w ?p = Some r" and m2: "os_MkdirAll f1 ?cp = (None, f2)"
      and f: "fs w1 = f2" and rr: "repos w1 = (repos w)(?p \<mapsto> r1)"
      and sub: "set (branches r) \<subseteq> set (branches r1)" and oh: "originHead r1 = originHead r"
      and fl: "faults w1 = faults w" and se: "SessionExists w1 ?s"
      by (auto simp: say_def did_def)
    have p1: "preserves (fs w) f1" using MkdirAll_preserves [of "fs w" "filepath_Dir ?cp"] m by simp
    have p2: "preserves f1 f2" using MkdirAll_preserves [of f1 ?cp] m2 by simp
    have "exists f2 (filepath_Join [?p, ''.git''])"
      using g p1 p2 by (auto simp: IsGitRepo_def intro: exists_preserved)
    then have 1: "IsGitRepo w1 ?p" using f by (simp add: IsGitRepo_def)
    have 2: "GetBaseBranch w1 ?p (DefaultBranch cfg) \<noteq> None"
      using GetBaseBranch_grow [OF r _ sub oh, of w1 "DefaultBranch cfg"] rr b by simp
    have "os_Stat f2 ?cp = Inr Directory" using m2 by (rule MkdirAll_dir)
    then have 3: "exists (fs w1) ?cp" using f by (simp add: exists_def)
    from 1 2 3 se fl show ?thesis by simp
  qed
  then show "IsGitRepo w1 ?p" "GetBaseBranch w1 ?p (DefaultBranch cfg) \<noteq> None"
    "exists (fs w1) ?cp" "SessionExists w1 ?s" "faults w1 = faults w"
    by simp_all
qed

lemma Add_attaches:
  assumes "ValidateCrewName name = None" "IsGitRepo w (GetRepoPath cfg rigName)"
    and "GetBaseBranch w (GetRepoPath cfg rigName) (DefaultBranch cfg) \<noteq> None"
    and "exists (fs w) (GetCrewPath cfg rigName name)"
    and "SessionExists w (GetCrewSessionName cfg rigName name)"
    and "FaultAttach \<notin> set (faults w)"
  shows "Add cfg w name rigName
     = (None, w\<lparr>trace := trace w @ [Said AlreadyRunning,
                   Did (AttachTo (NormalizeSessionName (GetCrewSessionName cfg rigName name)))],
                 attached := Some (NormalizeSessionName (GetCrewSessionName cfg rigName name))\<rparr>)"
proof -
  let ?s = "GetCrewSessionName cfg rigName name"
  have "AttachSession (say AlreadyRunning w) ?s (UseCC cfg)
      = (True, (say AlreadyRunning w)\<lparr>trace := trace (say AlreadyRunning w)
                   @ [Did (AttachTo (NormalizeSessionName ?s))],
                 attached := Some (NormalizeSessionName ?s)\<rparr>)"
    using assms(5,6) by (intro AttachSession_ok) (simp_all add: SessionExists_def)
  then have "addExisting cfg w ?s
      = (None, w\<lparr>trace := trace w @ [Said AlreadyRunning, Did (AttachTo (NormalizeSessionName ?s))],
                 attached := Some (NormalizeSessionName ?s)\<rparr>)"
    using assms(5) by (simp add: addExisting_def say_def)
  then show ?thesis
    using assms(1-4) by (auto simp: Add_def Let_def)
qed

lemma Add_recreates:
  assumes "ValidateCrewName name = None" "IsGitRepo w (GetRepoPath cfg rigName)"
    and "GetBaseBranch w (GetRepoPath cfg rigName) (DefaultBranch cfg) \<noteq> None"
    and "exists (fs w) (GetCrewPath cfg rigName name)"
    and "\<not> SessionExists w (GetCrewSessionName cfg rigName name)"
    and "FaultAttach \<notin> set (faults w)" and "set (sessionFaults (UseCC cfg)) \<inter> set (faults w) = {}"
  shows "Add cfg w name rigName
     = (None, w\<lparr>trace := trace w @ [Said ExistsNotRunning,
                   Did (NewSession (NormalizeSessionName (GetCrewSessionName cfg rigName name))),
                   Said SessionRecreated,
                   Did (AttachTo (NormalizeSessionName (GetCrewSessionName cfg rigName name)))],
                 sessions := sessions w @ [NormalizeSessionName (GetCrewSessionName cfg rigName name)],
                 attached := Some (NormalizeSessionName (GetCrewSessionName cfg rigName name))\<rparr>)"
proof -
  let ?s = "GetCrewSessionName cfg rigName name"
  let ?n = "NormalizeSessionName ?s"
  let ?w0 = "say ExistsNotRunning w"
  let ?w1 = "?w0\<lparr>trace := trace ?w0 @ [Did (NewSession ?n)], sessions := sessions ?w0 @ [?n]\<rparr>"
  have c: "CreateCrewSession ?w0 ?s (UseCC cfg) = (True, ?w1)"
    using assms(5,7) by (intro CreateCrewSession_ok) (simp_all add: SessionExists_def)
  let ?w2 = "say SessionRecreated ?w1"
  have a: "AttachSession ?w2 ?s (UseCC cfg)
      = (True, ?w2\<lparr>trace := trace ?w2 @ [Did (AttachTo ?n)], attached := Some ?n\<rparr>)"
    using assms(6) by (intro AttachSession_ok) (simp_all add: say_def)
  have "addExisting cfg w ?s
      = (None, ?w2\<lparr>trace := trace ?w2 @ [Did (AttachTo ?n)], attached := Some ?n\<rparr>)"
    using assms(5) c a by (simp add: addExisting_def)
  then have "addExisting cfg w ?s
      = (None, w\<lparr>trace := trace w @ [Said ExistsNotRunning, Did (NewSession ?n),
                   Said SessionRecreated, Did (AttachTo ?n)],
                 sessions := sessions w @ [?n], attached := Some ?n\<rparr>)"
    by (simp add: say_def)
  then show ?thesis
    using assms(1-4) by (auto simp: Add_def Let_def)
qed


lemmas crew_paths = GetRepoPath_def GetCrewPath_def GetCrewSessionName_def GetCrewBranchName_def

lemma addExisting_frame:
  "fs (snd (addExisting cfg w s)) = fs w \<and> repos (snd (addExisting cfg w s)) = repos w"
proof (cases "SessionExists w s")
  case True
  obtain ok wb where a: "AttachSession (say AlreadyRunning w) s (UseCC cfg) = (ok, wb)"
    by fastforce
  from AttachSession_frame [OF a] True a show ?thesis
    by (cases ok) (simp_all add: addExisting_def)
next
  case False
  obtain ok wa where c: "CreateCrewSession (say ExistsNotRunning w) s (UseCC cfg) = (ok, wa)"
    by fastforce
  obtain ok2 wb where a: "AttachSession (say SessionRecreated wa) s (UseCC cfg) = (ok2, wb)"
    by fastforce
  from CreateCrewSession_frame [OF c] AttachSession_frame [OF a] False c a show ?thesis
    by (cases ok; cases ok2) (simp_all add: addExisting_def)
qed

lemma Add_untouched:
  assumes "exists (fs w) (GetCrewPath cfg rigName name)"
  shows "fs (snd (Add cfg w name rigName)) = fs w \<and> repos (snd (Add cfg w name rigName)) = repos w"
  using assms addExisting_frame [of cfg w "GetCrewSessionName cfg rigName name"]
  by (auto simp: Add_def Let_def split: option.splits)

text \<open>A first call of \<open>Add\<close> for a worker without a branch of its own.\<close>

lemma Add_fresh:
  assumes "ValidateCrewName name = None" and "IsGitRepo w (GetRepoPath cfg rigName)"
    and "GetBaseBranch w (GetRepoPath cfg rigName) (DefaultBranch cfg) = Some base"
    and "\<not> exists (fs w) (GetCrewPath cfg rigName name)"
    and "os_MkdirAll (fs w) (filepath_Dir (GetCrewPath cfg rigName name)) = (None, f1)"
    and "\<not> exists f1 (GetCrewPath cfg rigName name)"
    and "os_MkdirAll f1 (GetCrewPath cfg rigName name) = (None, f2)"
    and "repos w (GetRepoPath cfg rigName) = Some r"
    and "GetCrewBranchName cfg name \<notin> set (branches r)" and "base \<in> set (branches r)"
    and "\<not> registered r (GetCrewPath cfg rigName name)"
    and "faults w = []" and "\<not> SessionExists w (GetCrewSessionName cfg rigName name)"
  shows "fst (Add cfg w name rigName) = None"
proof -
  let ?p = "GetRepoPath cfg rigName" and ?cp = "GetCrewPath cfg rigName name"
  let ?s = "GetCrewSessionName cfg rigName name" and ?b = "GetCrewBranchName cfg name"
  let ?wa = "say CreatingWorkspace ((did (MkdirAllOf (filepath_Dir ?cp)) w)\<lparr>fs := f1\<rparr>)"
  obtain wb where c: "CreateWorktree ?wa ?p ?cp ?b base = (True, wb)"
    and fb: "faults wb = []" "sessions wb = sessions w"
    using assms(6-12) by (simp add: CreateWorktree_def Let_def say_def did_def)
  let ?wc = "say WorkspaceCreated wb"
  let ?n = "NormalizeSessionName ?s"
  have cs: "CreateCrewSession ?wc ?s (UseCC cfg)
      = (True, ?wc\<lparr>trace := trace ?wc @ [Did (NewSession ?n)], sessions := sessions ?wc @ [?n]\<rparr>)"
    using fb assms(13) by (intro CreateCrewSession_ok) (simp_all add: SessionExists_def)
  let ?wd = "say SessionCreated (?wc\<lparr>trace := trace ?wc @ [Did (NewSession ?n)],
                 sessions := sessions ?wc @ [?n]\<rparr>)"
  have "AttachSession ?wd ?s (UseCC cfg)
      = (True, ?wd\<lparr>trace := trace ?wd @ [Did (AttachTo ?n)], attached := Some ?n\<rparr>)"
    using fb by (intro AttachSession_ok) simp_all
  then obtain wz where at: "AttachSession ?wd ?s (UseCC cfg) = (True, wz)" by blast
  have "fst (addSession cfg ?wc ?p ?cp ?s ?b) = None"
    unfolding addSession_def cs using at by simp
  then have "fst (addWorktree cfg ?wa ?p ?cp ?s ?b base) = None"
    using c assms(8,9) by (simp add: addWorktree_def BranchExists_def say_def did_def)
  then show ?thesis
    using assms(1-5) by (simp add: Add_def Let_def)
qed

text \<open>
  C2. \<open>Add\<close> is idempotent where the directory of the worktree is there.  With a live
  session it attaches and returns without error, and the world differs in the trace and the
  attached session only: no worktree, branch or session is made or changed.  Without a
  live session it makes the session only and attaches.  Whatever the outcome, the file
  system and the repositories are as before.  And after a call that returned without
  error, the directory is there and the session is live, so that a second call on the
  world the first one left only attaches: the same worktree, the same branch, one session.
\<close>

theorem Add_idempotent:
  "(ValidateCrewName name = None \<and> IsGitRepo wa (GetRepoPath cfg rigName)
      \<and> GetBaseBranch wa (GetRepoPath cfg rigName) (DefaultBranch cfg) \<noteq> None
      \<and> exists (fs wa) (GetCrewPath cfg rigName name)
      \<and> SessionExists wa (GetCrewSessionName cfg rigName name)
      \<and> FaultAttach \<notin> set (faults wa)
    \<longrightarrow> Add cfg wa name rigName
        = (None, wa\<lparr>trace := trace wa @ [Said AlreadyRunning,
                       Did (AttachTo (NormalizeSessionName (GetCrewSessionName cfg rigName name)))],
                     attached := Some (NormalizeSessionName (GetCrewSessionName cfg rigName name))\<rparr>))
   \<and> (ValidateCrewName name = None \<and> IsGitRepo wb (GetRepoPath cfg rigName)
      \<and> GetBaseBranch wb (GetRepoPath cfg rigName) (DefaultBranch cfg) \<noteq> None
      \<and> exists (fs wb) (GetCrewPath cfg rigName name)
      \<and> \<not> SessionExists wb (GetCrewSessionName cfg rigName name)
      \<and> FaultAttach \<notin> set (faults wb) \<and> set (sessionFaults (UseCC cfg)) \<inter> set (faults wb) = {}
    \<longrightarrow> Add cfg wb name rigName
        = (None, wb\<lparr>trace := trace wb @ [Said ExistsNotRunning,
                       Did (NewSession (NormalizeSessionName (GetCrewSessionName cfg rigName name))),
                       Said SessionRecreated,
                       Did (AttachTo (NormalizeSessionName (GetCrewSessionName cfg rigName name)))],
                     sessions := sessions wb
                       @ [NormalizeSessionName (GetCrewSessionName cfg rigName name)],
                     attached := Some (NormalizeSessionName (GetCrewSessionName cfg rigName name))\<rparr>))
   \<and> (exists (fs wc) (GetCrewPath cfg rigName name)
    \<longrightarrow> fs (snd (Add cfg wc name rigName)) = fs wc
        \<and> repos (snd (Add cfg wc name rigName)) = repos wc)
   \<and> (Add cfg w name rigName = (None, w1) \<and> FaultAttach \<notin> set (faults w)
    \<longrightarrow> exists (fs w1) (GetCrewPath cfg rigName name)
        \<and> SessionExists w1 (GetCrewSessionName cfg rigName name)
        \<and> Add cfg w1 name rigName
        = (None, w1\<lparr>trace := trace w1 @ [Said AlreadyRunning,
                       Did (AttachTo (NormalizeSessionName (GetCrewSessionName cfg rigName name)))],
                     attached := Some (NormalizeSessionName (GetCrewSessionName cfg rigName name))\<rparr>))"
proof (intro conjI impI)
  assume "ValidateCrewName name = None \<and> IsGitRepo wa (GetRepoPath cfg rigName)
      \<and> GetBaseBranch wa (GetRepoPath cfg rigName) (DefaultBranch cfg) \<noteq> None
      \<and> exists (fs wa) (GetCrewPath cfg rigName name)
      \<and> SessionExists wa (GetCrewSessionName cfg rigName name)
      \<and> FaultAttach \<notin> set (faults wa)"
  then show "Add cfg wa name rigName
        = (None, wa\<lparr>trace := trace wa @ [Said AlreadyRunning,
                       Did (AttachTo (NormalizeSessionName (GetCrewSessionName cfg rigName name)))],
                     attached := Some (NormalizeSessionName (GetCrewSessionName cfg rigName name))\<rparr>)"
    by (intro Add_attaches) simp_all
next
  assume "ValidateCrewName name = None \<and> IsGitRepo wb (GetRepoPath cfg rigName)
      \<and> GetBaseBranch wb (GetRepoPath cfg rigName) (DefaultBranch cfg) \<noteq> None
      \<and> exists (fs wb) (GetCrewPath cfg rigName name)
      \<and> \<not> SessionExists wb (GetCrewSessionName cfg rigName name)
      \<and> FaultAttach \<notin> set (faults wb) \<and> set (sessionFaults (UseCC cfg)) \<inter> set (faults wb) = {}"
  then show "Add cfg wb name rigName
        = (None, wb\<lparr>trace := trace wb @ [Said ExistsNotRunning,
                       Did (NewSession (NormalizeSessionName (GetCrewSessionName cfg rigName name))),
                       Said SessionRecreated,
                       Did (AttachTo (NormalizeSessionName (GetCrewSessionName cfg rigName name)))],
                     sessions := sessions wb
                       @ [NormalizeSessionName (GetCrewSessionName cfg rigName name)],
                     attached := Some (NormalizeSessionName (GetCrewSessionName cfg rigName name))\<rparr>)"
    by (intro Add_recreates) simp_all
next
  assume "exists (fs wc) (GetCrewPath cfg rigName name)"
  from Add_untouched [OF this]
  show "fs (snd (Add cfg wc name rigName)) = fs wc" "repos (snd (Add cfg wc name rigName)) = repos wc"
    by simp_all
next
  assume a: "Add cfg w name rigName = (None, w1) \<and> FaultAttach \<notin> set (faults w)"
  then have s: "Add cfg w name rigName = (None, w1)" by simp
  note p = Add_success [OF s]
  show "exists (fs w1) (GetCrewPath cfg rigName name)" by (rule p(4))
  show "SessionExists w1 (GetCrewSessionName cfg rigName name)" by (rule p(5))
  show "Add cfg w1 name rigName
        = (None, w1\<lparr>trace := trace w1 @ [Said AlreadyRunning,
                       Did (AttachTo (NormalizeSessionName (GetCrewSessionName cfg rigName name)))],
                     attached := Some (NormalizeSessionName (GetCrewSessionName cfg rigName name))\<rparr>)"
    using p a by (intro Add_attaches) simp_all
qed

lemmas sample_eval = sampleConfig_def sampleDisk_def sampleWorld_def sampleReuse_def sampleInside_def

lemma sample_valid: "ValidateCrewName ''tracy'' = None" "ValidateCrewName ''tracy.dev'' = None"
  by (simp_all add: ValidateCrewName_def isSpecial_def startsDotDash_def)

lemma sample_paths:
  "GetRepoPath sampleConfig ''notes'' = ''/home/u/git/notes''"
  "GetCrewPath sampleConfig ''notes'' ''tracy'' = ''/home/u/crew/notes/tracy''"
  "GetCrewPath sampleConfig ''notes'' ''tracy.dev'' = ''/home/u/crew/notes/tracy.dev''"
  "filepath_Dir ''/home/u/crew/notes/tracy'' = ''/home/u/crew/notes''"
  "filepath_Dir ''/home/u/crew/notes/tracy.dev'' = ''/home/u/crew/notes''"
  "filepath_Join [''/home/u/git/notes'', ''.git''] = ''/home/u/git/notes/.git''"
  "filepath_Clean ''/home/u/crew/notes/tracy'' = ''/home/u/crew/notes/tracy''"
  "filepath_Clean ''/home/u/crew/notes/tracy.dev'' = ''/home/u/crew/notes/tracy.dev''"
  by (simp_all add: crew_paths sampleConfig_def path_eval)

lemma sample_git:
  "IsGitRepo sampleWorld ''/home/u/git/notes''" "IsGitRepo sampleInside ''/home/u/git/notes''"
  "IsGitRepo sampleStopped ''/home/u/git/notes''" "IsGitRepo sampleReuse ''/home/u/git/notes''"
  by (simp_all add: IsGitRepo_def sample_eval sampleStopped_def fs_eval)

lemma sample_base:
  "GetBaseBranch sampleWorld ''/home/u/git/notes'' ''main'' = Some ''main''"
  "GetBaseBranch sampleInside ''/home/u/git/notes'' ''main'' = Some ''main''"
  "GetBaseBranch sampleStopped ''/home/u/git/notes'' ''main'' = Some ''main''"
  "GetBaseBranch sampleReuse ''/home/u/git/notes'' ''main'' = Some ''main''"
  by (simp_all add: GetBaseBranch_def BranchExists_def sample_eval sampleStopped_def)

lemma sample_dirs:
  "\<not> exists (fs sampleWorld) ''/home/u/crew/notes/tracy''"
  "exists (fs sampleInside) ''/home/u/crew/notes/tracy.dev''"
  "exists (fs sampleStopped) ''/home/u/crew/notes/tracy.dev''"
  by (simp_all add: sample_eval sampleStopped_def fs_eval)

lemma sample_mkdir:
  "os_MkdirAll sampleDisk ''/home/u/crew/notes'' = (None, sampleDisk @ [(''/home/u/crew/notes'', Directory)])"
  "\<not> exists (sampleDisk @ [(''/home/u/crew/notes'', Directory)]) ''/home/u/crew/notes/tracy''"
  "os_MkdirAll (sampleDisk @ [(''/home/u/crew/notes'', Directory)]) ''/home/u/crew/notes/tracy''
     = (None, sampleDisk @ [(''/home/u/crew/notes'', Directory), (''/home/u/crew/notes/tracy'', Directory)])"
  by (simp_all add: sample_eval fs_eval)

lemma sample_Add: "fst (Add sampleConfig sampleWorld ''tracy'' ''notes'') = None"
proof (rule Add_fresh)
  show "ValidateCrewName ''tracy'' = None" by (rule sample_valid)
  show "IsGitRepo sampleWorld (GetRepoPath sampleConfig ''notes'')"
    by (simp add: sample_paths sample_git)
  show "GetBaseBranch sampleWorld (GetRepoPath sampleConfig ''notes'') (DefaultBranch sampleConfig)
      = Some ''main''"
    using sample_base(1) by (simp add: sample_paths) (simp add: sampleConfig_def)
  show "\<not> exists (fs sampleWorld) (GetCrewPath sampleConfig ''notes'' ''tracy'')"
    by (simp add: sample_paths sample_dirs)
  show "os_MkdirAll (fs sampleWorld) (filepath_Dir (GetCrewPath sampleConfig ''notes'' ''tracy''))
      = (None, sampleDisk @ [(''/home/u/crew/notes'', Directory)])"
    using sample_mkdir(1) by (simp add: sample_paths) (simp add: sampleWorld_def)
  show "\<not> exists (sampleDisk @ [(''/home/u/crew/notes'', Directory)])
      (GetCrewPath sampleConfig ''notes'' ''tracy'')"
    by (simp add: sample_paths sample_mkdir)
  show "os_MkdirAll (sampleDisk @ [(''/home/u/crew/notes'', Directory)])
      (GetCrewPath sampleConfig ''notes'' ''tracy'')
     = (None, sampleDisk @ [(''/home/u/crew/notes'', Directory), (''/home/u/crew/notes/tracy'', Directory)])"
    by (simp add: sample_paths sample_mkdir)
  show "repos sampleWorld (GetRepoPath sampleConfig ''notes'')
      = Some \<lparr>mainBranch = ''main'', branches = [''main''], worktrees = [],
                  originHead = None, tip = (\<lambda>b. ''1a2b3c4'')\<rparr>"
    by (simp add: sample_paths) (simp add: sampleWorld_def)
  show "GetCrewBranchName sampleConfig ''tracy''
      \<notin> set (branches \<lparr>mainBranch = ''main'', branches = [''main''], worktrees = [],
                  originHead = None, tip = (\<lambda>b. ''1a2b3c4'')\<rparr>)"
    by (simp add: GetCrewBranchName_def)
  show "''main'' \<in> set (branches \<lparr>mainBranch = ''main'', branches = [''main''], worktrees = [],
                  originHead = None, tip = (\<lambda>b. ''1a2b3c4'')\<rparr>)"
    by simp
  show "\<not> registered \<lparr>mainBranch = ''main'', branches = [''main''], worktrees = [],
                  originHead = None, tip = (\<lambda>b. ''1a2b3c4'')\<rparr>
      (GetCrewPath sampleConfig ''notes'' ''tracy'')"
    by (simp add: registered_def)
  show "faults sampleWorld = []" by (simp add: sampleWorld_def)
  show "\<not> SessionExists sampleWorld (GetCrewSessionName sampleConfig ''notes'' ''tracy'')"
    by (simp add: SessionExists_def sampleWorld_def)
qed

lemma sample_sessions:
  "NormalizeSessionName (GetCrewSessionName sampleConfig ''notes'' ''tracy.dev'') = ''notes@tracy_dev''"
  "NormalizeSessionName (GetCrewSessionName sampleConfig ''notes'' ''tracy'') = ''notes@tracy''"
  by (simp_all add: NormalizeSessionName_def GetCrewSessionName_def)

lemma sample_frame:
  "trace sampleInside = []" "faults sampleInside = []" "sessions sampleInside = [''notes@tracy_dev'']"
  "trace sampleStopped = []" "faults sampleStopped = []" "sessions sampleStopped = []"
  "faults sampleWorld = []" "UseCC sampleConfig = False" "DefaultBranch sampleConfig = ''main''"
  by (simp_all add: sample_eval sampleStopped_def)

theorem Add_idempotent_witness:
  "Add sampleConfig sampleInside ''tracy.dev'' ''notes''
     = (None, sampleInside\<lparr>trace := [Said AlreadyRunning, Did (AttachTo ''notes@tracy_dev'')],
                            attached := Some ''notes@tracy_dev''\<rparr>)
   \<and> Add sampleConfig sampleStopped ''tracy.dev'' ''notes''
     = (None, sampleStopped\<lparr>trace := [Said ExistsNotRunning, Did (NewSession ''notes@tracy_dev''),
                                       Said SessionRecreated, Did (AttachTo ''notes@tracy_dev'')],
                             sessions := [''notes@tracy_dev''],
                             attached := Some ''notes@tracy_dev''\<rparr>)
   \<and> fs (snd (Add sampleConfig sampleStopped ''tracy.dev'' ''notes'')) = fs sampleStopped
   \<and> repos (snd (Add sampleConfig sampleStopped ''tracy.dev'' ''notes'')) = repos sampleStopped
   \<and> fst (Add sampleConfig sampleWorld ''tracy'' ''notes'') = None
   \<and> exists (fs (snd (Add sampleConfig sampleWorld ''tracy'' ''notes''))) ''/home/u/crew/notes/tracy''
   \<and> SessionExists (snd (Add sampleConfig sampleWorld ''tracy'' ''notes'')) ''notes@tracy''
   \<and> Add sampleConfig (snd (Add sampleConfig sampleWorld ''tracy'' ''notes'')) ''tracy'' ''notes''
     = (None, (snd (Add sampleConfig sampleWorld ''tracy'' ''notes''))
                \<lparr>trace := trace (snd (Add sampleConfig sampleWorld ''tracy'' ''notes''))
                     @ [Said AlreadyRunning, Did (AttachTo ''notes@tracy'')],
                  attached := Some ''notes@tracy''\<rparr>)"
proof -
  note t = Add_idempotent [of "''tracy.dev''" sampleInside sampleConfig "''notes''" sampleStopped
      sampleStopped]
  have hA: "ValidateCrewName ''tracy.dev'' = None
      \<and> IsGitRepo sampleInside (GetRepoPath sampleConfig ''notes'')
      \<and> GetBaseBranch sampleInside (GetRepoPath sampleConfig ''notes'') (DefaultBranch sampleConfig)
          \<noteq> None
      \<and> exists (fs sampleInside) (GetCrewPath sampleConfig ''notes'' ''tracy.dev'')
      \<and> SessionExists sampleInside (GetCrewSessionName sampleConfig ''notes'' ''tracy.dev'')
      \<and> FaultAttach \<notin> set (faults sampleInside)"
    by (simp add: sample_valid sample_paths sample_git sample_base sample_dirs sample_frame
        SessionExists_def sample_sessions)
  have hB: "ValidateCrewName ''tracy.dev'' = None
      \<and> IsGitRepo sampleStopped (GetRepoPath sampleConfig ''notes'')
      \<and> GetBaseBranch sampleStopped (GetRepoPath sampleConfig ''notes'') (DefaultBranch sampleConfig)
          \<noteq> None
      \<and> exists (fs sampleStopped) (GetCrewPath sampleConfig ''notes'' ''tracy.dev'')
      \<and> \<not> SessionExists sampleStopped (GetCrewSessionName sampleConfig ''notes'' ''tracy.dev'')
      \<and> FaultAttach \<notin> set (faults sampleStopped)
      \<and> set (sessionFaults (UseCC sampleConfig)) \<inter> set (faults sampleStopped) = {}"
    by (simp add: sample_valid sample_paths sample_git sample_base sample_dirs sample_frame
        SessionExists_def sample_sessions)
  have hC: "exists (fs sampleStopped) (GetCrewPath sampleConfig ''notes'' ''tracy.dev'')"
    by (simp add: sample_paths sample_dirs)
  from t hA have cA: "Add sampleConfig sampleInside ''tracy.dev'' ''notes''
     = (None, sampleInside\<lparr>trace := trace sampleInside @ [Said AlreadyRunning,
          Did (AttachTo (NormalizeSessionName (GetCrewSessionName sampleConfig ''notes'' ''tracy.dev'')))],
         attached := Some (NormalizeSessionName (GetCrewSessionName sampleConfig ''notes'' ''tracy.dev''))\<rparr>)"
    by blast
  from t hB have cB: "Add sampleConfig sampleStopped ''tracy.dev'' ''notes''
     = (None, sampleStopped\<lparr>trace := trace sampleStopped @ [Said ExistsNotRunning,
          Did (NewSession (NormalizeSessionName (GetCrewSessionName sampleConfig ''notes'' ''tracy.dev''))),
          Said SessionRecreated,
          Did (AttachTo (NormalizeSessionName (GetCrewSessionName sampleConfig ''notes'' ''tracy.dev'')))],
         sessions := sessions sampleStopped
           @ [NormalizeSessionName (GetCrewSessionName sampleConfig ''notes'' ''tracy.dev'')],
         attached := Some (NormalizeSessionName (GetCrewSessionName sampleConfig ''notes'' ''tracy.dev''))\<rparr>)"
    by blast
  from t hC have cC: "fs (snd (Add sampleConfig sampleStopped ''tracy.dev'' ''notes'')) = fs sampleStopped
      \<and> repos (snd (Add sampleConfig sampleStopped ''tracy.dev'' ''notes'')) = repos sampleStopped"
    by blast
  let ?w1 = "snd (Add sampleConfig sampleWorld ''tracy'' ''notes'')"
  have hD: "Add sampleConfig sampleWorld ''tracy'' ''notes'' = (None, ?w1)
      \<and> FaultAttach \<notin> set (faults sampleWorld)"
    using sample_Add by (simp add: prod_eq_iff sample_frame)
  note u = Add_idempotent [of "''tracy''" _ sampleConfig "''notes''" _ _ sampleWorld ?w1]
  from u hD have cD: "exists (fs ?w1) (GetCrewPath sampleConfig ''notes'' ''tracy'')
      \<and> SessionExists ?w1 (GetCrewSessionName sampleConfig ''notes'' ''tracy'')
      \<and> Add sampleConfig ?w1 ''tracy'' ''notes''
        = (None, ?w1\<lparr>trace := trace ?w1 @ [Said AlreadyRunning,
            Did (AttachTo (NormalizeSessionName (GetCrewSessionName sampleConfig ''notes'' ''tracy'')))],
           attached := Some (NormalizeSessionName (GetCrewSessionName sampleConfig ''notes'' ''tracy''))\<rparr>)"
    by blast
  have s1: "SessionExists ?w1 ''notes@tracy''"
    using cD by (simp add: SessionExists_def GetCrewSessionName_def NormalizeSessionName_def)
  show ?thesis
    using cA cB cC cD sample_Add s1 by (simp add: sample_sessions sample_frame sample_paths)
qed

lemma sample_current: "GetCurrentSession sampleInside = ''notes@tracy_dev''"
  by (simp add: GetCurrentSession_def sample_eval strings_TrimSpace_def asciiSpace_def space2_def
      space3_def)

lemma sample_registered:
  "WorktreeExists sampleInside ''/home/u/git/notes'' ''/home/u/crew/notes/tracy.dev''"
  by (simp add: WorktreeExists_def worktreeList_def sample_eval NL_def)


lemma sample_Remove_head:
  "Remove sampleConfig sampleInside ''tracy.dev'' ''notes''
     = removePresent sampleInside ''/home/u/git/notes'' ''/home/u/crew/notes/tracy.dev''
         ''notes@tracy.dev'' ''tracy.dev/work'' True"
  unfolding Remove_def sample_valid sample_paths option.case Let_def
  by (simp add: sample_git sample_dirs sample_registered GetCrewSessionName_def
      GetCrewBranchName_def)

section \<open>Properties of Remove\<close>

lemma ask_answer: "fs w1 = fs w \<Longrightarrow> stdin w1 = stdin w \<Longrightarrow> fst (ask q w1) = fst (ask q w)"
  by (simp add: ask_def split: list.splits)

lemma ask_trace: "trace (snd (ask q w)) = trace w @ [Asked q]"
  by (simp add: ask_def split: list.splits)

lemma ask_same:
  "fs (snd (ask q w)) = fs w" "repos (snd (ask q w)) = repos w"
  "sessions (snd (ask q w)) = sessions w" "faults (snd (ask q w)) = faults w"
  "inside (snd (ask q w)) = inside w"
  by (simp_all add: ask_def split: list.splits)

lemma KillSession_trace:
  "trace (snd (KillSession w s)) = trace w @ [Did (KillSessionOf (NormalizeSessionName s))]"
  by (simp add: KillSession_def Let_def did_def)

lemma KillSession_same:
  "fs (snd (KillSession w s)) = fs w" "repos (snd (KillSession w s)) = repos w"
  "stdin (snd (KillSession w s)) = stdin w" "faults (snd (KillSession w s)) = faults w"
  by (simp_all add: KillSession_def Let_def did_def)


lemma RemoveWorktree_trace:
  "trace (snd (RemoveWorktree w p cp)) = trace w @ [Did (WorktreeRemove cp)]"
  by (simp add: RemoveWorktree_def Let_def did_def split: option.splits)

lemma RemoveWorktree_same:
  "sessions (snd (RemoveWorktree w p cp)) = sessions w"
  "stdin (snd (RemoveWorktree w p cp)) = stdin w" "faults (snd (RemoveWorktree w p cp)) = faults w"
  by (simp_all add: RemoveWorktree_def Let_def did_def split: option.splits)

lemma RemoveWorktree_fs:
  "fs w1 = fs w \<Longrightarrow> repos w1 = repos w \<Longrightarrow>
   fs (snd (RemoveWorktree w1 p cp)) = fs (snd (RemoveWorktree w p cp))"
  by (simp add: RemoveWorktree_def Let_def did_def split: option.splits)

lemma PruneWorktrees_trace: "trace (snd (PruneWorktrees w p)) = trace w @ [Did WorktreePrune]"
  by (simp add: PruneWorktrees_def Let_def did_def split: option.splits)

lemma PruneWorktrees_same:
  "fs (snd (PruneWorktrees w p)) = fs w" "sessions (snd (PruneWorktrees w p)) = sessions w"
  "stdin (snd (PruneWorktrees w p)) = stdin w" "faults (snd (PruneWorktrees w p)) = faults w"
  by (simp_all add: PruneWorktrees_def Let_def did_def split: option.splits)

lemma DeleteBranch_trace:
  "trace (snd (DeleteBranch w p b)) = trace w @ [Did (BranchDelete b)]"
  by (simp add: DeleteBranch_def Let_def did_def split: option.splits)

lemma DeleteBranch_same:
  "fs (snd (DeleteBranch w p b)) = fs w" "sessions (snd (DeleteBranch w p b)) = sessions w"
  "stdin (snd (DeleteBranch w p b)) = stdin w" "faults (snd (DeleteBranch w p b)) = faults w"
  by (simp_all add: DeleteBranch_def Let_def did_def split: option.splits)

lemma SessionExists_frame: "sessions w1 = sessions w \<Longrightarrow> SessionExists w1 = SessionExists w"
  by (intro ext) (simp add: SessionExists_def)

text \<open>What \<open>Remove\<close> says, asks and does for a worktree that is there, in order.\<close>

lemma removePresent_trace:
  "trace (snd (removePresent w p cp s b d)) = trace w
     @ (if SessionExists w s \<and> GetCurrentSession w = s then [Said InsideSessionWarning] else [])
     @ (if BranchExists w p b then [Asked DeleteBranchQuestion] else [])
     @ (if SessionExists w s
        then [Said KillingSession, Did (KillSessionOf (NormalizeSessionName s))] else [])
     @ (if d then [Said RemovingWorktree, Did (WorktreeRemove cp)] else [])
     @ [Did WorktreePrune]
     @ (if BranchExists w p b \<and> \<not> saysNo (fst (ask DeleteBranchQuestion w))
        then [Did (BranchDelete b), Said BranchDeleted] else [])
     @ (if os_ReadDir (if d then fs (snd (RemoveWorktree w p cp)) else fs w) (filepath_Dir cp)
            = Inr []
        then [Did (RemoveOf (filepath_Dir cp)), Said RemovedEmptyDirectory] else [])
     @ [Said WorkspaceRemoved]"
proof -
  define w1 where "w1 = (if SessionExists w s \<and> GetCurrentSession w = s
                then say InsideSessionWarning w else w)"
  define dw where "dw = (if BranchExists w1 p b then
                (case ask DeleteBranchQuestion w1 of
                   (response, wa) \<Rightarrow> (\<not> saysNo response, wa))
              else (False, w1))"
  define w3 where "w3 = (if SessionExists (snd dw) s
                then snd (KillSession (say KillingSession (snd dw)) s) else snd dw)"
  define w4 where "w4 = (if d then snd (RemoveWorktree (say RemovingWorktree w3) p cp) else w3)"
  define w5 where "w5 = snd (PruneWorktrees w4 p)"
  define w6 where "w6 = (if fst dw then say BranchDeleted (snd (DeleteBranch w5 p b)) else w5)"
  define w7 where "w7 = (case os_ReadDir (fs w6) (filepath_Dir cp) of
                  Inr [] \<Rightarrow>
                    say RemovedEmptyDirectory
                      ((did (RemoveOf (filepath_Dir cp)) w6)
                         \<lparr>fs := snd (os_Remove (fs w6) (filepath_Dir cp))\<rparr>)
                | _ \<Rightarrow> w6)"
  have r: "removePresent w p cp s b d = (None, say WorkspaceRemoved w7)"
    unfolding removePresent_def Let_def case_prod_beta w7_def w6_def w5_def w4_def w3_def dw_def
      w1_def
    by (rule refl)
  have f1: "fs w1 = fs w" "repos w1 = repos w" "sessions w1 = sessions w" "stdin w1 = stdin w"
    by (simp_all add: w1_def)
  have b1: "BranchExists w1 = BranchExists w" using f1 by (intro BranchExists_frame)
  have a1: "fst (ask DeleteBranchQuestion w1) = fst (ask DeleteBranchQuestion w)"
    using f1 by (intro ask_answer)
  have del: "fst dw = (BranchExists w p b \<and> \<not> saysNo (fst (ask DeleteBranchQuestion w)))"
    by (simp add: dw_def b1 a1 [symmetric] split: prod.splits)
  have w2: "snd dw = (if BranchExists w p b then snd (ask DeleteBranchQuestion w1) else w1)"
    by (simp add: dw_def b1 split: prod.splits)
  have f2: "fs (snd dw) = fs w" "repos (snd dw) = repos w" "sessions (snd dw) = sessions w"
    by (simp_all add: w2 f1 ask_same)
  have s2: "SessionExists (snd dw) = SessionExists w" using f2 by (intro SessionExists_frame)
  have f3: "fs w3 = fs w" "repos w3 = repos w"
    by (simp_all add: w3_def f2 KillSession_same)
  have f4: "fs w4 = (if d then fs (snd (RemoveWorktree w p cp)) else fs w)"
    using RemoveWorktree_fs [of "say RemovingWorktree w3" w p cp] by (simp add: w4_def f3)
  have f6: "fs w6 = fs w4" by (simp add: w6_def w5_def PruneWorktrees_same DeleteBranch_same)
  have t1: "trace w1 = trace w
      @ (if SessionExists w s \<and> GetCurrentSession w = s then [Said InsideSessionWarning] else [])"
    by (simp add: w1_def)
  have t2: "trace (snd dw)
      = trace w1 @ (if BranchExists w p b then [Asked DeleteBranchQuestion] else [])"
    by (simp add: w2 ask_trace)
  have t3: "trace w3 = trace (snd dw) @ (if SessionExists w s
        then [Said KillingSession, Did (KillSessionOf (NormalizeSessionName s))] else [])"
    by (simp add: w3_def s2 KillSession_trace)
  have t4: "trace w4 = trace w3 @ (if d then [Said RemovingWorktree, Did (WorktreeRemove cp)] else [])"
    by (simp add: w4_def RemoveWorktree_trace)
  have t5: "trace w5 = trace w4 @ [Did WorktreePrune]"
    by (simp add: w5_def PruneWorktrees_trace)
  have t6: "trace w6 = trace w5 @ (if fst dw then [Did (BranchDelete b), Said BranchDeleted] else [])"
    by (simp add: w6_def DeleteBranch_trace)
  have t7: "trace w7 = trace w6 @ (if os_ReadDir (fs w6) (filepath_Dir cp) = Inr []
        then [Did (RemoveOf (filepath_Dir cp)), Said RemovedEmptyDirectory] else [])"
    by (simp add: w7_def split: sum.splits list.splits)
  show ?thesis
    unfolding r by (simp add: t7 t6 t5 t4 t3 t2 t1 f6 f4 del)
qed

lemma removePresent_ok: "fst (removePresent w p cp s b d) = None"
  by (simp add: removePresent_def Let_def case_prod_beta)

lemma NormalizeSessionName_idem:
  "NormalizeSessionName (NormalizeSessionName s) = NormalizeSessionName s"
  by (simp add: NormalizeSessionName_def)

lemma sample_inside_fields:
  "fs sampleInside = sampleDisk @ [(''/home/u/crew/notes'', Directory),
                           (''/home/u/crew/notes/tracy.dev'', Directory)]"
  "repos sampleInside ''/home/u/git/notes''
     = Some \<lparr>mainBranch = ''main'', branches = [''main'', ''tracy.dev/work''],
                  worktrees = [(''/home/u/crew/notes/tracy.dev'', ''tracy.dev/work'')],
                  originHead = None, tip = (\<lambda>b. ''1a2b3c4'')\<rparr>"
  "stdin sampleInside = [''n'']"
  by (simp_all add: sample_eval)

lemma sample_inside_removed:
  "fs (snd (RemoveWorktree sampleInside ''/home/u/git/notes'' ''/home/u/crew/notes/tracy.dev''))
     = sampleDisk @ [(''/home/u/crew/notes'', Directory)]"
  by (simp add: RemoveWorktree_def Let_def sample_inside_fields registered_def sample_paths
      sample_dirs [unfolded sample_inside_fields] removeTree_def)
     (simp add: sampleDisk_def)

lemma sample_inside_parent:
  "os_ReadDir (sampleDisk @ [(''/home/u/crew/notes'', Directory)]) ''/home/u/crew/notes'' = Inr []"
  by (simp add: os_ReadDir_def entries_def sampleDisk_def fs_eval)

text \<open>
  C8. The three session commands normalise the name they are given, so each behaves on a
  name as on its normal form.  \<open>Remove\<close> does not normalise the name it compares with
  the current session.  Evaluated for the worker \<open>tracy.dev\<close> of \<open>notes\<close>, removed from
  inside its own live session \<open>notes@tracy_dev\<close>: the session is live, the current session
  is the normal form of the session name, the removal succeeds and kills the session, and
  no warning is said.
\<close>

theorem Remove_inside_unnormalised:
  "SessionExists w (NormalizeSessionName s) = SessionExists w s
   \<and> KillSession w (NormalizeSessionName s) = KillSession w s
   \<and> AttachSession w (NormalizeSessionName s) useCC = AttachSession w s useCC
   \<and> SessionExists sampleInside (GetCrewSessionName sampleConfig ''notes'' ''tracy.dev'')
   \<and> GetCurrentSession sampleInside
       = NormalizeSessionName (GetCrewSessionName sampleConfig ''notes'' ''tracy.dev'')
   \<and> fst (Remove sampleConfig sampleInside ''tracy.dev'' ''notes'') = None
   \<and> trace (snd (Remove sampleConfig sampleInside ''tracy.dev'' ''notes''))
       = [Asked DeleteBranchQuestion, Said KillingSession, Did (KillSessionOf ''notes@tracy_dev''),
          Said RemovingWorktree, Did (WorktreeRemove ''/home/u/crew/notes/tracy.dev''),
          Did WorktreePrune, Did (RemoveOf ''/home/u/crew/notes''), Said RemovedEmptyDirectory,
          Said WorkspaceRemoved]"
proof -
  have n: "SessionExists w (NormalizeSessionName s) = SessionExists w s
      \<and> KillSession w (NormalizeSessionName s) = KillSession w s
      \<and> AttachSession w (NormalizeSessionName s) useCC = AttachSession w s useCC"
    by (simp add: SessionExists_def KillSession_def AttachSession_def NormalizeSessionName_idem)
  have e: "SessionExists sampleInside ''notes@tracy.dev''"
    by (simp add: SessionExists_def NormalizeSessionName_def sample_frame)
  have b: "BranchExists sampleInside ''/home/u/git/notes'' ''tracy.dev/work''"
    by (simp add: BranchExists_def sample_inside_fields)
  have a: "saysNo (fst (ask DeleteBranchQuestion sampleInside))"
    by (simp add: ask_def sample_inside_fields saysNo_def)
  have t: "trace (snd (Remove sampleConfig sampleInside ''tracy.dev'' ''notes''))
       = [Asked DeleteBranchQuestion, Said KillingSession, Did (KillSessionOf ''notes@tracy_dev''),
          Said RemovingWorktree, Did (WorktreeRemove ''/home/u/crew/notes/tracy.dev''),
          Did WorktreePrune, Did (RemoveOf ''/home/u/crew/notes''), Said RemovedEmptyDirectory,
          Said WorkspaceRemoved]"
    unfolding sample_Remove_head removePresent_trace
    by (simp add: e b a sample_current sample_inside_removed sample_inside_parent sample_paths
        sample_frame) (simp add: NormalizeSessionName_def)
  show ?thesis
    using n e t
    by (simp add: sample_Remove_head removePresent_ok sample_current GetCrewSessionName_def)
       (simp add: NormalizeSessionName_def)
qed


section \<open>Failures in Add\<close>

lemma CreateWorktreeFromExisting_ok:
  assumes "repos w p = Some r" and "FaultWorktreeAdd \<notin> set (faults w)"
    and "b \<in> set (branches r)" and "\<not> checkedOut r b" and "\<not> registered r cp"
    and "\<not> exists (fs w) cp" and "os_MkdirAll (fs w) cp = (None, f2)"
  shows "CreateWorktreeFromExisting w p cp b
     = (FaultWorktreeAddPartial \<notin> set (faults w),
        w\<lparr>trace := trace w @ [Did (WorktreeAddExisting cp b)], fs := f2,
          repos := (repos w)(p \<mapsto> r\<lparr>worktrees := worktrees r @ [(filepath_Clean cp, b)]\<rparr>)\<rparr>)"
  using assms by (simp add: CreateWorktreeFromExisting_def Let_def did_def)

lemma CreateCrewSession_fails:
  "FaultNewSession \<in> set (faults w) \<Longrightarrow>
   CreateCrewSession w s cc
     = (False, w\<lparr>trace := trace w @ [Did (NewSession (NormalizeSessionName s))]\<rparr>)"
  by (simp add: CreateCrewSession_def createCrewSessionNative_def createCrewSessionCC_def
      newSession_def Let_def did_def)

lemma cleanupWorktree_trace:
  "trace (cleanupWorktree w p cp b)
     = trace w @ [Did (WorktreeRemove cp), Did WorktreePrune, Did (BranchDelete b)]"
  by (simp add: cleanupWorktree_def Let_def DeleteBranch_trace PruneWorktrees_trace
      RemoveWorktree_trace)

lemma cleanupWorktree_same:
  "sessions (cleanupWorktree w p cp b) = sessions w" "faults (cleanupWorktree w p cp b) = faults w"
  by (simp_all add: cleanupWorktree_def Let_def DeleteBranch_same PruneWorktrees_same
      RemoveWorktree_same)

text \<open>The cleanup deletes the branch of the worktree, whoever made it, when no other
  working tree has it checked out.\<close>

lemma cleanupWorktree_deletes:
  assumes "repos w p = Some r" and "mainBranch r \<noteq> b"
    and "\<forall>(q, c) \<in> set (worktrees r). c = b \<longrightarrow> q = filepath_Clean cp"
  shows "\<not> BranchExists (cleanupWorktree w p cp b) p b"
proof -
  define w1 where "w1 = snd (RemoveWorktree w p cp)"
  have "\<exists>r1. repos w1 p = Some r1 \<and> mainBranch r1 = mainBranch r
      \<and> branches r1 = branches r \<and> (\<forall>(q, c) \<in> set (worktrees r1). c \<noteq> b)"
  proof (cases "registered r cp")
    case True
    then show ?thesis
      using assms by (auto simp: w1_def RemoveWorktree_def Let_def did_def)
  next
    case False
    then have "\<forall>(q, c) \<in> set (worktrees r). c \<noteq> b"
      using assms(3) by (fastforce simp: registered_def image_iff)
    then show ?thesis
      using assms(1) False by (simp add: w1_def RemoveWorktree_def Let_def did_def)
  qed
  then obtain r1 where r1: "repos w1 p = Some r1" "mainBranch r1 = mainBranch r"
      "branches r1 = branches r" "\<forall>(q, c) \<in> set (worktrees r1). c \<noteq> b"
    by blast
  define w2 where "w2 = snd (PruneWorktrees w1 p)"
  have "\<exists>r2. repos w2 p = Some r2 \<and> mainBranch r2 = mainBranch r
      \<and> branches r2 = branches r \<and> (\<forall>(q, c) \<in> set (worktrees r2). c \<noteq> b)"
    using r1 by (auto simp: w2_def PruneWorktrees_def Let_def did_def)
  then obtain r2 where r2: "repos w2 p = Some r2" "mainBranch r2 = mainBranch r"
      "branches r2 = branches r" "\<forall>(q, c) \<in> set (worktrees r2). c \<noteq> b"
    by blast
  have "\<not> checkedOut r2 b" using r2 assms(2) by (auto simp: checkedOut_def)
  then have "\<not> BranchExists (snd (DeleteBranch w2 p b)) p b"
    using r2 by (auto simp: DeleteBranch_def Let_def did_def BranchExists_def)
  then show ?thesis by (simp add: cleanupWorktree_def Let_def w1_def w2_def)
qed

text \<open>\<open>Add\<close> up to the creation of the worktree, for a branch that is there and is taken.\<close>

lemma Add_reuse:
  assumes "ValidateCrewName name = None" and "IsGitRepo w (GetRepoPath cfg rigName)"
    and "GetBaseBranch w (GetRepoPath cfg rigName) (DefaultBranch cfg) = Some base"
    and "\<not> exists (fs w) (GetCrewPath cfg rigName name)"
    and "os_MkdirAll (fs w) (filepath_Dir (GetCrewPath cfg rigName name)) = (None, f1)"
    and "\<not> exists f1 (GetCrewPath cfg rigName name)"
    and "os_MkdirAll f1 (GetCrewPath cfg rigName name) = (None, f2)"
    and "repos w (GetRepoPath cfg rigName) = Some r"
    and "GetCrewBranchName cfg name \<in> set (branches r)"
    and "\<not> checkedOut r (GetCrewBranchName cfg name)"
    and "\<not> registered r (GetCrewPath cfg rigName name)"
    and "\<not> saysNo (fst (ask UseExistingBranch w))"
    and "FaultWorktreeAdd \<notin> set (faults w)"
  shows "Add cfg w name rigName
     = (if FaultWorktreeAddPartial \<in> set (faults w) then Pair (Some WorktreeCreationFailed)
        else (\<lambda>w2. addSession cfg (say WorkspaceCreated w2) (GetRepoPath cfg rigName)
                (GetCrewPath cfg rigName name) (GetCrewSessionName cfg rigName name)
                (GetCrewBranchName cfg name)))
       (w\<lparr>trace := trace w @ [Did (MkdirAllOf (filepath_Dir (GetCrewPath cfg rigName name))),
              Said CreatingWorkspace, Said BranchAlreadyExists, Asked UseExistingBranch,
              Did (WorktreeAddExisting (GetCrewPath cfg rigName name) (GetCrewBranchName cfg name))],
           stdin := tl (stdin w), fs := f2,
           repos := (repos w)(GetRepoPath cfg rigName \<mapsto>
              r\<lparr>worktrees := worktrees r
                 @ [(filepath_Clean (GetCrewPath cfg rigName name), GetCrewBranchName cfg name)]\<rparr>)\<rparr>)"
proof -
  let ?p = "GetRepoPath cfg rigName" and ?cp = "GetCrewPath cfg rigName name"
  let ?s = "GetCrewSessionName cfg rigName name" and ?b = "GetCrewBranchName cfg name"
  let ?wa = "say CreatingWorkspace ((did (MkdirAllOf (filepath_Dir ?cp)) w)\<lparr>fs := f1\<rparr>)"
  define wq where "wq = w\<lparr>trace := trace w @ [Did (MkdirAllOf (filepath_Dir ?cp)),
              Said CreatingWorkspace, Said BranchAlreadyExists, Asked UseExistingBranch],
           stdin := tl (stdin w), fs := f1\<rparr>"
  have q: "ask UseExistingBranch (say BranchAlreadyExists ?wa)
      = (fst (ask UseExistingBranch w), wq)"
    by (simp add: wq_def ask_def say_def did_def split: list.splits)
  have f: "repos wq = repos w" "faults wq = faults w" "fs wq = f1" by (simp_all add: wq_def)
  have c: "CreateWorktreeFromExisting wq ?p ?cp ?b
     = (FaultWorktreeAddPartial \<notin> set (faults wq),
        wq\<lparr>trace := trace wq @ [Did (WorktreeAddExisting ?cp ?b)], fs := f2,
          repos := (repos wq)(?p \<mapsto> r\<lparr>worktrees := worktrees r @ [(filepath_Clean ?cp, ?b)]\<rparr>)\<rparr>)"
    using assms(6-11,13) by (intro CreateWorktreeFromExisting_ok) (simp_all add: f)
  have b: "BranchExists ?wa ?p ?b"
    using assms(8,9) by (simp add: BranchExists_def say_def did_def)
  have "addWorktree cfg ?wa ?p ?cp ?s ?b base
     = (if FaultWorktreeAddPartial \<in> set (faults w) then Pair (Some WorktreeCreationFailed)
        else (\<lambda>w2. addSession cfg (say WorkspaceCreated w2) ?p ?cp ?s ?b))
       (wq\<lparr>trace := trace wq @ [Did (WorktreeAddExisting ?cp ?b)], fs := f2,
          repos := (repos wq)(?p \<mapsto> r\<lparr>worktrees := worktrees r @ [(filepath_Clean ?cp, ?b)]\<rparr>)\<rparr>)"
    using assms(12) by (simp add: addWorktree_def b q c f del: fun_upd_apply)
  then have "Add cfg w name rigName
     = (if FaultWorktreeAddPartial \<in> set (faults w) then Pair (Some WorktreeCreationFailed)
        else (\<lambda>w2. addSession cfg (say WorkspaceCreated w2) ?p ?cp ?s ?b))
       (wq\<lparr>trace := trace wq @ [Did (WorktreeAddExisting ?cp ?b)], fs := f2,
          repos := (repos wq)(?p \<mapsto> r\<lparr>worktrees := worktrees r @ [(filepath_Clean ?cp, ?b)]\<rparr>)\<rparr>)"
    using assms(1-5) by (simp add: Add_def Let_def)
  also have "wq\<lparr>trace := trace wq @ [Did (WorktreeAddExisting ?cp ?b)], fs := f2,
          repos := (repos wq)(?p \<mapsto> r\<lparr>worktrees := worktrees r @ [(filepath_Clean ?cp, ?b)]\<rparr>)\<rparr>
      = w\<lparr>trace := trace w @ [Did (MkdirAllOf (filepath_Dir ?cp)),
              Said CreatingWorkspace, Said BranchAlreadyExists, Asked UseExistingBranch,
              Did (WorktreeAddExisting ?cp ?b)],
           stdin := tl (stdin w), fs := f2,
           repos := (repos w)(?p \<mapsto> r\<lparr>worktrees := worktrees r @ [(filepath_Clean ?cp, ?b)]\<rparr>)\<rparr>"
    by (simp add: wq_def)
  finally show ?thesis .
qed

lemma IsGitRepo_frame: "fs w1 = fs w \<Longrightarrow> IsGitRepo w1 = IsGitRepo w"
  by (intro ext) (simp add: IsGitRepo_def)

lemma sample_reuse_fields:
  "fs sampleReuse = sampleDisk" "stdin sampleReuse = [''y'']" "trace sampleReuse = []"
  "sessions sampleReuse = []"
  "repos sampleReuse = [''/home/u/git/notes'' \<mapsto>
                 \<lparr>mainBranch = ''main'', branches = [''main'', ''tracy/work''], worktrees = [],
                  originHead = None, tip = (\<lambda>b. ''1a2b3c4'')\<rparr>]"
  by (simp_all add: sampleReuse_def sampleWorld_def)

text \<open>\<open>Add\<close> for the worker \<open>tracy\<close> whose branch is left from earlier work, up to the
  creation of the worktree, whatever fails later.\<close>

lemma sample_reuse_Add:
  assumes "FaultWorktreeAdd \<notin> set F"
  shows "Add sampleConfig (sampleReuse\<lparr>faults := F\<rparr>) ''tracy'' ''notes''
     = (if FaultWorktreeAddPartial \<in> set F then Pair (Some WorktreeCreationFailed)
        else (\<lambda>w2. addSession sampleConfig (say WorkspaceCreated w2) ''/home/u/git/notes''
                ''/home/u/crew/notes/tracy'' ''notes@tracy'' ''tracy/work''))
       (sampleReuse\<lparr>faults := F,
           trace := [Did (MkdirAllOf ''/home/u/crew/notes''),
              Said CreatingWorkspace, Said BranchAlreadyExists, Asked UseExistingBranch,
              Did (WorktreeAddExisting ''/home/u/crew/notes/tracy'' ''tracy/work'')],
           stdin := [],
           fs := sampleDisk @ [(''/home/u/crew/notes'', Directory),
                               (''/home/u/crew/notes/tracy'', Directory)],
           repos := [''/home/u/git/notes'' \<mapsto>
                 \<lparr>mainBranch = ''main'', branches = [''main'', ''tracy/work''],
                  worktrees = [(''/home/u/crew/notes/tracy'', ''tracy/work'')],
                  originHead = None, tip = (\<lambda>b. ''1a2b3c4'')\<rparr>]\<rparr>)"
proof -
  let ?w = "sampleReuse\<lparr>faults := F\<rparr>"
  let ?r = "\<lparr>mainBranch = ''main'', branches = [''main'', ''tracy/work''], worktrees = [],
                  originHead = None, tip = (\<lambda>b. ''1a2b3c4'')\<rparr>"
  have g: "IsGitRepo ?w = IsGitRepo sampleReuse" by (intro IsGitRepo_frame) simp
  have b: "GetBaseBranch ?w ''/home/u/git/notes'' ''main''
      = GetBaseBranch sampleReuse ''/home/u/git/notes'' ''main''"
    by (intro GetBaseBranch_frame) simp
  have "Add sampleConfig ?w ''tracy'' ''notes''
     = (if FaultWorktreeAddPartial \<in> set (faults ?w) then Pair (Some WorktreeCreationFailed)
        else (\<lambda>w2. addSession sampleConfig (say WorkspaceCreated w2)
                (GetRepoPath sampleConfig ''notes'')
                (GetCrewPath sampleConfig ''notes'' ''tracy'')
                (GetCrewSessionName sampleConfig ''notes'' ''tracy'')
                (GetCrewBranchName sampleConfig ''tracy'')))
       (?w\<lparr>trace := trace ?w
              @ [Did (MkdirAllOf (filepath_Dir (GetCrewPath sampleConfig ''notes'' ''tracy''))),
              Said CreatingWorkspace, Said BranchAlreadyExists, Asked UseExistingBranch,
              Did (WorktreeAddExisting (GetCrewPath sampleConfig ''notes'' ''tracy'')
                     (GetCrewBranchName sampleConfig ''tracy''))],
           stdin := tl (stdin ?w),
           fs := sampleDisk @ [(''/home/u/crew/notes'', Directory),
                               (''/home/u/crew/notes/tracy'', Directory)],
           repos := (repos ?w)(GetRepoPath sampleConfig ''notes'' \<mapsto>
              ?r\<lparr>worktrees := worktrees ?r
                 @ [(filepath_Clean (GetCrewPath sampleConfig ''notes'' ''tracy''),
                     GetCrewBranchName sampleConfig ''tracy'')]\<rparr>)\<rparr>)"
  proof (rule Add_reuse)
    show "ValidateCrewName ''tracy'' = None" by (rule sample_valid)
    show "IsGitRepo ?w (GetRepoPath sampleConfig ''notes'')"
      by (simp add: g sample_paths sample_git)
    show "GetBaseBranch ?w (GetRepoPath sampleConfig ''notes'') (DefaultBranch sampleConfig)
        = Some ''main''"
      by (simp add: sample_paths sample_frame b sample_base)
    show "\<not> exists (fs ?w) (GetCrewPath sampleConfig ''notes'' ''tracy'')"
      using sample_dirs(1) by (simp add: sample_paths sample_reuse_fields sampleWorld_def)
    show "os_MkdirAll (fs ?w) (filepath_Dir (GetCrewPath sampleConfig ''notes'' ''tracy''))
        = (None, sampleDisk @ [(''/home/u/crew/notes'', Directory)])"
      by (simp add: sample_paths sample_reuse_fields sample_mkdir)
    show "\<not> exists (sampleDisk @ [(''/home/u/crew/notes'', Directory)])
        (GetCrewPath sampleConfig ''notes'' ''tracy'')"
      by (simp add: sample_paths sample_mkdir)
    show "os_MkdirAll (sampleDisk @ [(''/home/u/crew/notes'', Directory)])
        (GetCrewPath sampleConfig ''notes'' ''tracy'')
       = (None, sampleDisk @ [(''/home/u/crew/notes'', Directory),
                               (''/home/u/crew/notes/tracy'', Directory)])"
      by (simp add: sample_paths sample_mkdir)
    show "repos ?w (GetRepoPath sampleConfig ''notes'') = Some ?r"
      by (simp add: sample_paths sample_reuse_fields)
    show "GetCrewBranchName sampleConfig ''tracy'' \<in> set (branches ?r)"
      by (simp add: GetCrewBranchName_def)
    show "\<not> checkedOut ?r (GetCrewBranchName sampleConfig ''tracy'')"
      by (simp add: checkedOut_def GetCrewBranchName_def)
    show "\<not> registered ?r (GetCrewPath sampleConfig ''notes'' ''tracy'')"
      by (simp add: registered_def)
    show "\<not> saysNo (fst (ask UseExistingBranch ?w))"
      by (simp add: ask_def sample_reuse_fields saysNo_def)
    show "FaultWorktreeAdd \<notin> set (faults ?w)" using assms by simp
  qed
  then show ?thesis
    by (simp add: sample_paths sample_reuse_fields GetCrewSessionName_def GetCrewBranchName_def)
qed

text \<open>
  C3. Evaluation of \<open>Add\<close> for the worker \<open>tracy\<close> of \<open>notes\<close>, whose branch
  \<open>tracy/work\<close> is left from earlier work and is taken again.  When the session cannot
  be created, \<open>Add\<close> fails with \<open>SessionCreationFailed\<close> after a cleanup that removes the
  worktree, prunes, and deletes the branch: the branch that was there before the call is
  gone.  When the creation of the worktree fails after it has made the directory and the
  registration, \<open>Add\<close> fails with \<open>WorktreeCreationFailed\<close> and runs no cleanup: the
  directory and the registration stay, without a session.
\<close>

theorem Add_rollback_evaluated:
  "BranchExists sampleNoTmux ''/home/u/git/notes'' ''tracy/work''
   \<and> fst (Add sampleConfig sampleNoTmux ''tracy'' ''notes'') = Some SessionCreationFailed
   \<and> trace (snd (Add sampleConfig sampleNoTmux ''tracy'' ''notes''))
       = [Did (MkdirAllOf ''/home/u/crew/notes''), Said CreatingWorkspace,
          Said BranchAlreadyExists, Asked UseExistingBranch,
          Did (WorktreeAddExisting ''/home/u/crew/notes/tracy'' ''tracy/work''),
          Said WorkspaceCreated, Did (NewSession ''notes@tracy''), Said SessionFailedCleaningUp,
          Did (WorktreeRemove ''/home/u/crew/notes/tracy''), Did WorktreePrune,
          Did (BranchDelete ''tracy/work'')]
   \<and> \<not> BranchExists (snd (Add sampleConfig sampleNoTmux ''tracy'' ''notes''))
         ''/home/u/git/notes'' ''tracy/work''
   \<and> Add sampleConfig samplePartial ''tracy'' ''notes''
       = (Some WorktreeCreationFailed,
          samplePartial
          \<lparr>trace := [Did (MkdirAllOf ''/home/u/crew/notes''), Said CreatingWorkspace,
              Said BranchAlreadyExists, Asked UseExistingBranch,
              Did (WorktreeAddExisting ''/home/u/crew/notes/tracy'' ''tracy/work'')],
            stdin := [],
            fs := sampleDisk @ [(''/home/u/crew/notes'', Directory),
                                (''/home/u/crew/notes/tracy'', Directory)],
            repos := [''/home/u/git/notes'' \<mapsto>
                 \<lparr>mainBranch = ''main'', branches = [''main'', ''tracy/work''],
                  worktrees = [(''/home/u/crew/notes/tracy'', ''tracy/work'')],
                  originHead = None, tip = (\<lambda>b. ''1a2b3c4'')\<rparr>]\<rparr>)"
proof -
  let ?r1 = "\<lparr>mainBranch = ''main'', branches = [''main'', ''tracy/work''],
                  worktrees = [(''/home/u/crew/notes/tracy'', ''tracy/work'')],
                  originHead = None, tip = (\<lambda>b. ''1a2b3c4'')\<rparr>"
  define w2 where "w2 = sampleReuse\<lparr>faults := [FaultNewSession],
           trace := [Did (MkdirAllOf ''/home/u/crew/notes''),
              Said CreatingWorkspace, Said BranchAlreadyExists, Asked UseExistingBranch,
              Did (WorktreeAddExisting ''/home/u/crew/notes/tracy'' ''tracy/work'')],
           stdin := [],
           fs := sampleDisk @ [(''/home/u/crew/notes'', Directory),
                               (''/home/u/crew/notes/tracy'', Directory)],
           repos := [''/home/u/git/notes'' \<mapsto> ?r1]\<rparr>"
  define w3 where "w3 = say SessionFailedCleaningUp
      ((say WorkspaceCreated w2)\<lparr>trace := trace (say WorkspaceCreated w2)
          @ [Did (NewSession (NormalizeSessionName ''notes@tracy''))]\<rparr>)"
  have a: "Add sampleConfig sampleNoTmux ''tracy'' ''notes''
      = addSession sampleConfig (say WorkspaceCreated w2) ''/home/u/git/notes''
                ''/home/u/crew/notes/tracy'' ''notes@tracy'' ''tracy/work''"
    unfolding sampleNoTmux_def w2_def by (subst sample_reuse_Add) simp_all
  have c: "CreateCrewSession (say WorkspaceCreated w2) ''notes@tracy'' (UseCC sampleConfig)
      = (False, (say WorkspaceCreated w2)\<lparr>trace := trace (say WorkspaceCreated w2)
          @ [Did (NewSession (NormalizeSessionName ''notes@tracy''))]\<rparr>)"
    by (rule CreateCrewSession_fails) (simp add: w2_def)
  have s: "Add sampleConfig sampleNoTmux ''tracy'' ''notes''
      = (Some SessionCreationFailed,
         cleanupWorktree w3 ''/home/u/git/notes'' ''/home/u/crew/notes/tracy'' ''tracy/work'')"
    unfolding a addSession_def c w3_def by simp
  have r3: "repos w3 ''/home/u/git/notes'' = Some ?r1" by (simp add: w3_def w2_def)
  have t3: "trace w3 = [Did (MkdirAllOf ''/home/u/crew/notes''), Said CreatingWorkspace,
          Said BranchAlreadyExists, Asked UseExistingBranch,
          Did (WorktreeAddExisting ''/home/u/crew/notes/tracy'' ''tracy/work''),
          Said WorkspaceCreated, Did (NewSession ''notes@tracy''), Said SessionFailedCleaningUp]"
    by (simp add: w3_def w2_def NormalizeSessionName_def)
  have d: "\<not> BranchExists (cleanupWorktree w3 ''/home/u/git/notes'' ''/home/u/crew/notes/tracy''
      ''tracy/work'') ''/home/u/git/notes'' ''tracy/work''"
    by (rule cleanupWorktree_deletes [OF r3]) (simp_all add: sample_paths)
  have b0: "BranchExists sampleNoTmux ''/home/u/git/notes'' ''tracy/work''"
    by (simp add: BranchExists_def sampleNoTmux_def sample_reuse_fields)
  have p: "Add sampleConfig samplePartial ''tracy'' ''notes''
       = (Some WorktreeCreationFailed,
          samplePartial
          \<lparr>trace := [Did (MkdirAllOf ''/home/u/crew/notes''), Said CreatingWorkspace,
              Said BranchAlreadyExists, Asked UseExistingBranch,
              Did (WorktreeAddExisting ''/home/u/crew/notes/tracy'' ''tracy/work'')],
            stdin := [],
            fs := sampleDisk @ [(''/home/u/crew/notes'', Directory),
                                (''/home/u/crew/notes/tracy'', Directory)],
            repos := [''/home/u/git/notes'' \<mapsto> ?r1]\<rparr>)"
    unfolding samplePartial_def by (subst sample_reuse_Add) simp_all
  show ?thesis
    using b0 d p by (simp add: s cleanupWorktree_trace t3)
qed




















section \<open>Properties of InferRig\<close>

lemma dropCommon_prefix: "dropCommon bs (bs @ ts) = ([], ts)"
  by (induction bs) simp_all

lemma Split_hd: "hd (strings_Split s sep) = takeWhile (\<lambda>c. c \<noteq> sep) s"
  by (induction s) (auto simp: Split_ne split: list.splits)

lemma Split_first: "(case strings_Split s sep of [] \<Rightarrow> a | p # _ \<Rightarrow> f p) = f (takeWhile (\<lambda>c. c \<noteq> sep) s)"
  using Split_hd [of s sep] Split_ne [of s sep] by (cases "strings_Split s sep") simp_all

text \<open>The path of a directory below a rooted base, relative to the base.\<close>

lemma Rel_below:
  assumes "rooted base" and "rooted targ" and "elems targ = elems base @ e # rest"
  shows "filepath_Rel base targ = Some (strings_Join (e # rest) ''/'')"
proof -
  have ok: "okElems (e # rest)"
    using okElems_elems [of targ] assms(3) by (simp add: okElems_def)
  obtain c cs where j: "strings_Join (e # rest) ''/'' = c # cs" "c \<noteq> CHR ''/''"
    using Join_hd [OF ok] by blast
  have "strings_Join (elems targ) ''/'' \<noteq> strings_Join (elems base) ''/''"
  proof (cases "elems base = []")
    case True
    then show ?thesis using assms(3) j by simp
  next
    case False
    have "elems targ \<noteq> elems base" using assms(3) by simp
    then show ?thesis
      using Join_inj [OF okElems_elems okElems_elems _ False, of targ] assms(3) by auto
  qed
  then have "filepath_Clean targ \<noteq> filepath_Clean base"
    using assms(1,2) by (simp add: filepath_Clean_def render_def)
  then show ?thesis
    using assms by (simp add: filepath_Rel_def dropCommon_prefix)
qed

lemma Rel_first:
  assumes "rooted base" and "rooted targ" and "elems targ = elems base @ e # rest"
  shows "(case filepath_Rel base targ of
            None \<Rightarrow> None
          | Some relPath \<Rightarrow> (case strings_Split relPath CHR ''/'' of [] \<Rightarrow> None | p # _ \<Rightarrow> Some p))
         = Some e"
proof -
  have "\<forall>x\<in>set (e # rest). CHR ''/'' \<notin> set x"
    using elems_ok [of _ targ] assms(3) by auto
  then have "strings_Split (strings_Join (e # rest) ''/'') CHR ''/'' = e # rest"
    by (intro Split_Join) simp_all
  then show ?thesis by (simp add: Rel_below [OF assms])
qed

text \<open>The steps of \<open>InferRig\<close> after an empty argument.\<close>

lemma InferRig_from_root:
  assumes "cwd w = Some pwd"
    and "strings_HasPrefix (filepath_Abs pwd pwd) (RigsBase cfg @ ''/'')"
    and "GetRepoRoot w (filepath_Abs pwd pwd) = Some root"
  shows "InferRig cfg w [] = Inr (filepath_Base root)"
  using assms by (simp add: InferRig_def inferFromRoot_def Let_def)

lemma InferRig_from_crew:
  assumes "cwd w = Some pwd"
    and "\<not> strings_HasPrefix (filepath_Abs pwd pwd) (RigsBase cfg @ ''/'')"
    and "strings_HasPrefix (filepath_Abs pwd pwd) (CrewBase cfg @ ''/'')"
    and "GetRepoRoot w (filepath_Abs pwd pwd) = Some root"
    and "rooted (CrewBase cfg)" and "rooted root"
    and "elems root = elems (CrewBase cfg) @ repo # rest"
  shows "InferRig cfg w [] = Inr repo"
  using assms(1-4) Rel_first [OF assms(5-7)]
  by (simp add: InferRig_def inferFromRoot_def inferFromCrew_def Let_def)

lemma InferRig_falls_through:
  assumes "cwd w = None \<or> cwd w = Some pwd
      \<and> (GetRepoRoot w (filepath_Abs pwd pwd) = None
          \<or> \<not> strings_HasPrefix (filepath_Abs pwd pwd) (RigsBase cfg @ ''/'')
            \<and> \<not> strings_HasPrefix (filepath_Abs pwd pwd) (CrewBase cfg @ ''/''))"
  shows "InferRig cfg w [] = inferFromSession cfg w"
  using assms
  by (auto simp: InferRig_def inferFromRoot_def inferFromCrew_def Let_def split: option.splits)

lemma inferFromSession_cases:
  "inferFromSession cfg w =
     (if strings_Contains (GetCurrentSession w) ''@''
      then Inr (takeWhile (\<lambda>c. c \<noteq> CHR ''@'') (GetCurrentSession w))
      else if GetCurrentSession w \<noteq> [] \<and> IsGitRepo w (GetRepoPath cfg (GetCurrentSession w))
      then Inr (GetCurrentSession w)
      else Inl CannotInfer)"
proof -
  have "strings_Contains [] ''@'' = False" by simp
  then show ?thesis
    by (cases "GetCurrentSession w = []") (simp_all add: inferFromSession_def Let_def Split_first)
qed

text \<open>
  C1, amended.  \<open>InferRig\<close> returns a non-empty explicit argument as it is, whatever
  exists.  With an empty argument: if the working directory is under the repositories
  root and \<open>git\<close> finds the root of its working tree, the last element of that root is
  returned.  Else, if the working directory is under the workers root and \<open>git\<close> finds
  the root of its working tree below the workers root, the first element of that root
  after the workers root is returned, not the name of the working tree.  If there is no
  working directory, or \<open>git\<close> finds no working tree for it, or it is under neither
  root, the session decides: the part of its name before the first \<open>@\<close> if there is one,
  else the name itself if it is not empty and names a repository, else the error.
  \<open>InferRig\<close> returns a result and no world: it changes nothing.
\<close>

theorem InferRig_order:
  "(explicitRig \<noteq> [] \<longrightarrow> InferRig cfg w explicitRig = Inr explicitRig)
   \<and> (cwd wa = Some pa
        \<and> strings_HasPrefix (filepath_Abs pa pa) (RigsBase cfg @ ''/'')
        \<and> GetRepoRoot wa (filepath_Abs pa pa) = Some ra
      \<longrightarrow> InferRig cfg wa [] = Inr (filepath_Base ra))
   \<and> (cwd wb = Some pb
        \<and> \<not> strings_HasPrefix (filepath_Abs pb pb) (RigsBase cfg @ ''/'')
        \<and> strings_HasPrefix (filepath_Abs pb pb) (CrewBase cfg @ ''/'')
        \<and> GetRepoRoot wb (filepath_Abs pb pb) = Some rb
        \<and> rooted (CrewBase cfg) \<and> rooted rb
        \<and> elems rb = elems (CrewBase cfg) @ repo # rest
      \<longrightarrow> InferRig cfg wb [] = Inr repo)
   \<and> ((cwd wc = None \<or> cwd wc = Some pc
          \<and> (GetRepoRoot wc (filepath_Abs pc pc) = None
              \<or> \<not> strings_HasPrefix (filepath_Abs pc pc) (RigsBase cfg @ ''/'')
                \<and> \<not> strings_HasPrefix (filepath_Abs pc pc) (CrewBase cfg @ ''/'')))
      \<longrightarrow> InferRig cfg wc []
          = (if strings_Contains (GetCurrentSession wc) ''@''
             then Inr (takeWhile (\<lambda>c. c \<noteq> CHR ''@'') (GetCurrentSession wc))
             else if GetCurrentSession wc \<noteq> []
                     \<and> IsGitRepo wc (GetRepoPath cfg (GetCurrentSession wc))
             then Inr (GetCurrentSession wc)
             else Inl CannotInfer))"
proof -
  have 1: "InferRig cfg w explicitRig = Inr explicitRig" if "explicitRig \<noteq> []"
    using that by (simp add: InferRig_def)
  have 2: "InferRig cfg wa [] = Inr (filepath_Base ra)"
    if "cwd wa = Some pa
        \<and> strings_HasPrefix (filepath_Abs pa pa) (RigsBase cfg @ ''/'')
        \<and> GetRepoRoot wa (filepath_Abs pa pa) = Some ra"
    using that by (intro InferRig_from_root [where pwd = pa]) simp_all
  have 3: "InferRig cfg wb [] = Inr repo"
    if "cwd wb = Some pb
        \<and> \<not> strings_HasPrefix (filepath_Abs pb pb) (RigsBase cfg @ ''/'')
        \<and> strings_HasPrefix (filepath_Abs pb pb) (CrewBase cfg @ ''/'')
        \<and> GetRepoRoot wb (filepath_Abs pb pb) = Some rb
        \<and> rooted (CrewBase cfg) \<and> rooted rb
        \<and> elems rb = elems (CrewBase cfg) @ repo # rest"
    using that by (intro InferRig_from_crew [where pwd = pb and root = rb and rest = rest]) simp_all
  have 4: "InferRig cfg wc []
          = (if strings_Contains (GetCurrentSession wc) ''@''
             then Inr (takeWhile (\<lambda>c. c \<noteq> CHR ''@'') (GetCurrentSession wc))
             else if GetCurrentSession wc \<noteq> []
                     \<and> IsGitRepo wc (GetRepoPath cfg (GetCurrentSession wc))
             then Inr (GetCurrentSession wc)
             else Inl CannotInfer)"
    if "cwd wc = None \<or> cwd wc = Some pc
          \<and> (GetRepoRoot wc (filepath_Abs pc pc) = None
              \<or> \<not> strings_HasPrefix (filepath_Abs pc pc) (RigsBase cfg @ ''/'')
                \<and> \<not> strings_HasPrefix (filepath_Abs pc pc) (CrewBase cfg @ ''/''))"
    unfolding InferRig_falls_through [OF that] by (rule inferFromSession_cases)
  show ?thesis
    apply (rule conjI, rule impI, erule 1)
    apply (rule conjI, rule impI, erule 2)
    apply (rule conjI, rule impI, erule 3)
    apply (rule impI, erule 4)
    done
qed

lemma sample_cwd:
  "cwd sampleInRepo = Some ''/home/u/git/notes/docs''"
  "GetRepoRoot sampleInRepo ''/home/u/git/notes/docs'' = Some ''/home/u/git/notes''"
  "cwd sampleInWorktree = Some ''/home/u/crew/notes/tracy.dev/src''"
  "GetRepoRoot sampleInWorktree ''/home/u/crew/notes/tracy.dev/src''
     = Some ''/home/u/crew/notes/tracy.dev''"
  "cwd sampleInside = None" "cwd sampleBare = None" "cwd sampleWorld = None"
  "cwd sampleLost = Some ''/home/u/crew/notes''"
  "GetRepoRoot sampleLost ''/home/u/crew/notes'' = None"
  "GetCurrentSession sampleBare = ''notes''" "GetCurrentSession sampleWorld = []"
  "GetCurrentSession sampleLost = []"
  "RigsBase sampleConfig = ''/home/u/git''" "CrewBase sampleConfig = ''/home/u/crew''"
  by (simp_all add: sampleInRepo_def sampleInWorktree_def sampleBare_def sampleLost_def
      sampleStopped_def sampleInside_def sampleWorld_def sampleConfig_def GetRepoRoot_def
      GetCurrentSession_def strings_TrimSpace_def asciiSpace_def space2_def space3_def)

lemma sample_abs:
  "filepath_Abs ''/home/u/git/notes/docs'' ''/home/u/git/notes/docs'' = ''/home/u/git/notes/docs''"
  "filepath_Abs ''/home/u/crew/notes/tracy.dev/src'' ''/home/u/crew/notes/tracy.dev/src''
     = ''/home/u/crew/notes/tracy.dev/src''"
  "filepath_Abs ''/home/u/crew/notes'' ''/home/u/crew/notes'' = ''/home/u/crew/notes''"
  "elems ''/home/u/crew/notes/tracy.dev'' = elems ''/home/u/crew'' @ ''notes'' # [''tracy.dev'']"
  "filepath_Base ''/home/u/git/notes'' = ''notes''"
  "filepath_Base ''/home/u/crew/notes/tracy.dev'' = ''tracy.dev''"
  "rooted ''/home/u/crew''" "rooted ''/home/u/crew/notes/tracy.dev''"
  by (simp_all add: filepath_Abs_def filepath_Base_def path_eval)

theorem InferRig_order_witness:
  "InferRig sampleConfig sampleWorld ''notes'' = Inr ''notes''
   \<and> InferRig sampleConfig sampleInRepo [] = Inr ''notes''
   \<and> InferRig sampleConfig sampleInWorktree [] = Inr ''notes''
   \<and> filepath_Base ''/home/u/crew/notes/tracy.dev'' = ''tracy.dev''
   \<and> InferRig sampleConfig sampleInside [] = Inr ''notes''
   \<and> InferRig sampleConfig sampleBare [] = Inr ''notes''
   \<and> InferRig sampleConfig sampleWorld [] = Inl CannotInfer"
proof -
  note t = InferRig_order [where cfg = sampleConfig and w = sampleWorld
      and explicitRig = "''notes''"
      and wa = sampleInRepo and pa = "''/home/u/git/notes/docs''" and ra = "''/home/u/git/notes''"
      and wb = sampleInWorktree and pb = "''/home/u/crew/notes/tracy.dev/src''"
      and rb = "''/home/u/crew/notes/tracy.dev''" and repo = "''notes''"
      and rest = "[''tracy.dev'']" and wc = sampleInside]
  note u = InferRig_order [where cfg = sampleConfig and wc = sampleBare]
  note v = InferRig_order [where cfg = sampleConfig and wc = sampleWorld]
  have h1: "''notes'' \<noteq> []" by simp
  have h2: "cwd sampleInRepo = Some ''/home/u/git/notes/docs''
        \<and> strings_HasPrefix (filepath_Abs ''/home/u/git/notes/docs'' ''/home/u/git/notes/docs'')
            (RigsBase sampleConfig @ ''/'')
        \<and> GetRepoRoot sampleInRepo
            (filepath_Abs ''/home/u/git/notes/docs'' ''/home/u/git/notes/docs'')
           = Some ''/home/u/git/notes''"
    by (simp add: sample_cwd sample_abs)
  have h3: "cwd sampleInWorktree = Some ''/home/u/crew/notes/tracy.dev/src''
        \<and> \<not> strings_HasPrefix
            (filepath_Abs ''/home/u/crew/notes/tracy.dev/src'' ''/home/u/crew/notes/tracy.dev/src'')
            (RigsBase sampleConfig @ ''/'')
        \<and> strings_HasPrefix
            (filepath_Abs ''/home/u/crew/notes/tracy.dev/src'' ''/home/u/crew/notes/tracy.dev/src'')
            (CrewBase sampleConfig @ ''/'')
        \<and> GetRepoRoot sampleInWorktree
            (filepath_Abs ''/home/u/crew/notes/tracy.dev/src'' ''/home/u/crew/notes/tracy.dev/src'')
           = Some ''/home/u/crew/notes/tracy.dev''
        \<and> rooted (CrewBase sampleConfig) \<and> rooted ''/home/u/crew/notes/tracy.dev''
        \<and> elems ''/home/u/crew/notes/tracy.dev''
            = elems (CrewBase sampleConfig) @ ''notes'' # [''tracy.dev'']"
    by (simp add: sample_cwd sample_abs)
  have h4: "cwd sampleInside = None \<or> cwd sampleInside = Some pc
          \<and> (GetRepoRoot sampleInside (filepath_Abs pc pc) = None
              \<or> \<not> strings_HasPrefix (filepath_Abs pc pc) (RigsBase sampleConfig @ ''/'')
                \<and> \<not> strings_HasPrefix (filepath_Abs pc pc) (CrewBase sampleConfig @ ''/''))"
    for pc by (simp add: sample_cwd)
  have h5: "cwd sampleBare = None \<or> cwd sampleBare = Some pc
          \<and> (GetRepoRoot sampleBare (filepath_Abs pc pc) = None
              \<or> \<not> strings_HasPrefix (filepath_Abs pc pc) (RigsBase sampleConfig @ ''/'')
                \<and> \<not> strings_HasPrefix (filepath_Abs pc pc) (CrewBase sampleConfig @ ''/''))"
    for pc by (simp add: sample_cwd)
  have h6: "cwd sampleWorld = None \<or> cwd sampleWorld = Some pc
          \<and> (GetRepoRoot sampleWorld (filepath_Abs pc pc) = None
              \<or> \<not> strings_HasPrefix (filepath_Abs pc pc) (RigsBase sampleConfig @ ''/'')
                \<and> \<not> strings_HasPrefix (filepath_Abs pc pc) (CrewBase sampleConfig @ ''/''))"
    for pc by (simp add: sample_cwd)
  have g: "IsGitRepo sampleBare ''/home/u/git/notes''"
    using sample_git(1) IsGitRepo_frame [of sampleBare sampleWorld] by (simp add: sampleBare_def)
  note c1 = t [THEN conjunct1, THEN mp, OF h1]
  note c2 = t [THEN conjunct2, THEN conjunct1, THEN mp, OF h2]
  note c3 = t [THEN conjunct2, THEN conjunct2, THEN conjunct1, THEN mp, OF h3]
  note c4 = t [THEN conjunct2, THEN conjunct2, THEN conjunct2, THEN mp, OF h4]
  note c5 = u [THEN conjunct2, THEN conjunct2, THEN conjunct2, THEN mp, OF h5]
  note c6 = v [THEN conjunct2, THEN conjunct2, THEN conjunct2, THEN mp, OF h6]
  show ?thesis
    using c1 c2 c3 c4 c5 c6
    by (simp add: sample_abs sample_cwd sample_current sample_paths g)
qed

text \<open>
  C1 as it is written fails on the code.  The working directory \<open>/home/u/crew/notes\<close> is
  under the workers root and the first element of its path relative to the workers root is
  \<open>notes\<close>, but it is in no working tree of \<open>git\<close>, and without a session \<open>InferRig\<close>
  fails.
\<close>

theorem InferRig_path_counterexample:
  "cwd sampleLost = Some ''/home/u/crew/notes''
   \<and> strings_HasPrefix (filepath_Abs ''/home/u/crew/notes'' ''/home/u/crew/notes'')
        (CrewBase sampleConfig @ ''/'')
   \<and> filepath_Rel (CrewBase sampleConfig) ''/home/u/crew/notes'' = Some ''notes''
   \<and> InferRig sampleConfig sampleLost [] = Inl CannotInfer"
proof -
  have "InferRig sampleConfig sampleLost [] = inferFromSession sampleConfig sampleLost"
    by (rule InferRig_falls_through [where pwd = "''/home/u/crew/notes''"])
       (simp add: sample_cwd sample_abs)
  moreover have "inferFromSession sampleConfig sampleLost = Inl CannotInfer"
    unfolding inferFromSession_cases by (simp add: sample_cwd)
  moreover have "filepath_Rel ''/home/u/crew'' ''/home/u/crew/notes'' = Some ''notes''"
    by (simp add: filepath_Rel_def path_eval)
  ultimately show ?thesis by (simp add: sample_cwd sample_abs)
qed


end
